(* ===== verification/Prelude.thy ===== *)
theory Prelude
  imports Complex_Main
begin

text \<open>
  Shared vocabulary of the development: the JavaScript primitives that the
  scheduler code of \<open>src/src/Minion.ts\<close> relies on, written out where HOL's
  total functions differ from JavaScript.
  \<^item> Array indices are JavaScript numbers. The scheduler's round-robin cursor
    can become \<open>NaN\<close> (the result of \<open>x % 0\<close>), so a cursor is a
    \<open>js_index\<close>: a natural number or \<open>NaN\<close>.
  \<^item> \<open>Array.prototype.splice(k, 1)\<close> is \<open>splice1\<close>: it removes the element at
    position \<open>k\<close> when there is one and leaves the array unchanged otherwise;
    a \<open>NaN\<close> start position is read as \<open>0\<close>.
  \<^item> Times are epoch milliseconds, unbounded integers (\<open>time\<close>).
  \<^item> A thrown JavaScript exception is a value of \<open>error\<close>, the left side of a
    result \<open>error + 'a\<close>.
  The collection \<open>model_defs\<close> gathers the definitions of the components that
  proofs about whole runs unfold; \<open>js_simps\<close> gathers the evaluation rules of
  the JavaScript primitives.
\<close>

named_theorems model_defs "definitions of the modelled operations, unfolded in run proofs"
named_theorems js_simps "evaluation rules of the modelled JavaScript primitives"

type_synonym time = int

text \<open>The JavaScript exceptions the modelled code can raise.\<close>

datatype error = TypeError | SyntaxError

section \<open>JavaScript numbers used as array indices\<close>

datatype js_index = Idx nat | NaN

fun js_add :: "js_index \<Rightarrow> nat \<Rightarrow> js_index" where
  "js_add (Idx k) i = Idx (k + i)"
| "js_add NaN i = NaN"

text \<open>\<open>a % n\<close> on a non-negative index: \<open>NaN\<close> when \<open>n = 0\<close> or \<open>a\<close> is \<open>NaN\<close>.\<close>

fun js_mod :: "js_index \<Rightarrow> nat \<Rightarrow> js_index" where
  "js_mod (Idx k) n = (if n = 0 then NaN else Idx (k mod n))"
| "js_mod NaN n = NaN"

section \<open>Array.prototype.splice(k, 1)\<close>

definition splice1 :: "'a list \<Rightarrow> nat \<Rightarrow> 'a list" where
  "splice1 xs k = take k xs @ drop (Suc k) xs"

fun js_splice1 :: "'a list \<Rightarrow> js_index \<Rightarrow> 'a list" where
  "js_splice1 xs (Idx k) = splice1 xs k"
| "js_splice1 xs NaN = splice1 xs 0"

section \<open>Lemmas on the primitives\<close>

lemma js_mod_Idx_less [js_simps]:
  "0 < n \<Longrightarrow> js_mod (Idx k) n = Idx (k mod n)"
  by simp

lemma js_mod_NaN_iff [js_simps]:
  "js_mod c n = NaN \<longleftrightarrow> c = NaN \<or> n = 0"
  by (cases c) auto

lemma js_mod_add_Idx [js_simps]:
  "0 < n \<Longrightarrow> js_mod (js_add (Idx k) i) n = Idx ((k + i) mod n)"
  by simp

lemma js_mod_Idx_bound:
  "js_mod c n = Idx k \<Longrightarrow> k < n"
  by (cases c) (auto split: if_splits)

lemma length_splice1 [simp]:
  "k < length xs \<Longrightarrow> length (splice1 xs k) = length xs - 1"
  by (simp add: splice1_def)

lemma splice1_Nil_iff [simp]:
  "k < length xs \<Longrightarrow> splice1 xs k = [] \<longleftrightarrow> length xs \<le> Suc 0"
  by (auto simp: splice1_def)

lemma splice1_beyond [simp]:
  "length xs \<le> k \<Longrightarrow> splice1 xs k = xs"
  by (simp add: splice1_def)

lemma splice1_Cons_0 [simp]:
  "splice1 (x # xs) 0 = xs"
  by (simp add: splice1_def)

lemma splice1_update_same [simp]:
  "splice1 (xs[k := x]) k = splice1 xs k"
  by (simp add: splice1_def)

lemma nth_splice1:
  "k < length xs \<Longrightarrow> i < length xs - 1 \<Longrightarrow>
   splice1 xs k ! i = (if i < k then xs ! i else xs ! Suc i)"
  by (auto simp: splice1_def nth_append min_def)

lemma set_splice1_subset:
  "set (splice1 xs k) \<subseteq> set xs"
  by (auto simp: splice1_def dest: in_set_takeD in_set_dropD)

lemma splice1_conv_nth:
  "k < length xs \<Longrightarrow> xs = take k xs @ xs ! k # drop (Suc k) xs"
  by (simp add: Cons_nth_drop_Suc)

lemma length_js_splice1_le:
  "length (js_splice1 xs c) \<le> length xs"
  by (cases c) (simp_all add: splice1_def)

end
