(* ===== verification/Scheduler.thy ===== *)
theory Scheduler
  imports Prelude
begin

text \<open>
  The scheduler (class \<open>Minion\<close> of \<open>src/src/Minion.ts\<close>): its task pool, the
  round-robin cursor, the Idle/Busy flag, the reference to the running task,
  the pool-wide cooldown gate and the polling timer, as a record \<open>minion\<close>.
  The operations are \<open>addTask\<close>, \<open>start\<close>, \<open>stop\<close>, \<open>_polling\<close> (one firing of
  the polling timer) and the promise handlers of a task run (\<open>then\<close> and
  \<open>finally\<close>, applied when the run settles). The asynchronous behaviour is a
  step function over events: the timer firing at a time, the running task's
  promise settling at a time, and the calls of the intake API.

  The running task instance is \<open>current_task\<close> (the class it was built from);
  the \<open>pickedTask\<close> object that the \<open>finally\<close> closure mutates is identified by
  its slot in the pool, \<open>picked_slot\<close>. The slot is stable while the task
  runs, since the only other mutation of the pool, \<open>addTask\<close>, appends; the
  invariant \<open>minion_inv\<close> records that it stays in range.
\<close>

section \<open>Data\<close>

datatype mining_state = Idle | Busy

record 'c task_object =
  cls :: 'c
  life :: int
  awake_time :: time

record 'c minion =
  task_pool :: "'c task_object list"
  polling_index :: js_index
  state :: mining_state
  current_task :: "'c option"
  picked_slot :: "nat option"
  next_task_timer :: time
  polling_armed :: bool
  task_interval :: int

text \<open>
  A settled run: the promise of \<open>task.start()\<close> resolves with a result whose
  \<open>awakeTime\<close> may be absent, or it rejects.
\<close>

datatype task_outcome = Resolved "time option" | Rejected

datatype 'c event =
    AddTask 'c int
  | Start
  | Stop
  | Timer time
  | TimerThrows time error
  | Settle task_outcome time

section \<open>Operations\<close>

definition minion_init :: "int \<Rightarrow> 'c minion" where
  "minion_init interval =
     \<lparr>task_pool = [], polling_index = Idx 0, state = Idle, current_task = None,
      picked_slot = None, next_task_timer = 0, polling_armed = False,
      task_interval = interval\<rparr>"

text \<open>
  \<open>addTask\<close> appends a new entry (\<open>push\<close>), awake at time 0.
\<close>

definition add_task :: "'c \<Rightarrow> int \<Rightarrow> 'c minion \<Rightarrow> 'c minion" where
  "add_task c l s =
     s\<lparr>task_pool := task_pool s @ [\<lparr>cls = c, life = l, awake_time = 0\<rparr>]\<rparr>"

definition schedule_polling :: "'c minion \<Rightarrow> 'c minion" where
  "schedule_polling s = s\<lparr>polling_armed := True\<rparr>"

definition start :: "'c minion \<Rightarrow> 'c minion" where
  "start s = schedule_polling s"

definition stop :: "'c minion \<Rightarrow> 'c minion" where
  "stop s = s\<lparr>polling_armed := False\<rparr>"

text \<open>
  The scan of \<open>_polling\<close>: for \<open>i = 0 .. total - 1\<close> it reads
  \<open>_taskPool[(_pollingIndex + i) % total]\<close> and picks the first entry with
  \<open>awakeTime < ts\<close> while the scheduler is idle with no current task. Reading
  \<open>.awakeTime\<close> of \<open>_taskPool[NaN]\<close> (\<open>undefined\<close>) raises a TypeError.
\<close>

fun scan_pool ::
  "'c task_object list \<Rightarrow> js_index \<Rightarrow> time \<Rightarrow> mining_state \<Rightarrow> 'c option \<Rightarrow> nat list
   \<Rightarrow> error + nat option" where
  "scan_pool pool c ts st cur [] = Inr None"
| "scan_pool pool c ts st cur (i # is) =
     (case js_mod (js_add c i) (length pool) of
        NaN \<Rightarrow> Inl TypeError
      | Idx idx \<Rightarrow>
          (if idx < length pool then
             (if awake_time (pool ! idx) < ts \<and> st = Idle \<and> cur = None
              then Inr (Some idx) else scan_pool pool c ts st cur is)
           else Inl TypeError))"

text \<open>
  \<open>_polling\<close> itself. Its guards (busy, empty pool, gate closed) re-arm the
  timer and return; otherwise it scans. When an entry is picked it builds the
  task (\<open>new pickedTask.Class()\<close>, \<open>setProvider\<close>, \<open>prepare()\<close>) before it
  records the task and marks the scheduler Busy. Whether these synchronous
  calls throw depends on the task (\<open>Mining.prepare\<close> throws when its stored
  data cannot be read) and is the parameter \<open>perr\<close>: \<open>Some e\<close> when they throw
  \<open>e\<close>. The exception then leaves \<open>_polling\<close> before the task is recorded and
  before \<open>_schedulePolling()\<close> re-arms the timer.
\<close>

definition polling :: "time \<Rightarrow> error option \<Rightarrow> 'c minion \<Rightarrow> error + 'c minion" where
  "polling now perr s =
     (if state s \<noteq> Idle then Inr (schedule_polling s)
      else if task_pool s = [] then Inr (schedule_polling s)
      else if now < next_task_timer s then Inr (schedule_polling s)
      else
        (case scan_pool (task_pool s) (polling_index s) now (state s) (current_task s)
                [0..<length (task_pool s)] of
           Inl e \<Rightarrow> Inl e
         | Inr None \<Rightarrow> Inr (schedule_polling s)
         | Inr (Some p) \<Rightarrow>
             (case perr of
                Some e \<Rightarrow> Inl e
              | None \<Rightarrow>
                  Inr (schedule_polling
                        (s\<lparr>current_task := Some (cls (task_pool s ! p)),
                           picked_slot := Some p, state := Busy\<rparr>)))))"

text \<open>
  The \<open>then\<close> handler: a truthy \<open>rst.awakeTime\<close> (present and non-zero) is
  written to the picked entry. A rejection skips it (the \<open>catch\<close> handler
  only logs).
\<close>

fun then_block :: "nat \<Rightarrow> task_outcome \<Rightarrow> 'c minion \<Rightarrow> 'c minion" where
  "then_block p (Resolved (Some a)) s =
     (if a \<noteq> 0
      then s\<lparr>task_pool := (task_pool s)[p := (task_pool s ! p)\<lparr>awake_time := a\<rparr>]\<rparr>
      else s)"
| "then_block p (Resolved None) s = s"
| "then_block p Rejected s = s"

text \<open>
  The \<open>finally\<close> handler: decrement a positive \<open>life\<close> of the picked entry; when
  it reaches zero, splice the pool at the cursor \<open>_pollingIndex\<close> and do not
  advance the cursor; otherwise advance it by one, modulo the new pool length.
  Then become idle, drop the current task and close the gate for
  \<open>taskInterval\<close> seconds.
\<close>

definition finally_block :: "nat \<Rightarrow> time \<Rightarrow> 'c minion \<Rightarrow> 'c minion" where
  "finally_block p now s =
     (let t = task_pool s ! p;
          (pool', step) =
            (if 0 < life t then
               (let pool1 = (task_pool s)[p := t\<lparr>life := life t - 1\<rparr>] in
                if life t - 1 = 0 then (js_splice1 pool1 (polling_index s), 0::nat)
                else (pool1, 1))
             else (task_pool s, 1))
      in s\<lparr>task_pool := pool',
           polling_index := js_mod (js_add (polling_index s) step) (length pool'),
           state := Idle, current_task := None, picked_slot := None,
           next_task_timer := now + task_interval s * 1000\<rparr>)"

definition settle :: "task_outcome \<Rightarrow> time \<Rightarrow> 'c minion \<Rightarrow> 'c minion" where
  "settle r now s =
     (case picked_slot s of
        None \<Rightarrow> s
      | Some p \<Rightarrow> finally_block p now (then_block p r s))"

section \<open>Events and runs\<close>

text \<open>
  The timer is a one-shot \<open>setTimeout\<close>: it fires only while armed, and
  firing consumes it, so \<open>_polling\<close> starts from a disarmed state and the loop
  goes on only if \<open>_polling\<close> re-arms it. The event \<open>Timer now\<close> is a firing in
  which building the picked task (if any) does not throw, \<open>TimerThrows now e\<close>
  one in which it throws \<open>e\<close>. A settlement only happens for a running task
  (otherwise there is no promise, and the step leaves the state as it is). An
  exception thrown by \<open>_polling\<close> escapes the timer callback, so the run ends
  there with the error.
\<close>

definition timer_fire :: "time \<Rightarrow> error option \<Rightarrow> 'c minion \<Rightarrow> error + 'c minion" where
  "timer_fire now perr s =
     (if polling_armed s then polling now perr (s\<lparr>polling_armed := False\<rparr>) else Inr s)"

fun minion_step :: "'c minion \<Rightarrow> 'c event \<Rightarrow> error + 'c minion" where
  "minion_step s (AddTask c l) = Inr (add_task c l s)"
| "minion_step s Start = Inr (start s)"
| "minion_step s Stop = Inr (stop s)"
| "minion_step s (Timer now) = timer_fire now None s"
| "minion_step s (TimerThrows now e) = timer_fire now (Some e) s"
| "minion_step s (Settle r now) = Inr (settle r now s)"

fun minion_run :: "'c minion \<Rightarrow> 'c event list \<Rightarrow> error + 'c minion" where
  "minion_run s [] = Inr s"
| "minion_run s (e # es) =
     (case minion_step s e of Inl err \<Rightarrow> Inl err | Inr s' \<Rightarrow> minion_run s' es)"

inductive reachable :: "'c minion \<Rightarrow> bool" where
  init: "reachable (minion_init interval)"
| step: "reachable s \<Longrightarrow> minion_step s e = Inr s' \<Longrightarrow> reachable s'"

section \<open>Specification-level notions\<close>

text \<open>
  The invariant of the scheduler state: the Idle/Busy flag and the current-task
  reference agree (the two halves of the single-worker discipline that
  \<open>_polling\<close> checks together), a pending \<open>finally\<close> closure refers to a slot in
  the pool and to a numeric cursor, a numeric cursor is in range or zero, and
  the pending closure's slot holds the entry the running task was built from.
\<close>

definition minion_inv :: "'c minion \<Rightarrow> bool" where
  "minion_inv s \<longleftrightarrow>
     (state s = Busy \<longleftrightarrow> current_task s \<noteq> None) \<and>
     (picked_slot s = None \<longleftrightarrow> current_task s = None) \<and>
     (case picked_slot s of None \<Rightarrow> True
      | Some p \<Rightarrow> p < length (task_pool s) \<and> polling_index s \<noteq> NaN) \<and>
     (case polling_index s of NaN \<Rightarrow> True | Idx k \<Rightarrow> k = 0 \<or> k < length (task_pool s)) \<and>
     (case picked_slot s of None \<Rightarrow> True
      | Some p \<Rightarrow> current_task s = Some (cls (task_pool s ! p)))"

text \<open>
  Observations of a run: \<open>round_events\<close> is one poll-and-settle cycle per time
  (the timer fires, the started task resolves with no wake time); \<open>run_starts\<close>
  lists the task classes instantiated along a run, in order.
\<close>

definition round_events :: "time list \<Rightarrow> 'c event list" where
  "round_events ts = concat (map (\<lambda>t. [Timer t, Settle (Resolved None) t]) ts)"

fun run_starts :: "'c minion \<Rightarrow> 'c event list \<Rightarrow> 'c list" where
  "run_starts s [] = []"
| "run_starts s (e # es) =
     (case minion_step s e of
        Inl _ \<Rightarrow> []
      | Inr s' \<Rightarrow>
          (case (current_task s, current_task s') of (None, Some c) \<Rightarrow> [c] | _ \<Rightarrow> [])
          @ run_starts s' es)"

declare minion_init_def [model_defs] add_task_def [model_defs]
  schedule_polling_def [model_defs] start_def [model_defs] stop_def [model_defs]
  polling_def [model_defs] timer_fire_def [model_defs] finally_block_def [model_defs] settle_def [model_defs]

section \<open>Facts about one poll\<close>

lemma scan_pool_Some:
  "scan_pool pool c ts st cur ix = Inr (Some p) \<Longrightarrow>
   p < length pool \<and> awake_time (pool ! p) < ts \<and> st = Idle \<and> cur = None \<and> c \<noteq> NaN"
  by (induction ix) (auto split: js_index.splits if_splits)

lemma scan_pool_Inl:
  "scan_pool pool c ts st cur ix = Inl e \<Longrightarrow> c = NaN \<or> pool = []"
  by (induction ix) (cases c; auto split: js_index.splits if_splits)+

lemma scan_pool_Idx:
  "0 < length pool \<Longrightarrow>
   scan_pool pool (Idx k) ts Idle None ix =
     (case find (\<lambda>i. awake_time (pool ! ((k + i) mod length pool)) < ts) ix of
        None \<Rightarrow> Inr None
      | Some i \<Rightarrow> Inr (Some ((k + i) mod length pool)))"
  by (induction ix) (simp_all add: js_mod_add_Idx)

lemma mod_shift_onto:
  assumes "0 < (n::nat)" "p < n"
  shows "\<exists>i<n. (k + i) mod n = p"
proof -
  let ?i = "(p + (n - k mod n)) mod n"
  have "(k + ?i) mod n = (k mod n + (p + (n - k mod n))) mod n"
    by (metis mod_add_left_eq mod_add_right_eq)
  also have "k mod n + (p + (n - k mod n)) = p + n"
    using mod_less_divisor [OF assms(1), of k] by linarith
  finally show ?thesis using assms by (intro exI [of _ ?i]) simp
qed

lemma scan_pool_Idx_finds:
  assumes "0 < length pool"
  shows "scan_pool pool (Idx k) ts Idle None [0..<length pool] = Inr None \<longleftrightarrow>
         \<not> (\<exists>p<length pool. awake_time (pool ! p) < ts)"
proof -
  have "(\<exists>i<length pool. awake_time (pool ! ((k + i) mod length pool)) < ts) \<longleftrightarrow>
        (\<exists>p<length pool. awake_time (pool ! p) < ts)"
    using mod_shift_onto [OF assms] mod_less_divisor [OF assms] by metis
  moreover have "scan_pool pool (Idx k) ts Idle None [0..<length pool] = Inr None \<longleftrightarrow>
      \<not> (\<exists>i<length pool. awake_time (pool ! ((k + i) mod length pool)) < ts)"
    using assms by (auto simp: scan_pool_Idx find_None_iff find_Some_iff split: option.splits)
  ultimately show ?thesis by blast
qed

lemma polling_Inr_cases:
  assumes "polling now perr s = Inr s'"
  shows "s' = schedule_polling s \<or>
    (\<exists>p. perr = None \<and> state s = Idle \<and> current_task s = None \<and> next_task_timer s \<le> now \<and>
         polling_index s \<noteq> NaN \<and>
         p < length (task_pool s) \<and> awake_time (task_pool s ! p) < now \<and>
         s' = schedule_polling (s\<lparr>current_task := Some (cls (task_pool s ! p)),
                                 picked_slot := Some p, state := Busy\<rparr>))"
  using assms
  by (auto simp: polling_def not_less split: if_splits sum.splits option.splits
           dest!: scan_pool_Some)

lemma polling_busy:
  "state s = Busy \<Longrightarrow> polling now perr s = Inr (schedule_polling s)"
  by (simp add: polling_def)

lemma schedule_polling_armed [simp]:
  "polling_armed s \<Longrightarrow> schedule_polling s = s"
  "schedule_polling (s\<lparr>polling_armed := b\<rparr>) = schedule_polling s"
  by (simp_all add: schedule_polling_def)

lemma polling_picks_cursor:
  assumes "state s = Idle" "current_task s = None" "polling_index s = Idx k"
    "k < length (task_pool s)" "next_task_timer s \<le> now" "awake_time (task_pool s ! k) < now"
  shows "polling now None s = Inr (schedule_polling (s\<lparr>current_task := Some (cls (task_pool s ! k)),
                                   picked_slot := Some k, state := Busy\<rparr>))"
proof -
  have "[0..<length (task_pool s)] = 0 # [Suc 0..<length (task_pool s)]"
  proof -
    have "0 < length (task_pool s)" using assms(4) by linarith
    then show ?thesis by (rule upt_conv_Cons)
  qed
  with assms show ?thesis
    by (auto simp: polling_def not_less)
qed

lemma polling_nan_crash:
  "polling_index s = NaN \<Longrightarrow> state s = Idle \<Longrightarrow> task_pool s \<noteq> [] \<Longrightarrow>
   next_task_timer s \<le> now \<Longrightarrow> polling now perr s = Inl TypeError"
  by (cases "task_pool s") (simp_all add: polling_def not_less upt_conv_Cons del: upt_Suc)

section \<open>Facts about settlement\<close>

lemmas settle_unfold = settle_def finally_block_def Let_def

lemma then_block_fields [simp]:
  "length (task_pool (then_block p r s)) = length (task_pool s)"
  "state (then_block p r s) = state s"
  "current_task (then_block p r s) = current_task s"
  "picked_slot (then_block p r s) = picked_slot s"
  "polling_index (then_block p r s) = polling_index s"
  "task_interval (then_block p r s) = task_interval s"
  "polling_armed (then_block p r s) = polling_armed s"
  by (cases "(p, r, s)" rule: then_block.cases; simp)+

lemma then_block_pool:
  "\<exists>x. task_pool (then_block p r s) = (task_pool s)[p := x] \<and> cls x = cls (task_pool s ! p)
       \<and> life x = life (task_pool s ! p)"
  by (cases "(p, r, s)" rule: then_block.cases) (auto intro: exI [of _ "task_pool s ! p"])

lemma finally_block_idle [simp]:
  "state (finally_block p now s) = Idle"
  "current_task (finally_block p now s) = None"
  "picked_slot (finally_block p now s) = None"
  "polling_armed (finally_block p now s) = polling_armed s"
  "task_interval (finally_block p now s) = task_interval s"
  "next_task_timer (finally_block p now s) = now + task_interval s * 1000"
  by (simp_all add: finally_block_def Let_def split: prod.splits)

lemma finally_block_cursor:
  "polling_index (finally_block p now s) = Idx k \<Longrightarrow>
   k < length (task_pool (finally_block p now s))"
  by (auto simp: finally_block_def Let_def split: prod.splits if_splits dest: js_mod_Idx_bound)

lemma finally_block_empty_nan:
  "task_pool (finally_block p now s) = [] \<Longrightarrow> polling_index (finally_block p now s) = NaN"
  by (auto simp: finally_block_def Let_def js_mod_NaN_iff split: prod.splits if_splits)

lemma settle_unlimited_at:
  assumes "picked_slot s = Some k" "polling_index s = Idx k" "k < length (task_pool s)"
    "life (task_pool s ! k) \<le> 0"
  shows "settle (Resolved None) now s =
    s\<lparr>polling_index := Idx (Suc k mod length (task_pool s)), state := Idle,
      current_task := None, picked_slot := None,
      next_task_timer := now + task_interval s * 1000\<rparr>"
  using assms by (cases "task_pool s") (auto simp: settle_def finally_block_def)

lemma settle_exhausted_at_cursor:
  assumes "picked_slot s = Some p" "polling_index s = Idx p" "p < length (task_pool s)"
    "life (task_pool s ! p) = 1"
  shows "task_pool (settle r now s) = splice1 (task_pool s) p"
proof -
  obtain x where x: "task_pool (then_block p r s) = (task_pool s)[p := x]"
    "life x = life (task_pool s ! p)"
    using then_block_pool by blast
  with assms show ?thesis
    by (simp add: settle_def finally_block_def Let_def)
qed

section \<open>The invariant holds in every reachable state\<close>

lemma minion_inv_init: "minion_inv (minion_init i)"
  by (simp add: minion_inv_def minion_init_def)

lemma minion_inv_schedule_polling [simp]:
  "minion_inv (schedule_polling s) = minion_inv s"
  by (simp add: minion_inv_def schedule_polling_def split: option.splits js_index.splits)

lemma minion_inv_polling:
  assumes inv: "minion_inv s" and ok: "polling now perr s = Inr s'"
  shows "minion_inv s'"
  using polling_Inr_cases [OF ok]
proof
  assume "s' = schedule_polling s"
  with inv show ?thesis by simp
next
  assume "\<exists>p. perr = None \<and> state s = Idle \<and> current_task s = None \<and> next_task_timer s \<le> now \<and>
         polling_index s \<noteq> NaN \<and> p < length (task_pool s) \<and> awake_time (task_pool s ! p) < now \<and>
         s' = schedule_polling (s\<lparr>current_task := Some (cls (task_pool s ! p)),
                                 picked_slot := Some p, state := Busy\<rparr>)"
  with inv show ?thesis
    by (auto simp: minion_inv_def schedule_polling_def split: js_index.splits)
qed

lemma minion_inv_settle:
  "minion_inv s \<Longrightarrow> minion_inv (settle r now s)"
  by (auto simp: settle_def minion_inv_def split: option.splits js_index.splits
           dest: finally_block_cursor)

lemma minion_inv_add_task:
  "minion_inv s \<Longrightarrow> minion_inv (add_task c l s)"
  by (auto simp: add_task_def minion_inv_def nth_append split: option.splits js_index.splits)

lemma minion_inv_disarm [simp]:
  "minion_inv (s\<lparr>polling_armed := b\<rparr>) = minion_inv s"
  by (simp add: minion_inv_def split: option.splits js_index.splits)

lemma minion_inv_timer_fire:
  "minion_inv s \<Longrightarrow> timer_fire now perr s = Inr s' \<Longrightarrow> minion_inv s'"
  using minion_inv_polling [of "s\<lparr>polling_armed := False\<rparr>" now perr s']
  by (auto simp: timer_fire_def split: if_splits)

lemma minion_inv_start_stop [simp]:
  "minion_inv (start s) = minion_inv s"
  "minion_inv (stop s) = minion_inv s"
  by (simp_all add: start_def stop_def schedule_polling_def minion_inv_def
      split: option.splits js_index.splits)

lemma minion_inv_step:
  "minion_inv s \<Longrightarrow> minion_step s e = Inr s' \<Longrightarrow> minion_inv s'"
  by (cases e) (auto intro: minion_inv_add_task minion_inv_settle minion_inv_timer_fire)

lemma reachable_minion_inv: "reachable s \<Longrightarrow> minion_inv s"
proof (induction rule: reachable.induct)
  case (init interval)
  show ?case by (rule minion_inv_init)
next
  case (step s e s')
  then show ?case by (blast intro: minion_inv_step)
qed

lemma reachable_run:
  "reachable s \<Longrightarrow> minion_run s es = Inr s' \<Longrightarrow> reachable s'"
  by (induction es arbitrary: s) (auto split: sum.splits intro: reachable.step)

section \<open>Runs of poll-and-settle cycles\<close>

lemma run_starts_append:
  "minion_run s xs = Inr s' \<Longrightarrow> run_starts s (xs @ ys) = run_starts s xs @ run_starts s' ys"
  by (induction xs arbitrary: s) (auto split: sum.splits)

lemma round_robin_round:
  assumes "state s = Idle" "current_task s = None" "picked_slot s = None" "polling_armed s"
    "polling_index s = Idx k" "k < length (task_pool s)" "next_task_timer s \<le> t"
    "awake_time (task_pool s ! k) < t" "life (task_pool s ! k) \<le> 0"
  shows "minion_run s [Timer t, Settle (Resolved None) t] =
           Inr (s\<lparr>polling_index := Idx (Suc k mod length (task_pool s)),
                  next_task_timer := t + task_interval s * 1000\<rparr>)"
    and "run_starts s [Timer t, Settle (Resolved None) t] = [cls (task_pool s ! k)]"
  using assms
  by (simp_all add: timer_fire_def polling_picks_cursor settle_unlimited_at schedule_polling_def)

section \<open>Properties of the scheduler\<close>

text \<open>
  C1. In every reachable state the Idle/Busy flag and the current-task
  reference agree, and a pending \<open>finally\<close> closure exists exactly when a task
  is current: the single-worker discipline of spec section 5.
\<close>

theorem reachable_flags_agree:
  "reachable s \<Longrightarrow>
   (state s = Busy \<longleftrightarrow> current_task s \<noteq> None) \<and> (current_task s = None \<longleftrightarrow> picked_slot s = None)"
  by (drule reachable_minion_inv) (auto simp: minion_inv_def)

lemma reachable_flags_agree_witness:
  "reachable (\<lparr>task_pool = [\<lparr>cls = ''A'', life = 0, awake_time = 0\<rparr>], polling_index = Idx 0,
      state = Busy, current_task = Some ''A'', picked_slot = Some 0, next_task_timer = 0,
      polling_armed = True, task_interval = 0\<rparr> :: string minion) \<and>
   (Busy = Busy \<longleftrightarrow> Some ''A'' \<noteq> None) \<and> (Some ''A'' = None \<longleftrightarrow> Some (0::nat) = None)"
proof -
  let ?s = "\<lparr>task_pool = [\<lparr>cls = ''A'', life = 0, awake_time = 0\<rparr>], polling_index = Idx 0,
      state = Busy, current_task = Some ''A'', picked_slot = Some 0, next_task_timer = 0,
      polling_armed = True, task_interval = 0\<rparr> :: string minion"
  have "minion_run (minion_init 0) [AddTask ''A'' 0, Start, Timer 10] = Inr ?s"
    by (simp add: model_defs)
  then have r: "reachable ?s" by (rule reachable_run [OF reachable.init])
  show ?thesis using r reachable_flags_agree [OF r] by simp
qed

text \<open>
  C2. Round-robin fairness: from an idle scheduler whose cursor is at slot
  \<open>k\<close>, with unlimited entries that are all awake and polls spaced by at least
  the inter-task interval, consecutive poll-and-settle cycles start the entries
  at slots \<open>k, k+1, \<dots>\<close> modulo the pool size, one per cycle.
\<close>

theorem round_robin_rounds:
  assumes "state s = Idle" "current_task s = None" "picked_slot s = None" "polling_armed s"
    "polling_index s = Idx k" "k < length (task_pool s)"
    "\<forall>e\<in>set (task_pool s). life e \<le> 0"
    "\<forall>e\<in>set (task_pool s). \<forall>t\<in>set ts. awake_time e < t"
    "sorted_wrt (\<lambda>a b. a + task_interval s * 1000 \<le> b) ts"
    "\<forall>t\<in>set ts. next_task_timer s \<le> t"
  shows "run_starts s (round_events ts) =
           map (\<lambda>j. cls (task_pool s ! ((k + j) mod length (task_pool s)))) [0..<length ts]"
  using assms
proof (induction ts arbitrary: s k)
  case Nil
  then show ?case by (simp add: round_events_def)
next
  case (Cons t ts)
  let ?n = "length (task_pool s)"
  let ?s1 = "s\<lparr>polling_index := Idx (Suc k mod ?n), next_task_timer := t + task_interval s * 1000\<rparr>"
  have mem: "task_pool s ! k \<in> set (task_pool s)"
    using Cons.prems(6) by simp
  have st1: "run_starts s [Timer t, Settle (Resolved None) t] = [cls (task_pool s ! k)]"
    using Cons.prems mem by (intro round_robin_round(2)) auto
  have ih: "run_starts ?s1 (round_events ts) =
      map (\<lambda>j. cls (task_pool s ! ((Suc k mod ?n + j) mod ?n))) [0..<length ts]"
  proof -
    have n0: "0 < ?n" using Cons.prems(6) by linarith
    show ?thesis
      using Cons.prems mod_less_divisor [OF n0, of "Suc k"]
      by (intro Cons.IH [of ?s1 "Suc k mod ?n", simplified]) auto
  qed
  have run1: "minion_run s [Timer t, Settle (Resolved None) t] = Inr ?s1"
    using Cons.prems mem by (intro round_robin_round(1)) auto
  note split = run_starts_append [OF run1]
  have "map (\<lambda>j. cls (task_pool s ! ((Suc k mod ?n + j) mod ?n))) [0..<length ts] =
        map (\<lambda>j. cls (task_pool s ! ((k + Suc j) mod ?n))) [0..<length ts]"
    by (simp add: mod_add_left_eq)
  moreover have "[0..<Suc (length ts)] = 0 # map Suc [0..<length ts]"
    by (simp add: map_Suc_upt upt_conv_Cons del: upt_Suc)
  ultimately show ?case
    using st1 ih split [of "round_events ts"] Cons.prems(6)
    by (simp add: round_events_def)
qed

lemma round_robin_rounds_witness:
  "run_starts (\<lparr>task_pool = [\<lparr>cls = ''A'', life = 0, awake_time = 0\<rparr>,
        \<lparr>cls = ''B'', life = 0, awake_time = 0\<rparr>, \<lparr>cls = ''C'', life = 0, awake_time = 0\<rparr>],
      polling_index = Idx 0, state = Idle, current_task = None, picked_slot = None,
      next_task_timer = 0, polling_armed = True, task_interval = 0\<rparr> :: string minion)
     (round_events [10, 20, 30]) = [''A'', ''B'', ''C'']"
  using round_robin_rounds [of "\<lparr>task_pool = [\<lparr>cls = ''A'', life = 0, awake_time = 0\<rparr>,
        \<lparr>cls = ''B'', life = 0, awake_time = 0\<rparr>, \<lparr>cls = ''C'', life = 0, awake_time = 0\<rparr>],
      polling_index = Idx 0, state = Idle, current_task = None, picked_slot = None,
      next_task_timer = 0, polling_armed = True, task_interval = 0\<rparr> :: string minion"
      0 "[10, 20, 30]"]
  by (simp add: upt_conv_Cons del: upt_Suc)

text \<open>
  C3. When the run of the entry at the cursor settles and its life budget goes
  from one to zero, that entry is removed from the pool and the cursor keeps
  its index (which now designates the following entry), modulo the new size.
\<close>

theorem settle_removes_exhausted_at_cursor:
  assumes "picked_slot s = Some p" "polling_index s = Idx p" "p < length (task_pool s)"
    "life (task_pool s ! p) = 1"
  shows "task_pool (settle r now s) = splice1 (task_pool s) p \<and>
         polling_index (settle r now s) = js_mod (Idx p) (length (task_pool s) - 1)"
proof -
  have pool: "task_pool (settle r now s) = splice1 (task_pool s) p"
    using assms by (rule settle_exhausted_at_cursor)
  obtain x where x: "task_pool (then_block p r s) = (task_pool s)[p := x]"
    "life x = life (task_pool s ! p)"
    using then_block_pool by blast
  with assms pool show ?thesis
    by (simp add: settle_def finally_block_def Let_def)
qed

lemma settle_removes_exhausted_at_cursor_witness:
  "task_pool (settle (Resolved None) 5
     (\<lparr>task_pool = [\<lparr>cls = ''A'', life = 1, awake_time = 0\<rparr>, \<lparr>cls = ''B'', life = 0, awake_time = 0\<rparr>],
       polling_index = Idx 0, state = Busy, current_task = Some ''A'', picked_slot = Some 0,
       next_task_timer = 0, polling_armed = True, task_interval = 0\<rparr> :: string minion))
     = [\<lparr>cls = ''B'', life = 0, awake_time = 0\<rparr>]"
  using settle_removes_exhausted_at_cursor [of
     "\<lparr>task_pool = [\<lparr>cls = ''A'', life = 1, awake_time = 0\<rparr>, \<lparr>cls = ''B'', life = 0, awake_time = 0\<rparr>],
       polling_index = Idx 0, state = Busy, current_task = Some ''A'', picked_slot = Some 0,
       next_task_timer = 0, polling_armed = True, task_interval = 0\<rparr> :: string minion" 0 "Resolved None" 5]
  by (simp add: splice1_def)

text \<open>
  C4. A run that resolves with a non-zero \<open>awakeTime\<close> a records a as the
  picked entry's wake time, whenever the entry is not removed by the same
  settlement (its life was not one).
\<close>

theorem settle_records_awake_time:
  assumes "picked_slot s = Some p" "p < length (task_pool s)" "a \<noteq> 0"
    "life (task_pool s ! p) \<noteq> 1"
  shows "awake_time (task_pool (settle (Resolved (Some a)) now s) ! p) = a"
  using assms by (simp add: settle_unfold)

lemma settle_records_awake_time_witness:
  "awake_time (task_pool (settle (Resolved (Some 5000)) 7
     (\<lparr>task_pool = [\<lparr>cls = ''A'', life = 0, awake_time = 0\<rparr>], polling_index = Idx 0,
       state = Busy, current_task = Some ''A'', picked_slot = Some 0, next_task_timer = 0,
       polling_armed = True, task_interval = 0\<rparr> :: string minion)) ! 0) = 5000"
  by (rule settle_records_awake_time) simp_all

text \<open>
  C5. Mutual exclusion: in a reachable state with a running task, a firing of
  the polling timer starts nothing: it at most re-arms the timer.
\<close>

theorem busy_timer_starts_nothing:
  assumes "reachable s" and "current_task s \<noteq> None"
    and "minion_step s (Timer now) = Inr s'"
  shows "s' = s \<or> s' = schedule_polling s"
proof -
  from assms(1) have "minion_inv s" by (rule reachable_minion_inv)
  with assms(2) have "state s = Busy" by (simp add: minion_inv_def)
  with assms(3) show ?thesis by (auto simp: timer_fire_def polling_busy split: if_splits)
qed

lemma busy_timer_starts_nothing_witness:
  "minion_step (\<lparr>task_pool = [\<lparr>cls = ''A'', life = 0, awake_time = 0\<rparr>], polling_index = Idx 0,
      state = Busy, current_task = Some ''A'', picked_slot = Some 0, next_task_timer = 0,
      polling_armed = True, task_interval = 0\<rparr> :: string minion) (Timer 20) =
   Inr \<lparr>task_pool = [\<lparr>cls = ''A'', life = 0, awake_time = 0\<rparr>], polling_index = Idx 0,
      state = Busy, current_task = Some ''A'', picked_slot = Some 0, next_task_timer = 0,
      polling_armed = True, task_interval = 0\<rparr>"
proof -
  let ?s = "\<lparr>task_pool = [\<lparr>cls = ''A'', life = 0, awake_time = 0\<rparr>], polling_index = Idx 0,
      state = Busy, current_task = Some ''A'', picked_slot = Some 0, next_task_timer = 0,
      polling_armed = True, task_interval = 0\<rparr> :: string minion"
  have run: "minion_run (minion_init 0) [AddTask ''A'' 0, Start, Timer 10] = Inr ?s"
    by (simp add: model_defs)
  have r: "reachable ?s" by (rule reachable_run [OF reachable.init run])
  have step: "minion_step ?s (Timer 20) = Inr (schedule_polling ?s)"
    by (simp add: timer_fire_def polling_def schedule_polling_def)
  from busy_timer_starts_nothing [OF r _ step] have "schedule_polling ?s = ?s \<or> schedule_polling ?s = schedule_polling ?s"
    by simp
  with step show ?thesis by (simp add: schedule_polling_def)
qed

text \<open>
  C6. In every reachable state, the slot that the pending \<open>finally\<close> closure
  will update is in the pool and holds the entry the running task was built
  from: \<open>addTask\<close> appends, so tasks added while another one runs do not shift
  the picked entry, and the life budget and wake time of a run are charged to
  the entry that was started (as long as the cursor designates it, see C7).
\<close>

theorem reachable_picked_slot_current:
  "reachable s \<Longrightarrow> picked_slot s = Some p \<Longrightarrow>
   p < length (task_pool s) \<and> current_task s = Some (cls (task_pool s ! p))"
  by (drule reachable_minion_inv) (simp add: minion_inv_def)

lemma reachable_picked_slot_current_witness:
  "reachable (\<lparr>task_pool = [\<lparr>cls = ''A'', life = 0, awake_time = 0\<rparr>, \<lparr>cls = ''B'', life = 0, awake_time = 0\<rparr>],
      polling_index = Idx 0, state = Busy, current_task = Some ''A'', picked_slot = Some 0,
      next_task_timer = 0, polling_armed = True, task_interval = 0\<rparr> :: string minion) \<and>
   current_task (\<lparr>task_pool = [\<lparr>cls = ''A'', life = 0, awake_time = 0\<rparr>, \<lparr>cls = ''B'', life = 0, awake_time = 0\<rparr>],
      polling_index = Idx 0, state = Busy, current_task = Some ''A'', picked_slot = Some 0,
      next_task_timer = 0, polling_armed = True, task_interval = 0\<rparr> :: string minion) = Some ''A''"
proof -
  let ?s = "\<lparr>task_pool = [\<lparr>cls = ''A'', life = 0, awake_time = 0\<rparr>, \<lparr>cls = ''B'', life = 0, awake_time = 0\<rparr>],
      polling_index = Idx 0, state = Busy, current_task = Some ''A'', picked_slot = Some 0,
      next_task_timer = 0, polling_armed = True, task_interval = 0\<rparr> :: string minion"
  have "minion_run (minion_init 0) [AddTask ''A'' 0, Start, Timer 10, AddTask ''B'' 0] = Inr ?s"
    by (simp add: model_defs)
  then have r: "reachable ?s" by (rule reachable_run [OF reachable.init])
  have "0 < length (task_pool ?s) \<and> current_task ?s = Some (cls (task_pool ?s ! 0))"
    by (rule reachable_picked_slot_current [OF r]) simp
  with r show ?thesis by simp
qed

text \<open>
  C7. In general, when the picked entry p is not at the cursor k and its life
  goes from one to zero, the pool shrinks by one, yet the picked entry stays
  in it (at its shifted position) with life 0, that is, with an unlimited
  budget; the entry at the cursor is the one removed.
\<close>

theorem settle_exhausted_off_cursor:
  assumes "picked_slot s = Some p" "polling_index s = Idx k" "k \<noteq> p"
    "p < length (task_pool s)" "k < length (task_pool s)" "life (task_pool s ! p) = 1"
  shows "length (task_pool (settle r now s)) = length (task_pool s) - 1 \<and>
         cls (task_pool (settle r now s) ! (if p < k then p else p - 1)) = cls (task_pool s ! p) \<and>
         life (task_pool (settle r now s) ! (if p < k then p else p - 1)) = 0"
proof -
  obtain x where x: "task_pool (then_block p r s) = (task_pool s)[p := x]"
    "cls x = cls (task_pool s ! p)" "life x = life (task_pool s ! p)"
    using then_block_pool by blast
  let ?pool1 = "(task_pool s)[p := x\<lparr>life := 0\<rparr>]"
  have pool: "task_pool (settle r now s) = splice1 ?pool1 k"
    using assms x by (simp add: settle_def finally_block_def Let_def)
  have "splice1 ?pool1 k ! (if p < k then p else p - 1) = x\<lparr>life := 0\<rparr>"
    using assms by (auto simp: nth_splice1)
  with pool x assms show ?thesis by simp
qed

lemma settle_exhausted_off_cursor_witness:
  "length (task_pool (settle (Resolved None) 5
     (\<lparr>task_pool = [\<lparr>cls = ''A'', life = 0, awake_time = 9\<rparr>, \<lparr>cls = ''B'', life = 1, awake_time = 0\<rparr>],
       polling_index = Idx 0, state = Busy, current_task = Some ''B'', picked_slot = Some 1,
       next_task_timer = 0, polling_armed = True, task_interval = 0\<rparr> :: string minion))) = 1 \<and>
   cls (task_pool (settle (Resolved None) 5
     (\<lparr>task_pool = [\<lparr>cls = ''A'', life = 0, awake_time = 9\<rparr>, \<lparr>cls = ''B'', life = 1, awake_time = 0\<rparr>],
       polling_index = Idx 0, state = Busy, current_task = Some ''B'', picked_slot = Some 1,
       next_task_timer = 0, polling_armed = True, task_interval = 0\<rparr> :: string minion)) ! 0) = ''B'' \<and>
   life (task_pool (settle (Resolved None) 5
     (\<lparr>task_pool = [\<lparr>cls = ''A'', life = 0, awake_time = 9\<rparr>, \<lparr>cls = ''B'', life = 1, awake_time = 0\<rparr>],
       polling_index = Idx 0, state = Busy, current_task = Some ''B'', picked_slot = Some 1,
       next_task_timer = 0, polling_armed = True, task_interval = 0\<rparr> :: string minion)) ! 0) = 0"
  using settle_exhausted_off_cursor [of
     "\<lparr>task_pool = [\<lparr>cls = ''A'', life = 0, awake_time = 9\<rparr>, \<lparr>cls = ''B'', life = 1, awake_time = 0\<rparr>],
       polling_index = Idx 0, state = Busy, current_task = Some ''B'', picked_slot = Some 1,
       next_task_timer = 0, polling_armed = True, task_interval = 0\<rparr> :: string minion"
     1 0 "Resolved None" 5]
  by simp

text \<open>
  C8. When the last entry of the pool is exhausted, the cursor becomes NaN
  (\<open>x % 0\<close>); if a task is added afterwards, the next poll past the gate
  throws a TypeError out of the timer callback and the polling loop stops,
  although spec section 4.1 says the scheduler never halts on its own.
\<close>

theorem exhausting_last_entry_crashes_next_poll:
  assumes "reachable s" "picked_slot s = Some p" "task_pool s = [x]" "life x = 1"
    "polling_armed s" "t + task_interval s * 1000 \<le> t'"
  shows "minion_run s [Settle r t, AddTask c l, Timer t'] = Inl TypeError"
proof -
  have inv: "minion_inv s" using assms(1) by (rule reachable_minion_inv)
  with assms(2,3) have p: "p = 0" and cur: "polling_index s = Idx 0"
    by (auto simp: minion_inv_def split: js_index.splits)
  let ?s1 = "settle r t s"
  have eq1: "?s1 = finally_block p t (then_block p r s)"
    using assms(2) by (simp add: settle_def)
  have pool1: "task_pool ?s1 = []"
    using settle_exhausted_at_cursor [of s p] assms(2-4) p cur by simp
  then have nan1: "polling_index ?s1 = NaN"
    unfolding eq1 by (rule finally_block_empty_nan)
  have "polling t' None ((add_task c l ?s1)\<lparr>polling_armed := False\<rparr>) = Inl TypeError"
    using pool1 nan1 assms(6) by (intro polling_nan_crash) (simp_all add: add_task_def eq1)
  moreover have "polling_armed (add_task c l ?s1)"
    using assms(5) by (simp add: add_task_def eq1)
  ultimately show ?thesis by (simp add: timer_fire_def)
qed

lemma exhausting_last_entry_crashes_next_poll_witness:
  "minion_run (minion_init 0 :: string minion)
     [AddTask ''A'' 1, Start, Timer 10, Settle (Resolved None) 10, AddTask ''B'' 0, Timer 20] =
   Inl TypeError"
proof -
  let ?s = "\<lparr>task_pool = [\<lparr>cls = ''A'', life = 1, awake_time = 0\<rparr>], polling_index = Idx 0,
      state = Busy, current_task = Some ''A'', picked_slot = Some 0, next_task_timer = 0,
      polling_armed = True, task_interval = 0\<rparr> :: string minion"
  have run: "minion_run (minion_init 0) [AddTask ''A'' 1, Start, Timer 10] = Inr ?s"
    by (simp add: model_defs)
  have r: "reachable ?s" by (rule reachable_run [OF reachable.init run])
  have "minion_run ?s [Settle (Resolved None) 10, AddTask ''B'' 0, Timer 20] = Inl TypeError"
    by (rule exhausting_last_entry_crashes_next_poll [OF r,
          where x = "\<lparr>cls = ''A'', life = 1, awake_time = 0\<rparr>"]) simp_all
  with run show ?thesis by (simp add: model_defs)
qed

text \<open>
  C9. A poll starts an entry only if its wake time lies strictly before the
  current time: an entry woken at T is not selected at T itself (the code's
  \<open>awakeTime < ts\<close>; spec section 3 says eligible when \<open>awakeTime <= now\<close>).
\<close>

theorem polling_respects_awake_time:
  "polling now perr s = Inr s' \<Longrightarrow> picked_slot s = None \<Longrightarrow> picked_slot s' = Some p \<Longrightarrow>
   awake_time (task_pool s ! p) < now"
  by (drule polling_Inr_cases) (auto simp: schedule_polling_def)

lemma polling_respects_awake_time_witness:
  "polling 10 None (\<lparr>task_pool = [\<lparr>cls = ''A'', life = 0, awake_time = 10\<rparr>, \<lparr>cls = ''B'', life = 0, awake_time = 3\<rparr>],
      polling_index = Idx 0, state = Idle, current_task = None, picked_slot = None,
      next_task_timer = 0, polling_armed = True, task_interval = 0\<rparr> :: string minion) =
   Inr \<lparr>task_pool = [\<lparr>cls = ''A'', life = 0, awake_time = 10\<rparr>, \<lparr>cls = ''B'', life = 0, awake_time = 3\<rparr>],
      polling_index = Idx 0, state = Busy, current_task = Some ''B'', picked_slot = Some 1,
      next_task_timer = 0, polling_armed = True, task_interval = 0\<rparr> \<and>
   awake_time (\<lparr>cls = ''B'', life = 0, awake_time = 3\<rparr> :: string task_object) < 10"
proof -
  let ?s = "\<lparr>task_pool = [\<lparr>cls = ''A'', life = 0, awake_time = 10\<rparr>, \<lparr>cls = ''B'', life = 0, awake_time = 3\<rparr>],
      polling_index = Idx 0, state = Idle, current_task = None, picked_slot = None,
      next_task_timer = 0, polling_armed = True, task_interval = 0\<rparr> :: string minion"
  let ?s' = "\<lparr>task_pool = [\<lparr>cls = ''A'', life = 0, awake_time = 10\<rparr>, \<lparr>cls = ''B'', life = 0, awake_time = 3\<rparr>],
      polling_index = Idx 0, state = Busy, current_task = Some ''B'', picked_slot = Some 1,
      next_task_timer = 0, polling_armed = True, task_interval = 0\<rparr> :: string minion"
  have p: "polling 10 None ?s = Inr ?s'"
    by (simp add: polling_def schedule_polling_def upt_conv_Cons del: upt_Suc)
  have "awake_time (task_pool ?s ! 1) < 10"
    by (rule polling_respects_awake_time [OF p]) simp_all
  with p show ?thesis by simp
qed

text \<open>
  C10. A task that keeps re-polling its step forever never stops the
  scheduler's loop: each firing consumes the one-shot timer and the busy
  branch of \<open>_polling\<close> re-arms it, so while Busy any number of timer firings
  leaves the scheduler exactly as it is, armed.
\<close>

theorem busy_polls_keep_loop:
  "state s = Busy \<Longrightarrow> polling_armed s \<Longrightarrow> minion_run s (map Timer ts) = Inr s"
  by (induction ts) (simp_all add: timer_fire_def polling_def)

lemma busy_polls_keep_loop_witness:
  "minion_run (\<lparr>task_pool = [], polling_index = Idx 0, state = Busy, current_task = Some ''A'',
      picked_slot = Some 0, next_task_timer = 0, polling_armed = True, task_interval = 0\<rparr> :: string minion)
     (map Timer [1, 2, 3]) =
   Inr \<lparr>task_pool = [], polling_index = Idx 0, state = Busy, current_task = Some ''A'',
      picked_slot = Some 0, next_task_timer = 0, polling_armed = True, task_interval = 0\<rparr>"
  by (rule busy_polls_keep_loop) simp_all

text \<open>
  C11. With no task current, a poll throws exactly in two cases, both for an
  idle scheduler with a non-empty pool past the gate: the cursor is NaN (the
  scan reads \<open>_taskPool[NaN].awakeTime\<close>, a TypeError), or the cursor is
  numeric, some entry is awake, and building the picked task throws (the
  exception of \<open>prepare()\<close> is the poll's). Every other poll re-arms the timer.
\<close>

theorem polling_throws_iff:
  assumes "current_task s = None"
  shows "polling now perr s = Inl e \<longleftrightarrow>
     state s = Idle \<and> task_pool s \<noteq> [] \<and> next_task_timer s \<le> now \<and>
     (polling_index s = NaN \<and> e = TypeError \<or>
      polling_index s \<noteq> NaN \<and> perr = Some e \<and>
      (\<exists>p<length (task_pool s). awake_time (task_pool s ! p) < now))"
proof (cases "state s = Idle \<and> task_pool s \<noteq> [] \<and> next_task_timer s \<le> now")
  case False
  then show ?thesis by (auto simp: polling_def not_le)
next
  case True
  then have n: "0 < length (task_pool s)" by simp
  show ?thesis
  proof (cases "polling_index s")
    case NaN
    then show ?thesis using True polling_nan_crash [of s now perr] by auto
  next
    case (Idx k)
    obtain r where r: "scan_pool (task_pool s) (Idx k) now Idle None [0..<length (task_pool s)] = Inr r"
      using scan_pool_Idx [OF n, of k now "[0..<length (task_pool s)]"] by (auto split: option.splits)
    show ?thesis
    proof (cases r)
      case None
      then have "\<not> (\<exists>p<length (task_pool s). awake_time (task_pool s ! p) < now)"
        using r scan_pool_Idx_finds [OF n, of k now] by simp
      then show ?thesis using r None True Idx assms by (simp add: polling_def not_less)
    next
      case (Some p)
      then have "\<exists>p<length (task_pool s). awake_time (task_pool s ! p) < now"
        using r scan_pool_Idx_finds [OF n, of k now] by auto
      then show ?thesis
        using r Some True Idx assms by (auto simp: polling_def not_less split: option.splits)
    qed
  qed
qed

lemma polling_throws_iff_witness:
  "polling 5 (Some SyntaxError) (\<lparr>task_pool = [\<lparr>cls = ''A'', life = 0, awake_time = 0\<rparr>],
      polling_index = Idx 0, state = Idle, current_task = None, picked_slot = None,
      next_task_timer = 0, polling_armed = False, task_interval = 0\<rparr> :: string minion) = Inl SyntaxError"
  using polling_throws_iff [of "\<lparr>task_pool = [\<lparr>cls = ''A'', life = 0, awake_time = 0\<rparr>],
      polling_index = Idx 0, state = Idle, current_task = None, picked_slot = None,
      next_task_timer = 0, polling_armed = False, task_interval = 0\<rparr> :: string minion"
      5 "Some SyntaxError" SyntaxError]
  by simp

text \<open>
  Error path: a run whose promise rejects is settled exactly like a run
  that resolves without a wake time: the life budget, the cursor, the gate and
  the release of the current task are all applied (spec section 4.1, failure
  semantics).
\<close>

lemma settle_rejected_as_resolved_none:
  "settle Rejected now s = settle (Resolved None) now s"
  by (simp add: settle_def split: option.splits)

end
