(* ===== verification/DataStore.thy ===== *)
theory DataStore
  imports Prelude
begin

text \<open>
  The data store of the scheduler (\<open>Minion._data\<close>, \<open>uniformKey\<close>, \<open>getData\<close>
  and \<open>setData\<close> of \<open>src/src/Minion.ts\<close>, and the constructor that stores the
  account information). Stored values are JavaScript values (\<open>jsval\<close>);
  reads and writes pass through \<open>JSON.parse(JSON.stringify(_))\<close>, which is
  modelled at the level of values by \<open>json_copy\<close>: it throws a SyntaxError on
  \<open>undefined\<close>, maps non-finite numbers to \<open>null\<close>, drops undefined object
  properties and turns undefined array elements into \<open>null\<close>. Values are
  immutable in HOL, so the aliasing that the deep copy prevents in the code
  cannot arise in the model; what remains is the transformation of the value.
\<close>

section \<open>JavaScript values\<close>

datatype jsval =
    JUndefined
  | JNull
  | JBool bool
  | JNum rat
  | JNonFinite
  | JStr string
  | JArr "jsval list"
  | JObj "(string \<times> jsval) list"

type_synonym store = "string \<rightharpoonup> jsval"

text \<open>
  Falsy values of JavaScript: \<open>undefined\<close>, \<open>null\<close>, \<open>false\<close>, \<open>0\<close>, \<open>NaN\<close>,
  \<open>''\<close>. \<open>JNonFinite\<close> stands for NaN and both infinities and is taken as
  truthy here; the test is only applied to results of the JSON copy, which
  never contain it (\<open>json_clean_copy\<close>).
\<close>

fun js_falsy :: "jsval \<Rightarrow> bool" where
  "js_falsy JUndefined = True"
| "js_falsy JNull = True"
| "js_falsy (JBool b) = (\<not> b)"
| "js_falsy (JNum n) = (n = 0)"
| "js_falsy JNonFinite = False"
| "js_falsy (JStr s) = (s = [])"
| "js_falsy (JArr vs) = False"
| "js_falsy (JObj kvs) = False"

section \<open>JSON.parse(JSON.stringify(v))\<close>

fun json_value_copy :: "jsval \<Rightarrow> jsval" where
  "json_value_copy JUndefined = JNull"
| "json_value_copy JNull = JNull"
| "json_value_copy (JBool b) = JBool b"
| "json_value_copy (JNum n) = JNum n"
| "json_value_copy JNonFinite = JNull"
| "json_value_copy (JStr s) = JStr s"
| "json_value_copy (JArr vs) = JArr (map json_value_copy vs)"
| "json_value_copy (JObj kvs) =
     JObj (map (\<lambda>(k, v). (k, json_value_copy v)) (filter (\<lambda>(k, v). v \<noteq> JUndefined) kvs))"

definition json_copy :: "jsval \<Rightarrow> error + jsval" where
  "json_copy v = (if v = JUndefined then Inl SyntaxError else Inr (json_value_copy v))"

text \<open>A JSON value: no \<open>undefined\<close>, no non-finite number, distinct object keys.\<close>

fun json_value :: "jsval \<Rightarrow> bool" where
  "json_value JUndefined = False"
| "json_value JNull = True"
| "json_value (JBool b) = True"
| "json_value (JNum n) = True"
| "json_value JNonFinite = False"
| "json_value (JStr s) = True"
| "json_value (JArr vs) = list_all json_value vs"
| "json_value (JObj kvs) = (distinct (map fst kvs) \<and> list_all (\<lambda>(k, v). json_value v) kvs)"

text \<open>
  The values \<open>JSON.parse\<close> can produce: no \<open>undefined\<close> and no non-finite
  number anywhere inside (duplicate keys of the association list are allowed).
\<close>

fun json_clean :: "jsval \<Rightarrow> bool" where
  "json_clean JUndefined = False"
| "json_clean JNull = True"
| "json_clean (JBool b) = True"
| "json_clean (JNum n) = True"
| "json_clean JNonFinite = False"
| "json_clean (JStr s) = True"
| "json_clean (JArr vs) = list_all json_clean vs"
| "json_clean (JObj kvs) = list_all (\<lambda>(k, v). json_clean v) kvs"

section \<open>Key normalisation: key.replace(/[^\w]+/g, '_')\<close>

definition is_word_char :: "char \<Rightarrow> bool" where
  "is_word_char c \<longleftrightarrow>
     (let n = of_char c :: nat in
      (48 \<le> n \<and> n \<le> 57) \<or> (65 \<le> n \<and> n \<le> 90) \<or> (97 \<le> n \<and> n \<le> 122) \<or> n = 95)"

function uniform_key :: "string \<Rightarrow> string" where
  "uniform_key [] = []"
| "uniform_key (c # cs) =
     (if is_word_char c then c # uniform_key cs
      else CHR ''_'' # uniform_key (dropWhile (\<lambda>x. \<not> is_word_char x) cs))"
  by pat_completeness auto
termination
  by (relation "measure length") (auto simp: le_imp_less_Suc length_dropWhile_le)

section \<open>getData and setData\<close>

definition get_data :: "store \<Rightarrow> string \<Rightarrow> error + jsval" where
  "get_data d key =
     (let k = uniform_key key;
          stored = (case d k of None \<Rightarrow> JUndefined | Some v \<Rightarrow> v)
      in case json_copy stored of
           Inl e \<Rightarrow> Inl e
         | Inr data \<Rightarrow> Inr (if js_falsy data then JObj [] else data))"

definition set_data :: "store \<Rightarrow> string \<Rightarrow> jsval \<Rightarrow> error + store" where
  "set_data d key v =
     (case json_copy v of
        Inl e \<Rightarrow> Inl e
      | Inr data \<Rightarrow> Inr (d(uniform_key key \<mapsto> data)))"

text \<open>The store is well typed when every value it holds is one \<open>JSON.parse\<close> returns.\<close>

definition store_typed :: "store \<Rightarrow> bool" where
  "store_typed d \<longleftrightarrow> (\<forall>v \<in> ran d. json_clean v)"

text \<open>A sequence of \<open>setData\<close> calls, stopping at the first that throws.\<close>

fun set_data_run :: "store \<Rightarrow> (string \<times> jsval) list \<Rightarrow> error + store" where
  "set_data_run d [] = Inr d"
| "set_data_run d ((k, v) # ops) =
     (case set_data d k v of Inl e \<Rightarrow> Inl e | Inr d' \<Rightarrow> set_data_run d' ops)"

section \<open>The constructor: account information\<close>

text \<open>
  \<open>String.prototype.trim\<close> on the ASCII whitespace characters (tab, line
  feed, vertical tab, form feed, carriage return, space).
\<close>

definition js_whitespace :: "char \<Rightarrow> bool" where
  "js_whitespace c \<longleftrightarrow> (let n = of_char c :: nat in (9 \<le> n \<and> n \<le> 13) \<or> n = 32 \<or> n = 160)"

definition js_trim :: "string \<Rightarrow> string" where
  "js_trim s = rev (dropWhile js_whitespace (rev (dropWhile js_whitespace s)))"

text \<open>
  The constructor stores \<open>{account, username, password}\<close> under the key
  \<open>DATA_ACCOUNT_INFO\<close> (a constant of \<open>utils/constant\<close>, outside \<open>src/\<close>, so a
  parameter here); missing username and password become the empty string.
\<close>

definition account_info :: "string \<Rightarrow> string option \<Rightarrow> string option \<Rightarrow> jsval" where
  "account_info a u p =
     JObj [(''account'', JStr (js_trim a)),
           (''username'', JStr (js_trim (case u of None \<Rightarrow> [] | Some x \<Rightarrow> x))),
           (''password'', JStr (js_trim (case p of None \<Rightarrow> [] | Some x \<Rightarrow> x)))]"

definition minion_data_init ::
  "string \<Rightarrow> string \<Rightarrow> string option \<Rightarrow> string option \<Rightarrow> error + store" where
  "minion_data_init info_key a u p = set_data Map.empty info_key (account_info a u p)"

section \<open>Lemmas\<close>

lemma json_value_copy_not_undefined [simp]:
  "json_value_copy v \<noteq> JUndefined"
  by (cases v) simp_all

lemma json_value_not_undefined:
  "json_value v \<Longrightarrow> v \<noteq> JUndefined"
  by (cases v) simp_all

lemma json_value_copy_id:
  "json_value v \<Longrightarrow> json_value_copy v = v"
proof (induction v rule: json_value_copy.induct)
  case (7 vs)
  then show ?case by (simp add: list_all_iff map_idI)
next
  case (8 kvs)
  then have "filter (\<lambda>(k, v). v \<noteq> JUndefined) kvs = kvs"
    by (auto simp: list_all_iff filter_id_conv)
  moreover have "map (\<lambda>(k, v). (k, json_value_copy v)) kvs = kvs"
  proof (rule map_idI)
    fix kv assume kv: "kv \<in> set kvs"
    obtain k v where kv_eq: "kv = (k, v)" by fastforce
    with kv have mem: "(k, v) \<in> set kvs" by simp
    with 8(2) have jv: "json_value v" by (auto simp: list_all_iff)
    have "json_value_copy v = v"
      using 8(1) [of "(k, v)" k v] mem jv by (simp add: json_value_not_undefined)
    with kv_eq show "(\<lambda>(k, v). (k, json_value_copy v)) kv = kv" by simp
  qed
  ultimately show ?case by simp
qed simp_all

lemma json_value_copy_idem:
  "json_value_copy (json_value_copy v) = json_value_copy v"
proof (induction v rule: json_value_copy.induct)
  case (8 kvs)
  have "filter (\<lambda>(k, v). v \<noteq> JUndefined) (map (\<lambda>(k, v). (k, json_value_copy v)) xs) =
        map (\<lambda>(k, v). (k, json_value_copy v)) xs" for xs
    by (induction xs) auto
  with 8 show ?case by (auto simp: comp_def case_prod_beta intro!: map_cong)
qed (simp_all add: comp_def)

lemma json_clean_copy:
  "json_clean (json_value_copy v)"
  by (induction v rule: json_value_copy.induct) (auto simp: list_all_iff)

lemma is_word_char_underscore [simp]: "is_word_char CHR ''_''"
  by (simp add: is_word_char_def)

lemma uniform_key_word_chars:
  "list_all is_word_char (uniform_key k)"
  by (induction k rule: uniform_key.induct) simp_all

lemma uniform_key_id:
  "list_all is_word_char k \<Longrightarrow> uniform_key k = k"
  by (induction k rule: uniform_key.induct) simp_all

lemma uniform_key_length:
  "length (uniform_key k) \<le> length k"
proof (induction k rule: uniform_key.induct)
  case (2 c cs)
  have "length (dropWhile (\<lambda>x. \<not> is_word_char x) cs) \<le> length cs"
    by (rule length_dropWhile_le)
  with 2 show ?case by auto
qed simp

lemma set_data_stores:
  "set_data d key v = Inr d' \<Longrightarrow> d' = d(uniform_key key \<mapsto> json_value_copy v) \<and> v \<noteq> JUndefined"
  by (auto simp: set_data_def json_copy_def split: if_splits)

lemma json_value_account_info:
  "json_value (account_info a u p) \<and> \<not> js_falsy (account_info a u p)"
  by (simp add: account_info_def)

section \<open>Properties of the data store\<close>

text \<open>
  C13. Write-then-read round trip: after \<open>setData(key, v)\<close> of a JSON value
  that is not falsy, \<open>getData(key')\<close> returns v for every key' with the same
  normalised form (so \<open>'a.b'\<close> and \<open>'a-b'\<close> address the same slot).
\<close>

theorem get_after_set:
  assumes "json_value v" "\<not> js_falsy v" "set_data d key v = Inr d'"
    "uniform_key key' = uniform_key key"
  shows "get_data d' key' = Inr v"
  using assms set_data_stores [OF assms(3)]
  by (simp add: get_data_def json_copy_def json_value_not_undefined json_value_copy_id)

lemma get_after_set_witness:
  "get_data (Map.empty(''a_b'' \<mapsto> JArr [JNum 1, JNum 2])) ''a-b'' = Inr (JArr [JNum 1, JNum 2])"
  using get_after_set [of "JArr [JNum 1, JNum 2]" Map.empty "''a.b''"
      "Map.empty(''a_b'' \<mapsto> JArr [JNum 1, JNum 2])" "''a-b''"]
  by (simp add: set_data_def json_copy_def is_word_char_def)



text \<open>
  C15. Reading a key that was never written throws: \<open>JSON.stringify(undefined)\<close>
  is \<open>undefined\<close> and \<open>JSON.parse(undefined)\<close> raises a SyntaxError, before
  the \<open>|| {}\<close> default is reached (spec section 6 says a missing key reads as
  an empty object and never raises).
\<close>

theorem get_data_missing:
  "d (uniform_key key) = None \<Longrightarrow> get_data d key = Inl SyntaxError"
  by (simp add: get_data_def json_copy_def)

lemma get_data_missing_witness:
  "get_data (Map.empty(''other'' \<mapsto> JNull)) ''mining'' = Inl SyntaxError"
  by (rule get_data_missing) (simp add: is_word_char_def)

text \<open>
  C16. A stored falsy value (null, false, 0, the empty string, or a non-finite
  number, which the copy turns into null) reads back as an empty object.
\<close>

theorem get_data_falsy_reads_empty:
  "d (uniform_key key) = Some v \<Longrightarrow> v \<noteq> JUndefined \<Longrightarrow> js_falsy (json_value_copy v) \<Longrightarrow>
   get_data d key = Inr (JObj [])"
  by (simp add: get_data_def json_copy_def)

lemma get_data_falsy_reads_empty_witness:
  "get_data (Map.empty(''k'' \<mapsto> JNum 0)) ''k'' = Inr (JObj [])"
  by (rule get_data_falsy_reads_empty [where v = "JNum 0"]) (simp_all add: is_word_char_def)

text \<open>
  Key normalisation yields only word characters, never lengthens the key,
  and is idempotent.
\<close>

lemma uniform_key_normal:
  "list_all is_word_char (uniform_key k) \<and> length (uniform_key k) \<le> length k \<and>
   uniform_key (uniform_key k) = uniform_key k"
  using uniform_key_word_chars [of k] uniform_key_length [of k]
    uniform_key_id [OF uniform_key_word_chars [of k]]
  by simp

text \<open>
  The copy is idempotent: copying a value that was produced by the copy
  gives it back unchanged.
\<close>

lemma json_copy_idem:
  "json_copy v = Inr w \<Longrightarrow> json_copy w = Inr w"
  by (auto simp: json_copy_def json_value_copy_idem split: if_splits)

text \<open>
  C19. A write leaves every slot with a different normalised key as it was.
\<close>

theorem get_after_set_other:
  assumes "set_data d key v = Inr d'" "uniform_key key' \<noteq> uniform_key key"
  shows "get_data d' key' = get_data d key'"
  using assms set_data_stores [OF assms(1)] by (simp add: get_data_def)

lemma get_after_set_other_witness:
  "get_data (Map.empty(''x'' \<mapsto> JNum 5, ''y'' \<mapsto> JBool True)) ''x'' = Inr (JNum 5)"
proof -
  have set: "set_data (Map.empty(''x'' \<mapsto> JNum 5)) ''y'' (JBool True) =
      Inr (Map.empty(''x'' \<mapsto> JNum 5, ''y'' \<mapsto> JBool True))"
    by (simp add: set_data_def json_copy_def is_word_char_def)
  have "get_data (Map.empty(''x'' \<mapsto> JNum 5, ''y'' \<mapsto> JBool True)) ''x'' =
        get_data (Map.empty(''x'' \<mapsto> JNum 5)) ''x''"
    by (rule get_after_set_other [OF set]) (simp add: is_word_char_def)
  then show ?thesis by (simp add: get_data_def json_copy_def is_word_char_def)
qed

text \<open>
  The constructor leaves a store from which \<open>getData(DATA_ACCOUNT_INFO)\<close>
  returns the account, username and password, trimmed.
\<close>

lemma minion_data_init_account_info:
  "\<exists>d. minion_data_init info_key a u p = Inr d \<and>
       get_data d info_key = Inr (account_info a u p)"
proof -
  let ?d = "Map.empty(uniform_key info_key \<mapsto> account_info a u p)"
  have set: "minion_data_init info_key a u p = Inr ?d"
    using json_value_account_info [of a u p]
    by (simp add: minion_data_init_def set_data_def json_copy_def json_value_not_undefined
        json_value_copy_id)
  moreover have "get_data ?d info_key = Inr (account_info a u p)"
    using json_value_account_info [of a u p]
    by (simp add: get_data_def json_copy_def json_value_not_undefined json_value_copy_id)
  ultimately show ?thesis by blast
qed

lemma store_typed_update:
  "store_typed d \<Longrightarrow> json_clean v \<Longrightarrow> store_typed (d(k \<mapsto> v))"
  by (auto simp: store_typed_def ran_def)

lemma set_data_typed:
  "set_data d key v = Inr d' \<Longrightarrow> store_typed d \<Longrightarrow> store_typed d'"
  using set_data_stores [of d key v d'] json_clean_copy [of v] store_typed_update
  by auto

text \<open>
  C20. Typing of the store: the constructor leaves a well-typed store, and any
  sequence of \<open>setData\<close> calls that does not throw keeps it well typed, so
  \<open>undefined\<close> and non-finite numbers never reach \<open>_data\<close> whatever values
  the tasks write.
\<close>

theorem store_typed_after_writes:
  assumes "minion_data_init info_key a u p = Inr d0" "set_data_run d0 ops = Inr d"
  shows "store_typed d"
proof -
  have "store_typed d0"
    using assms(1) set_data_typed [of Map.empty info_key "account_info a u p" d0]
    by (simp add: minion_data_init_def store_typed_def)
  then show ?thesis
    using assms(2)
  proof (induction ops arbitrary: d0)
    case Nil
    then show ?case by simp
  next
    case (Cons kv ops)
    obtain k v where kv: "kv = (k, v)" by (cases kv)
    with Cons.prems(2) obtain d1 where s: "set_data d0 k v = Inr d1" and r: "set_data_run d1 ops = Inr d"
      by (auto split: sum.splits)
    show ?case
      using Cons.IH [OF set_data_typed [OF s Cons.prems(1)] r] .
  qed
qed

lemma store_typed_after_writes_witness:
  "\<exists>d0 d. minion_data_init ''info'' ''a.wam'' None None = Inr d0 \<and>
          set_data_run d0 [(''mining'', JObj [(''counter'', JNum 0), (''rewards'', JNonFinite)]),
                           (''x'', JArr [JUndefined])] = Inr d \<and>
          store_typed d"
proof -
  obtain d0 where d0: "minion_data_init ''info'' ''a.wam'' None None = Inr d0"
    using minion_data_init_account_info [of "''info''" "''a.wam''" None None] by blast
  obtain d where d: "set_data_run d0 [(''mining'', JObj [(''counter'', JNum 0), (''rewards'', JNonFinite)]),
                           (''x'', JArr [JUndefined])] = Inr d"
    by (simp add: set_data_def json_copy_def)
  show ?thesis
    using d0 d store_typed_after_writes [OF d0 d] by blast
qed

end
