(* ===== verification/Utils.thy ===== *)
theory Utils
  imports Prelude
begin

text \<open>
  The helpers of \<open>src/src/utils/utils.ts\<close> that compute times: \<open>random(max, min)\<close>
  and \<open>getAwakeTime(delay, rnd)\<close>. JavaScript numbers are rationals here
  (every double is one); the value of \<open>Math.random()\<close> is the parameter
  \<open>r\<close>, with \<open>0 \<le> r < 1\<close>, and the value of \<open>new Date().getTime()\<close> is
  the parameter \<open>now\<close>. \<open>sleep(second, callback?)\<close> is the timer it arms: a
  promise resolved after \<open>second * 1000\<close> ms, or the callback scheduled then.
\<close>

definition random :: "rat \<Rightarrow> rat \<Rightarrow> rat \<Rightarrow> rat" where
  "random mx mn r = mn + of_int \<lfloor>r * (mx - mn)\<rfloor>"

definition get_awake_time :: "time \<Rightarrow> rat \<Rightarrow> rat \<Rightarrow> rat \<Rightarrow> rat" where
  "get_awake_time now delay rnd r =
     (let rnd' = (if rnd < 180000 then 180000 else rnd)
      in of_int now + delay + random rnd' (rnd' / 4) r)"

datatype sleep_result = SleepPromise rat | SleepTimer rat

definition sleep :: "rat \<Rightarrow> bool \<Rightarrow> sleep_result" where
  "sleep second has_callback =
     (if \<not> has_callback then SleepPromise (second * 1000) else SleepTimer (second * 1000))"

section \<open>Lemmas\<close>

lemma random_bounds:
  assumes "0 \<le> r" "r < 1" "mn < mx"
  shows "mn \<le> random mx mn r \<and> random mx mn r < mx"
proof -
  let ?d = "mx - mn"
  have d: "0 < ?d" using assms(3) by simp
  have lo: "0 \<le> r * ?d" using assms(1) d by simp
  have hi: "r * ?d < ?d" using assms(2) d by simp
  have "0 \<le> \<lfloor>r * ?d\<rfloor>" using lo by simp
  moreover have "of_int \<lfloor>r * ?d\<rfloor> < ?d"
    using of_int_floor_le [of "r * ?d"] hi by linarith
  ultimately show ?thesis by (simp add: random_def)
qed

lemma get_awake_time_default_int:
  "get_awake_time now (of_int d) 180000 r = of_int (now + d + 45000 + \<lfloor>r * 135000\<rfloor>)"
  by (simp add: get_awake_time_def random_def mult.commute)

lemma get_awake_time_default_floor:
  assumes "0 \<le> r" "r < 1"
  shows "now + d + 45000 \<le> \<lfloor>get_awake_time now (of_int d) 180000 r\<rfloor> \<and>
         \<lfloor>get_awake_time now (of_int d) 180000 r\<rfloor> < now + d + 180000"
proof -
  have "r * 135000 < 135000" using assms(2) by simp
  then have "\<lfloor>r * 135000\<rfloor> < 135000" by (simp add: floor_less_iff)
  moreover have "0 \<le> \<lfloor>r * 135000\<rfloor>" using assms(1) by simp
  ultimately show ?thesis
    unfolding get_awake_time_default_int floor_of_int by linarith
qed

text \<open>
  C21. \<open>getAwakeTime\<close> raises any randomness below 180000 ms to 180000: for
  every \<open>rnd < 180000\<close>, among them the minimum 36000 that its JSDoc gives for
  \<open>rnd\<close>, the wake time is the one for \<open>rnd = 180000\<close>. For \<open>0 \<le> r < 1\<close> it lies
  in \<open>[now + delay + rnd'/4, now + delay + rnd')\<close> with
  \<open>rnd' = max rnd 180000\<close>, so at least 45 seconds after \<open>now + delay\<close>.
\<close>

theorem get_awake_time_clamp_bounds:
  assumes "0 \<le> r" "r < 1"
  shows "(rnd < 180000 \<longrightarrow> get_awake_time now delay rnd r = get_awake_time now delay 180000 r) \<and>
         of_int now + delay + max rnd 180000 / 4 \<le> get_awake_time now delay rnd r \<and>
         get_awake_time now delay rnd r < of_int now + delay + max rnd 180000"
proof -
  let ?m = "max rnd 180000"
  have eq: "get_awake_time now delay rnd r = of_int now + delay + random ?m (?m / 4) r"
    by (simp add: get_awake_time_def max_def)
  have "?m / 4 < ?m" by (simp add: max_def)
  with assms have "?m / 4 \<le> random ?m (?m / 4) r \<and> random ?m (?m / 4) r < ?m"
    by (intro random_bounds) simp_all
  moreover have "rnd < 180000 \<longrightarrow> get_awake_time now delay rnd r = get_awake_time now delay 180000 r"
    by (simp add: get_awake_time_def)
  ultimately show ?thesis using eq by simp
qed

lemma get_awake_time_clamp_bounds_witness:
  "get_awake_time 1000 60000 36000 (1/2) = get_awake_time 1000 60000 180000 (1/2) \<and>
   get_awake_time 1000 60000 36000 (1/2) = 173500 \<and>
   of_int 1000 + 60000 + 45000 \<le> get_awake_time 1000 60000 36000 (1/2)"
proof -
  have "get_awake_time 1000 60000 36000 (1/2) = 173500"
    by (simp add: get_awake_time_def random_def)
  then show ?thesis
    using get_awake_time_clamp_bounds [of "1/2" 36000 1000 60000] by simp
qed

end
