(* ===== verification/Task.thy ===== *)
theory Task
  imports Scheduler
begin

text \<open>
  The task contract (\<open>BaseTask\<close>, \<open>ITask\<close>, \<open>TaskState\<close> of \<open>src/src/tasks/BaseTask\<close>).
  That file is not part of \<open>src/\<close>; this theory models it from spec section 4.2:
  a task registers named steps, one of them initial; \<open>start\<close> moves it from
  Pending to Running at the initial step; a step handler answers with one
  action, \<open>tick\<close> (run a step again after a delay), \<open>nextStep\<close> (move to a
  registered step) or \<open>complete\<close> (terminate with a state, a message, a result
  and an optional wake time); terminal states absorb. The settled task is
  what the scheduler's promise handlers see: \<open>task_settlement\<close> maps it to the
  scheduler's \<open>task_outcome\<close>.
\<close>

datatype task_state = Pending | Running | Completed | Canceled | Failed

datatype ('r, 'w) action =
    Tick string
  | NextStep string
  | Complete task_state string "'r option" "'w option"

record ('r, 'w) task =
  step_names :: "string list"
  current_step :: string
  tstate :: task_state
  message :: string
  result :: "'r option"
  awake :: "'w option"

definition terminal :: "task_state \<Rightarrow> bool" where
  "terminal st \<longleftrightarrow> st = Completed \<or> st = Canceled \<or> st = Failed"

definition new_task :: "('r, 'w) task" where
  "new_task = \<lparr>step_names = [], current_step = [], tstate = Pending, message = [],
                result = None, awake = None\<rparr>"

definition register_step :: "string \<Rightarrow> bool \<Rightarrow> ('r, 'w) task \<Rightarrow> ('r, 'w) task" where
  "register_step name initial t =
     t\<lparr>step_names := step_names t @ [name],
       current_step := (if initial \<or> step_names t = [] then name else current_step t)\<rparr>"

definition task_start :: "('r, 'w) task \<Rightarrow> ('r, 'w) task" where
  "task_start t = (if tstate t = Pending then t\<lparr>tstate := Running\<rparr> else t)"

fun apply_action :: "('r, 'w) task \<Rightarrow> ('r, 'w) action \<Rightarrow> ('r, 'w) task" where
  "apply_action t (Tick s) =
     (if tstate t = Running \<and> s \<in> set (step_names t) then t\<lparr>current_step := s\<rparr> else t)"
| "apply_action t (NextStep s) =
     (if tstate t = Running \<and> s \<in> set (step_names t) then t\<lparr>current_step := s\<rparr> else t)"
| "apply_action t (Complete st m r w) =
     (if tstate t = Running \<and> terminal st
      then t\<lparr>tstate := st, message := m, result := r, awake := w\<rparr> else t)"

text \<open>
  The settlement seen by \<open>Minion._polling\<close>: the promise of \<open>start()\<close> resolves
  with \<open>{state, message, result, awakeTime}\<close> once the task is terminal.
\<close>

definition task_settlement :: "('r, time) task \<Rightarrow> task_outcome option" where
  "task_settlement t = (if terminal (tstate t) then Some (Resolved (awake t)) else None)"

text \<open>The step an action names, if any (\<open>tick(step)\<close> and \<open>nextStep(step)\<close>).\<close>

definition action_target :: "('r, 'w) action \<Rightarrow> string option" where
  "action_target a = (case a of Tick s \<Rightarrow> Some s | NextStep s \<Rightarrow> Some s | Complete _ _ _ _ \<Rightarrow> None)"

text \<open>The task states reachable from a constructed task \<open>t0\<close>: start it, then act.\<close>

inductive task_reach :: "('r, 'w) task \<Rightarrow> ('r, 'w) task \<Rightarrow> bool" for t0 where
  started: "task_reach t0 (task_start t0)"
| acted: "task_reach t0 t \<Longrightarrow> task_reach t0 (apply_action t a)"

section \<open>Lemmas\<close>

lemma apply_action_terminal:
  "terminal (tstate t) \<Longrightarrow> apply_action t a = t"
  by (cases a) (auto simp: terminal_def)

lemma apply_action_names [simp]:
  "step_names (apply_action t a) = step_names t"
  by (cases a) auto

lemma apply_action_current:
  "current_step t \<in> set (step_names t) \<Longrightarrow>
   current_step (apply_action t a) \<in> set (step_names (apply_action t a))"
  by (cases a) auto

lemma task_reach_wellformed:
  "task_reach t0 t \<Longrightarrow> tstate t0 = Pending \<Longrightarrow> current_step t0 \<in> set (step_names t0) \<Longrightarrow>
   step_names t = step_names t0 \<and> current_step t \<in> set (step_names t0) \<and> tstate t \<noteq> Pending"
proof (induction rule: task_reach.induct)
  case started
  then show ?case by (simp add: task_start_def)
next
  case (acted t a)
  then show ?case
    using apply_action_current [of t a]
    by (cases a) (auto simp: terminal_def)
qed

lemma terminal_absorbing:
  "terminal (tstate t) \<Longrightarrow> fold (\<lambda>a t. apply_action t a) as t = t"
  by (induction as) (simp_all add: apply_action_terminal)

lemma fold_next_step:
  "tstate t = Running \<Longrightarrow> s \<in> set (step_names t) \<Longrightarrow> 0 < n \<Longrightarrow>
   fold (\<lambda>a t. apply_action t a) (replicate n (NextStep s)) t = t\<lparr>current_step := s\<rparr>"
proof (induction n arbitrary: t)
  case (Suc n)
  then show ?case by (cases n) simp_all
qed simp

lemma leave_running_by_complete:
  "tstate t = Running \<Longrightarrow> tstate (apply_action t a) \<noteq> Running \<Longrightarrow>
   \<exists>st m r w. a = Complete st m r w \<and> terminal st \<and> tstate (apply_action t a) = st"
  by (cases a) (auto split: if_splits)

end
