(* ===== verification/MiningTask.thy ===== *)
theory MiningTask
  imports Task DataStore Utils
begin

text \<open>
  The mining task of \<open>src/src/tasks/Mining.ts\<close>: its stage detection from the
  page (\<open>getCurrentStage\<close>), the cooldown parser (\<open>getCooldown\<close>), the first
  step (\<open>stepPrepare\<close>), the static \<open>initial\<close> that resets the counter in the data
  store, and \<open>prepare\<close>. The page is observed through \<open>page_probe\<close>: which of the
  three selectors matched; \<open>None\<close> when the page query threw. JavaScript numbers
  that may be NaN are \<open>int option\<close> (\<open>None\<close> is NaN).
\<close>

section \<open>The task and its steps\<close>

text \<open>
  The constructor registers the steps \<open>prepare\<close> (initial), \<open>mine\<close>,
  \<open>claim\<close> and \<open>comfirm\<close> (the code's spelling of \<open>STEP_CONFIRM\<close>).
\<close>

definition mining_new :: "('r, 'w) task" where
  "mining_new =
     register_step ''comfirm'' False (register_step ''claim'' False
       (register_step ''mine'' False (register_step ''prepare'' True new_task)))"

section \<open>Stages and the page\<close>

datatype mining_stage = StageNone | StageMine | StageClaim | StageCooldown | StageComplete

record page_probe =
  btn_mine :: bool
  btn_claim :: bool
  txt_cooldown :: bool

definition get_current_stage :: "page_probe option \<Rightarrow> mining_stage" where
  "get_current_stage probe =
     (case probe of
        None \<Rightarrow> StageNone
      | Some p \<Rightarrow>
          (if btn_mine p then StageMine
           else if btn_claim p then StageClaim
           else if txt_cooldown p then StageCooldown
           else StageNone))"

section \<open>parseInt and split\<close>

definition hex_value :: "char \<Rightarrow> nat option" where
  "hex_value c =
     (let n = of_char c :: nat in
      if 48 \<le> n \<and> n \<le> 57 then Some (n - 48)
      else if 97 \<le> n \<and> n \<le> 102 then Some (n - 87)
      else if 65 \<le> n \<and> n \<le> 70 then Some (n - 55)
      else None)"

definition digits_value :: "nat \<Rightarrow> char list \<Rightarrow> nat" where
  "digits_value base ds = foldl (\<lambda>acc c. acc * base + the (hex_value c)) 0 ds"

text \<open>
  \<open>parseInt(s)\<close> without a radix: leading whitespace is skipped, one sign is
  read, a \<open>0x\<close>/\<open>0X\<close> prefix selects base 16, then the longest prefix of
  digits is read; no digit gives NaN.
\<close>

definition parse_int :: "string \<Rightarrow> int option" where
  "parse_int s =
     (let s1 = dropWhile js_whitespace s;
          (sgn, s2) = (case s1 of
                         c # r \<Rightarrow> (if c = CHR ''-'' then (-1, r)
                                  else if c = CHR ''+'' then (1, r) else (1::int, s1))
                       | [] \<Rightarrow> (1, []));
          (base, s3) = (case s2 of
                          c0 # x # r \<Rightarrow>
                            (if c0 = CHR ''0'' \<and> (x = CHR ''x'' \<or> x = CHR ''X'') then (16, r)
                             else (10, s2))
                        | _ \<Rightarrow> (10::nat, s2));
          ds = takeWhile (\<lambda>c. case hex_value c of None \<Rightarrow> False | Some v \<Rightarrow> v < base) s3
      in if ds = [] then None else Some (sgn * int (digits_value base ds)))"

fun split_on :: "char \<Rightarrow> string \<Rightarrow> string list" where
  "split_on c [] = [[]]"
| "split_on c (x # xs) =
     (if x = c then [] # split_on c xs
      else (let r = split_on c xs in (x # hd r) # tl r))"

section \<open>getCooldown\<close>

text \<open>
  \<open>txt.split(':').map((item, idx) => multiplier[idx] * parseInt(item))
   .reduce((a, b) => a + b) * 1000\<close> with \<open>multiplier = [3600, 60, 1]\<close>;
  \<open>multiplier[idx]\<close> is undefined beyond index 2, and any NaN spreads.
\<close>

definition multiplier :: "nat \<Rightarrow> int option" where
  "multiplier idx = (if idx < 3 then Some ([3600, 60, 1] ! idx) else None)"

definition js_times :: "int option \<Rightarrow> int option \<Rightarrow> int option" where
  "js_times a b = (case (a, b) of (Some x, Some y) \<Rightarrow> Some (x * y) | _ \<Rightarrow> None)"

definition js_plus :: "int option \<Rightarrow> int option \<Rightarrow> int option" where
  "js_plus a b = (case (a, b) of (Some x, Some y) \<Rightarrow> Some (x + y) | _ \<Rightarrow> None)"

definition get_cooldown :: "string \<Rightarrow> int option" where
  "get_cooldown txt =
     (let items = split_on CHR '':'' txt;
          terms = map (\<lambda>(idx, item). js_times (multiplier idx) (parse_int item))
                    (zip [0..<length items] items)
      in js_times (foldl js_plus (hd terms) (tl terms)) (Some 1000))"

section \<open>stepPrepare, prepare and initial\<close>

text \<open>
  \<open>stepPrepare\<close>: Mine and Claim move to their steps; Cooldown reads the
  cooldown text (\<open>None\<close>: the element is gone and \<open>$eval\<close> throws) and completes
  Canceled with \<open>getAwakeTime(cooldown)\<close>; an undetermined stage runs
  \<open>stepPrepare\<close> again after 3 seconds. It first reads the mining data
  (\<open>getData(DATA_KEY_MINING)\<close>, for its log line), which may throw. The wake
  time is a JavaScript number; with an integral cooldown it is an integer
  (\<open>get_awake_time_default_int\<close>), so reading it as a \<open>time\<close> through the floor
  loses nothing.
\<close>

datatype 'r prepare_outcome =
    PrepareAction "('r, time) action"
  | PrepareRetry nat
  | PrepareThrows error

definition step_prepare ::
  "store \<Rightarrow> string \<Rightarrow> page_probe option \<Rightarrow> string option \<Rightarrow> time \<Rightarrow> rat \<Rightarrow> 'r prepare_outcome" where
  "step_prepare d mining_key probe cd_text now r =
     (case get_data d mining_key of
        Inl e \<Rightarrow> PrepareThrows e
      | Inr _ \<Rightarrow>
          (case get_current_stage probe of
             StageMine \<Rightarrow> PrepareAction (NextStep ''mine'')
           | StageClaim \<Rightarrow> PrepareAction (NextStep ''claim'')
           | StageCooldown \<Rightarrow>
               (case cd_text of
                  None \<Rightarrow> PrepareThrows TypeError
                | Some txt \<Rightarrow>
                    PrepareAction (Complete Canceled ''Cooldown'' None
                      (map_option (\<lambda>cd. \<lfloor>get_awake_time now (of_int cd) 180000 r\<rfloor>)
                         (get_cooldown txt))))
           | _ \<Rightarrow> PrepareRetry 3000))"

text \<open>
  \<open>Mining.initial(provider)\<close>: read the mining data, set \<open>counter\<close> to 0 and
  write it back. The assignment \<open>data.counter = 0\<close> runs in a class body,
  that is in strict mode: on an object it sets or adds the property; on an
  array it adds a property that \<open>JSON.stringify\<close> does not write, so the array
  is stored unchanged; on a primitive (a truthy number, string or boolean
  survives the \<open>|| {}\<close> default) it throws a TypeError.
\<close>

definition js_set_prop :: "string \<Rightarrow> jsval \<Rightarrow> jsval \<Rightarrow> error + jsval" where
  "js_set_prop k v obj =
     (case obj of
        JObj kvs \<Rightarrow> Inr (if k \<in> set (map fst kvs)
                     then JObj (map (\<lambda>(k', v'). if k' = k then (k', v) else (k', v')) kvs)
                     else JObj (kvs @ [(k, v)]))
      | JArr vs \<Rightarrow> Inr (JArr vs)
      | _ \<Rightarrow> Inl TypeError)"

definition mining_initial :: "store \<Rightarrow> string \<Rightarrow> error + store" where
  "mining_initial d mining_key =
     (case get_data d mining_key of
        Inl e \<Rightarrow> Inl e
      | Inr data \<Rightarrow>
          (case js_set_prop ''counter'' (JNum 0) data of
             Inl e \<Rightarrow> Inl e
           | Inr data' \<Rightarrow> set_data d mining_key data'))"

text \<open>
  \<open>prepare()\<close>: reads the account information and returns its \<open>logined\<close>
  property (\<open>undefined\<close> when absent); the boolean result is what the
  scheduler would need to check.
\<close>

definition js_get_prop :: "string \<Rightarrow> jsval \<Rightarrow> jsval" where
  "js_get_prop k obj =
     (case obj of JObj kvs \<Rightarrow> (case map_of kvs k of None \<Rightarrow> JUndefined | Some v \<Rightarrow> v)
      | _ \<Rightarrow> JUndefined)"

definition mining_prepare :: "store \<Rightarrow> string \<Rightarrow> error + jsval" where
  "mining_prepare d account_key =
     (case get_data d account_key of
        Inl e \<Rightarrow> Inl e
      | Inr data \<Rightarrow> Inr (js_get_prop ''logined'' data))"

section \<open>Specification-level notation\<close>

text \<open>A two-digit, zero-padded rendering of a number below 100, as in \<open>hh:mm:ss\<close>.\<close>

definition two_digits :: "nat \<Rightarrow> string" where
  "two_digits n = [char_of (48 + n div 10), char_of (48 + n mod 10)]"

section \<open>Lemmas\<close>

lemma digit_char_facts:
  assumes "d < 10"
  shows "hex_value (char_of (48 + d)) = Some d" "\<not> js_whitespace (char_of (48 + d))"
    "char_of (48 + d) \<noteq> CHR ''-''" "char_of (48 + d) \<noteq> CHR ''+''"
    "char_of (48 + d) \<noteq> CHR '':''" "char_of (48 + d) \<noteq> CHR ''x''" "char_of (48 + d) \<noteq> CHR ''X''"
proof -
  have o: "of_char (char_of (48 + d)) = 48 + d" using assms by simp
  show "hex_value (char_of (48 + d)) = Some d" using o assms by (simp add: hex_value_def)
  show "\<not> js_whitespace (char_of (48 + d))" using o assms by (simp add: js_whitespace_def)
  show "char_of (48 + d) \<noteq> CHR ''-''" "char_of (48 + d) \<noteq> CHR ''+''"
    "char_of (48 + d) \<noteq> CHR '':''" "char_of (48 + d) \<noteq> CHR ''x''" "char_of (48 + d) \<noteq> CHR ''X''"
    using o assms by (auto dest: arg_cong [where f = "of_char :: char \<Rightarrow> nat"])
qed

lemma parse_int_two_digits:
  "n < 100 \<Longrightarrow> parse_int (two_digits n) = Some (int n)"
proof -
  assume n: "n < 100"
  have a: "n div 10 < 10" and b: "n mod 10 < 10" using n by auto
  note fa = digit_char_facts [OF a] and fb = digit_char_facts [OF b]
  have "digits_value 10 (two_digits n) = n div 10 * 10 + n mod 10"
    using fa(1) fb(1) by (simp add: digits_value_def two_digits_def)
  also have "\<dots> = n" by simp
  finally have dv: "digits_value 10 (two_digits n) = n" .
  show ?thesis
    using fa fb dv a b by (simp add: parse_int_def two_digits_def Let_def)
qed

lemma split_on_no_sep:
  "c \<notin> set xs \<Longrightarrow> split_on c (xs @ c # ys) = xs # split_on c ys"
  by (induction xs) (auto simp: Let_def)

lemma split_on_no_sep_end:
  "c \<notin> set xs \<Longrightarrow> split_on c xs = [xs]"
  by (induction xs) (auto simp: Let_def)

lemma colon_not_in_two_digits:
  assumes "n < 100"
  shows "CHR '':'' \<notin> set (two_digits n)"
proof -
  have a: "n div 10 < 10" and b: "n mod 10 < 10" using assms by auto
  show ?thesis
    using digit_char_facts(5) [OF a] digit_char_facts(5) [OF b]
    by (auto simp: two_digits_def)
qed

lemma js_plus_None [simp]:
  "js_plus a None = None" "js_plus None b = None"
  by (simp_all add: js_plus_def split: option.splits)

lemma foldl_js_plus_None:
  "foldl js_plus None xs = None"
  by (induction xs) (simp_all add: js_plus_def)

lemma foldl_js_plus_None_mem:
  "None \<in> set xs \<Longrightarrow> foldl js_plus a xs = None"
proof (induction xs arbitrary: a)
  case (Cons x xs)
  show ?case
  proof (cases "x = None")
    case True
    then show ?thesis by (simp add: foldl_js_plus_None)
  next
    case False
    with Cons show ?thesis by simp
  qed
qed simp

lemma split_on_nonempty [simp]: "split_on c xs \<noteq> []"
  by (induction xs) (auto simp: Let_def)

lemma get_data_constructor_store:
  assumes "minion_data_init info_key a u p = Inr d"
  shows "get_data d k = (if uniform_key k = uniform_key info_key then Inr (account_info a u p)
                          else Inl SyntaxError)"
proof -
  have d: "d = Map.empty(uniform_key info_key \<mapsto> json_value_copy (account_info a u p))"
    using set_data_stores assms by (simp add: minion_data_init_def)
  have "json_value_copy (account_info a u p) = account_info a u p"
    using json_value_account_info [of a u p] by (simp add: json_value_copy_id)
  with d json_value_account_info [of a u p] show ?thesis
    by (simp add: get_data_def json_copy_def Let_def json_value_not_undefined)
qed

lemma step_prepare_action:
  "step_prepare d k probe cdt now r = PrepareAction a \<Longrightarrow>
   (get_current_stage probe = StageMine \<and> a = NextStep ''mine'') \<or>
   (get_current_stage probe = StageClaim \<and> a = NextStep ''claim'') \<or>
   (get_current_stage probe = StageCooldown \<and> (\<exists>w. a = Complete Canceled ''Cooldown'' None w))"
  by (auto simp: step_prepare_def split: sum.splits mining_stage.splits option.splits)

lemma mining_new_fields:
  "step_names mining_new = [''prepare'', ''mine'', ''claim'', ''comfirm'']"
  "current_step mining_new = ''prepare''"
  "tstate mining_new = Pending"
  by (simp_all add: mining_new_def register_step_def new_task_def)

section \<open>Properties of the mining task\<close>

text \<open>
  C23. A cooldown shown as \<open>hh:mm:ss\<close> (two digits each) is read as
  \<open>(3600 h + 60 m + s) * 1000\<close> milliseconds.
\<close>

theorem get_cooldown_hms:
  assumes "h < 100" "m < 100" "s < 100"
  shows "get_cooldown (two_digits h @ CHR '':'' # two_digits m @ CHR '':'' # two_digits s) =
         Some ((3600 * int h + 60 * int m + int s) * 1000)"
proof -
  have sp: "split_on CHR '':'' (two_digits h @ CHR '':'' # two_digits m @ CHR '':'' # two_digits s) =
            [two_digits h, two_digits m, two_digits s]"
    using assms colon_not_in_two_digits
    by (simp add: split_on_no_sep split_on_no_sep_end)
  show ?thesis
    using assms
    by (simp add: get_cooldown_def sp parse_int_two_digits multiplier_def js_times_def js_plus_def
        upt_conv_Cons del: upt_Suc)
qed

lemma get_cooldown_hms_witness:
  "get_cooldown ''00:04:35'' = Some 275000"
proof -
  have "two_digits 0 @ CHR '':'' # two_digits 4 @ CHR '':'' # two_digits 35 = ''00:04:35''"
    by code_simp
  with get_cooldown_hms [of 0 4 35] show ?thesis by simp
qed

text \<open>
  C24. A cooldown shown with two fields is read as hours and minutes: the text
  \<open>mm:ss\<close> gives \<open>(3600 mm + 60 ss) * 1000\<close>, sixty times the intended delay
  if the page shows minutes and seconds.
\<close>

theorem get_cooldown_two_fields:
  assumes "m < 100" "s < 100"
  shows "get_cooldown (two_digits m @ CHR '':'' # two_digits s) = Some ((3600 * int m + 60 * int s) * 1000)"
proof -
  have sp: "split_on CHR '':'' (two_digits m @ CHR '':'' # two_digits s) = [two_digits m, two_digits s]"
    using assms colon_not_in_two_digits
    by (simp add: split_on_no_sep split_on_no_sep_end)
  show ?thesis
    using assms
    by (simp add: get_cooldown_def sp parse_int_two_digits multiplier_def js_times_def js_plus_def
        upt_conv_Cons del: upt_Suc)
qed

lemma get_cooldown_two_fields_witness:
  "get_cooldown ''04:35'' = Some 16500000"
proof -
  have "two_digits 4 @ CHR '':'' # two_digits 35 = ''04:35''"
    by code_simp
  with get_cooldown_two_fields [of 4 35] show ?thesis by simp
qed

text \<open>
  C25. A cooldown text with more than three fields gives NaN
  (\<open>multiplier[3]\<close> is undefined).
\<close>

theorem get_cooldown_too_many_fields:
  "3 < length (split_on CHR '':'' txt) \<Longrightarrow> get_cooldown txt = None"
proof -
  assume len: "3 < length (split_on CHR '':'' txt)"
  let ?items = "split_on CHR '':'' txt"
  let ?terms = "map (\<lambda>(idx, item). js_times (multiplier idx) (parse_int item)) (zip [0..<length ?items] ?items)"
  have t3: "?terms ! 3 = None"
    using len by (simp add: multiplier_def js_times_def)
  have "None \<in> set (tl ?terms)"
  proof -
    have "tl ?terms ! 2 = None" using t3 len by (simp add: nth_tl)
    moreover have "2 < length (tl ?terms)" using len by simp
    ultimately show ?thesis by (metis nth_mem)
  qed
  then show ?thesis
    by (simp add: get_cooldown_def Let_def foldl_js_plus_None_mem js_times_def)
qed
lemma get_cooldown_too_many_fields_witness:
  "get_cooldown ''1:02:03:04'' = None"
  by (rule get_cooldown_too_many_fields) simp

text \<open>
  C26. When the page shows the cooldown, \<open>stepPrepare\<close> completes the run
  Canceled with a wake time between 45 s and 180 s past \<open>now + cooldown\<close>.
\<close>

theorem step_prepare_cooldown_awake:
  assumes "get_data d mining_key = Inr md" "\<not> btn_mine p" "\<not> btn_claim p" "txt_cooldown p"
    "get_cooldown txt = Some cd" "0 \<le> r" "r < 1"
  shows "\<exists>w. step_prepare d mining_key (Some p) (Some txt) now r =
              PrepareAction (Complete Canceled ''Cooldown'' None (Some w)) \<and>
            now + cd + 45000 \<le> w \<and> w < now + cd + 180000"
  using assms get_awake_time_default_floor [OF assms(6,7), of now cd]
  by (simp add: step_prepare_def get_current_stage_def)

lemma step_prepare_cooldown_awake_witness:
  "\<exists>w. step_prepare (Map.empty(''mining'' \<mapsto> JObj [])) ''mining'' (Some (\<lparr>btn_mine = False, btn_claim = False, txt_cooldown = True\<rparr>))
         (Some ''00:10:00'') 1000 (1/2) = PrepareAction (Complete Canceled ''Cooldown'' None (Some w)) \<and>
       1000 + 600000 + 45000 \<le> w \<and> w < 1000 + 600000 + 180000"
proof -
  have cd: "get_cooldown ''00:10:00'' = Some 600000" by code_simp
  have gd: "get_data (Map.empty(''mining'' \<mapsto> JObj [])) ''mining'' = Inr (JObj [])"
    by (simp add: get_data_def json_copy_def is_word_char_def)
  show ?thesis
    by (rule step_prepare_cooldown_awake [OF gd _ _ _ cd]) simp_all
qed

text \<open>
  C27. On the store the constructor leaves (account information only),
  \<open>Mining.initial\<close> and \<open>stepPrepare\<close> both throw when the mining key
  differs from the account key: \<open>initial\<close> reads the mining data before it
  ever writes it.
\<close>

theorem mining_initial_after_constructor:
  "minion_data_init info_key a u p = Inr d \<Longrightarrow> uniform_key mining_key \<noteq> uniform_key info_key \<Longrightarrow>
   mining_initial d mining_key = Inl SyntaxError \<and>
   step_prepare d mining_key probe txt now r = PrepareThrows SyntaxError"
  by (simp add: mining_initial_def step_prepare_def get_data_constructor_store)

lemma mining_initial_after_constructor_witness:
  "mining_initial (Map.empty(''info'' \<mapsto> account_info ''acc'' None None)) ''mining'' = Inl SyntaxError"
proof -
  have k: "uniform_key ''info'' = ''info''" by code_simp
  have init: "minion_data_init ''info'' ''acc'' None None = Inr (Map.empty(''info'' \<mapsto> account_info ''acc'' None None))"
    using json_value_account_info [of "''acc''" None None] k
    by (simp add: minion_data_init_def set_data_def json_copy_def json_value_not_undefined
        json_value_copy_id)
  have "uniform_key ''mining'' \<noteq> uniform_key ''info''" by code_simp
  from mining_initial_after_constructor [OF init this] show ?thesis by (rule conjunct1)
qed

text \<open>
  C28. On the store the constructor leaves, \<open>prepare()\<close> never returns
  \<open>true\<close>: the account information has no \<open>logined\<close> property, so it yields
  \<open>undefined\<close>, or throws when the keys differ.
\<close>

theorem mining_prepare_after_constructor:
  "minion_data_init info_key a u p = Inr d \<Longrightarrow>
   mining_prepare d account_key \<in> {Inr JUndefined, Inl SyntaxError}"
  by (simp add: mining_prepare_def get_data_constructor_store js_get_prop_def account_info_def)
lemma mining_prepare_after_constructor_witness:
  "mining_prepare (Map.empty(''info'' \<mapsto> account_info ''acc'' None None)) ''info'' \<in> {Inr JUndefined, Inl SyntaxError}"
proof -
  have k: "uniform_key ''info'' = ''info''" by code_simp
  have init: "minion_data_init ''info'' ''acc'' None None = Inr (Map.empty(''info'' \<mapsto> account_info ''acc'' None None))"
    using json_value_account_info [of "''acc''" None None] k
    by (simp add: minion_data_init_def set_data_def json_copy_def json_value_not_undefined
        json_value_copy_id)
  from mining_prepare_after_constructor [OF init] show ?thesis .
qed

end
