(* ===== verification/PageProvider.thy ===== *)
theory PageProvider
  imports Prelude "HOL-Library.Sublist"
begin

text \<open>
  The page provider, \<open>Minion.getPage(query, urlOrWait)\<close> of
  \<open>src/src/Minion.ts\<close>. A browser page is observed through its title and its
  \<open>document.location.href\<close>; either read may throw while the page navigates
  (\<open>None\<close>). One attempt of \<open>searchPage\<close> looks at a snapshot of the open
  pages: it evaluates the query on every page, remembers the first match and
  the blank pages, and retries after 500 ms if any read threw. The retry loop
  runs over the sequence of snapshots the browser shows at successive attempts:
  the list of snapshots is the fuel, and \<open>None\<close> means still searching when
  it runs out. Regular expressions are abstract predicates on strings.
\<close>

section \<open>Pages, queries and arguments\<close>

record page =
  title :: "string option"
  url :: "string option"

datatype query =
    QStr string
  | QRegex "string \<Rightarrow> bool"
  | QFunc "page \<Rightarrow> bool option"

datatype url_or_wait = UrlArg string | WaitArg | NoArg

datatype search_result = Found nat | Blank nat string | NewPage string | Retry

section \<open>String.prototype.indexOf\<close>

fun starts_with :: "string \<Rightarrow> string \<Rightarrow> bool" where
  "starts_with [] ys = True"
| "starts_with (x # xs) [] = False"
| "starts_with (x # xs) (y # ys) = (x = y \<and> starts_with xs ys)"

fun index_of_from :: "string \<Rightarrow> string \<Rightarrow> nat \<Rightarrow> int" where
  "index_of_from q [] i = (if q = [] then int i else -1)"
| "index_of_from q (c # cs) i =
     (if starts_with q (c # cs) then int i else index_of_from q cs (Suc i))"

definition index_of :: "string \<Rightarrow> string \<Rightarrow> int" where
  "index_of s q = index_of_from q s 0"

section \<open>One attempt of searchPage\<close>

text \<open>\<open>urlOrWait = typeof urlOrWait === 'string' ? urlOrWait : ''\<close>\<close>

definition url_arg :: "url_or_wait \<Rightarrow> string" where
  "url_arg w = (case w of UrlArg s \<Rightarrow> s | _ \<Rightarrow> [])"

fun query_match :: "query \<Rightarrow> page \<Rightarrow> bool option" where
  "query_match (QFunc f) p = f p"
| "query_match (QRegex r) p =
     (case (title p, url p) of (Some t, Some u) \<Rightarrow> Some (r t \<or> r u) | _ \<Rightarrow> None)"
| "query_match (QStr q) p =
     (case (title p, url p) of
        (Some t, Some u) \<Rightarrow> Some (index_of t q > -1 \<or> index_of u q > -1)
      | _ \<Rightarrow> None)"

text \<open>
  The loop over \<open>pages\<close>: the first matching index and the blank pages
  (\<open>about:blank\<close> with an empty title), or \<open>None\<close> when a read threw.
\<close>

fun scan_pages :: "query \<Rightarrow> nat \<Rightarrow> page list \<Rightarrow> (nat option \<times> nat list) option" where
  "scan_pages q i [] = Some (None, [])"
| "scan_pages q i (p # ps) =
     (case query_match q p of
        None \<Rightarrow> None
      | Some rst \<Rightarrow>
          (case (url p, title p) of
             (Some u, Some t) \<Rightarrow>
               (case scan_pages q (Suc i) ps of
                  None \<Rightarrow> None
                | Some (f, bl) \<Rightarrow>
                    Some (if rst then Some i else f,
                          if u = ''about:blank'' \<and> t = [] then i # bl else bl))
           | _ \<Rightarrow> None))"

definition search_page :: "query \<Rightarrow> url_or_wait \<Rightarrow> page list \<Rightarrow> search_result" where
  "search_page q w pages =
     (case scan_pages q 0 pages of
        None \<Rightarrow> Retry
      | Some (Some i, _) \<Rightarrow> Found i
      | Some (None, bl) \<Rightarrow>
          (if w = WaitArg then Retry
           else case bl of b # _ \<Rightarrow> Blank b (url_arg w) | [] \<Rightarrow> NewPage (url_arg w)))"

fun get_page_run :: "query \<Rightarrow> url_or_wait \<Rightarrow> page list list \<Rightarrow> (page list \<times> search_result) option" where
  "get_page_run q w [] = None"
| "get_page_run q w (ps # pss) =
     (case search_page q w ps of Retry \<Rightarrow> get_page_run q w pss | r \<Rightarrow> Some (ps, r))"

text \<open>
  The same loop without a bound: \<open>snap n\<close> is what \<open>browser.pages()\<close> shows at
  the \<open>n\<close>-th attempt, and \<open>None\<close> is a search that never resolves. It
  returns the attempt that resolved and its outcome.
\<close>

partial_function (option) get_page_loop ::
  "(nat \<Rightarrow> page list) \<Rightarrow> query \<Rightarrow> url_or_wait \<Rightarrow> nat \<Rightarrow> (nat \<times> search_result) option" where
  "get_page_loop snap q w n =
     (case search_page q w (snap n) of Retry \<Rightarrow> get_page_loop snap q w (Suc n) | r \<Rightarrow> Some (n, r))"

text \<open>A page is readable when neither its title nor its location throws.\<close>

definition readable :: "query \<Rightarrow> page \<Rightarrow> bool" where
  "readable q p \<longleftrightarrow> title p \<noteq> None \<and> url p \<noteq> None \<and> query_match q p \<noteq> None"

definition is_blank :: "page \<Rightarrow> bool" where
  "is_blank p \<longleftrightarrow> url p = Some ''about:blank'' \<and> title p = Some []"

text \<open>
  Reference reading of the scan: if every page is readable, the first index
  whose query holds and the indices of the blank pages, in order.
\<close>

definition scan_ref :: "query \<Rightarrow> page list \<Rightarrow> (nat option \<times> nat list) option" where
  "scan_ref q ps =
     (if list_all (readable q) ps
      then Some (find (\<lambda>k. query_match q (ps ! k) = Some True) [0..<length ps],
                 filter (\<lambda>k. is_blank (ps ! k)) [0..<length ps])
      else None)"

section \<open>Lemmas\<close>

lemma scan_pages_shift:
  "scan_pages q (Suc i) ps =
   map_option (\<lambda>(f, bl). (map_option Suc f, map Suc bl)) (scan_pages q i ps)"
  by (induction ps arbitrary: i) (auto split: option.splits)

lemma upt_length_Cons:
  "[0..<length (x # xs)] = 0 # map Suc [0..<length xs]"
  by (simp add: map_Suc_upt upt_conv_Cons del: upt_Suc)

lemma find_map_option:
  "find P (map f xs) = map_option f (find (P \<circ> f) xs)"
  by (induction xs) auto

lemma scan_pages_eq_ref:
  "scan_pages q 0 ps = scan_ref q ps"
proof (induction ps)
  case Nil
  then show ?case by (simp add: scan_ref_def)
next
  case (Cons p ps)
  show ?case
    unfolding scan_pages.simps scan_pages_shift Cons scan_ref_def upt_length_Cons
    by (auto simp: readable_def is_blank_def [of p] find_map_option filter_map comp_def
             split: option.splits bool.splits)
qed

lemma readable_matchE:
  "readable q p \<Longrightarrow> query_match q p \<noteq> Some True \<Longrightarrow> query_match q p = Some False"
  by (cases "query_match q p") (auto simp: readable_def)

lemma find_upt_Some:
  "find P [0..<n] = Some i \<longleftrightarrow> i < n \<and> P i \<and> (\<forall>j<i. \<not> P j)"
  by (auto simp: find_Some_iff)

lemma find_upt_None:
  "find P [0..<n] = None \<longleftrightarrow> (\<forall>j<n. \<not> P j)"
  by (auto simp: find_None_iff)

lemma filter_Nil_find:
  "filter P xs = [] \<longleftrightarrow> find P xs = None"
  by (induction xs) auto

lemma filter_Cons_find:
  "filter P xs = x # ys \<Longrightarrow> find P xs = Some x"
  by (induction xs) (auto split: if_splits)

lemmas search_page_unfold = search_page_def scan_pages_eq_ref scan_ref_def

lemma search_page_Found:
  "search_page q w ps = Found i \<Longrightarrow>
   list_all (readable q) ps \<and> i < length ps \<and> query_match q (ps ! i) = Some True \<and>
   (\<forall>j<i. query_match q (ps ! j) \<noteq> Some True)"
  by (auto simp: search_page_unfold find_upt_Some
           split: if_splits option.splits list.splits)

lemma search_page_Retry_iff:
  "search_page q w ps = Retry \<longleftrightarrow>
   \<not> list_all (readable q) ps \<or> (w = WaitArg \<and> (\<forall>p\<in>set ps. query_match q p \<noteq> Some True))"
  by (auto simp: search_page_unfold find_upt_None find_upt_Some in_set_conv_nth
           split: option.splits list.splits; meson nth_mem)

lemma search_page_WaitArg:
  "search_page q WaitArg ps \<noteq> Retry \<Longrightarrow> \<exists>i. search_page q WaitArg ps = Found i"
  by (auto simp: search_page_unfold split: if_splits option.splits list.splits)

lemma get_page_run_Some:
  "get_page_run q w pss = Some (ps, r) \<Longrightarrow> ps \<in> set pss \<and> search_page q w ps = r \<and> r \<noteq> Retry"
  by (induction pss) (auto split: search_result.splits)

lemma get_page_run_append:
  "get_page_run q w (pre @ pss) =
   (case get_page_run q w pre of None \<Rightarrow> get_page_run q w pss | r \<Rightarrow> r)"
  by (induction pre) (auto split: search_result.splits option.splits)

lemma get_page_loop_Some:
  assumes ret: "get_page_loop snap q w n = Some (m, r)"
  shows "n \<le> m \<and> search_page q w (snap m) = r \<and> r \<noteq> Retry \<and>
         (\<forall>j. n \<le> j \<and> j < m \<longrightarrow> search_page q w (snap j) = Retry)"
proof -
  let ?P = "\<lambda>snap q w n res. case res of (m, r) \<Rightarrow>
            n \<le> m \<and> search_page q w (snap m) = r \<and> r \<noteq> Retry \<and>
            (\<forall>j. n \<le> j \<and> j < m \<longrightarrow> search_page q w (snap j) = Retry)"
  have "?P snap q w n (m, r)"
  proof (rule get_page_loop.raw_induct [where P = ?P, OF _ ret])
    fix f snap q w n res
    assume IH: "\<And>snap q w n res. f snap q w n = Some res \<Longrightarrow> ?P snap q w n res"
      and eq: "(case search_page q w (snap n) of Retry \<Rightarrow> f snap q w (Suc n) | r \<Rightarrow> Some (n, r)) = Some res"
    show "?P snap q w n res"
    proof (cases "search_page q w (snap n) = Retry")
      case True
      with eq have "f snap q w (Suc n) = Some res" by simp
      obtain a b where res: "res = (a, b)" by (cases res)
      from IH [OF \<open>f snap q w (Suc n) = Some res\<close>] res
      have a: "Suc n \<le> a" and rest: "search_page q w (snap a) = b" "b \<noteq> Retry"
        and pre: "\<forall>j. Suc n \<le> j \<and> j < a \<longrightarrow> search_page q w (snap j) = Retry"
        by auto
      have "\<forall>j. n \<le> j \<and> j < a \<longrightarrow> search_page q w (snap j) = Retry"
      proof (intro allI impI)
        fix j assume "n \<le> j \<and> j < a"
        then consider "j = n" | "Suc n \<le> j \<and> j < a" by linarith
        then show "search_page q w (snap j) = Retry"
          using True pre by cases auto
      qed
      with a rest res show ?thesis by simp
    next
      case False
      with eq have "res = (n, search_page q w (snap n))"
        by (cases "search_page q w (snap n)") auto
      with False show ?thesis by auto
    qed
  qed
  then show ?thesis by simp
qed

lemma get_page_loop_returns:
  "n \<le> k \<Longrightarrow> search_page q w (snap k) \<noteq> Retry \<Longrightarrow>
   \<exists>m r. get_page_loop snap q w n = Some (m, r) \<and> m \<le> k"
proof (induction "k - n" arbitrary: n)
  case 0
  then have "k = n" by simp
  with 0 show ?case
    by (subst get_page_loop.simps) (auto split: search_result.splits)
next
  case (Suc d)
  show ?case
  proof (cases "search_page q w (snap n) = Retry")
    case True
    have "d = k - Suc n" "Suc n \<le> k" using Suc.hyps(2) Suc.prems(1) by arith+
    from Suc.hyps(1) [OF this(1) this(2) Suc.prems(2)] True show ?thesis
      by (subst get_page_loop.simps) simp
  next
    case False
    then show ?thesis
      using Suc.prems(1) by (subst get_page_loop.simps) (auto split: search_result.splits)
  qed
qed

lemma get_page_run_retry_prefix:
  "\<forall>ps\<in>set xs. search_page q w ps = Retry \<Longrightarrow> get_page_run q w (xs @ ys) = get_page_run q w ys"
  by (induction xs) auto

text \<open>The unbounded loop refines the bounded one: the snapshots up to the resolving attempt are enough fuel.\<close>

lemma get_page_loop_run:
  assumes ret: "get_page_loop snap q w n = Some (m, r)"
  shows "get_page_run q w (map snap [n..<Suc m]) = Some (snap m, r)"
proof -
  note sp = get_page_loop_Some [OF ret]
  have "\<forall>ps\<in>set (map snap [n..<m]). search_page q w ps = Retry"
    using sp by auto
  moreover have "map snap [n..<Suc m] = map snap [n..<m] @ [snap m]"
    using sp by simp
  ultimately show ?thesis
    using sp get_page_run_retry_prefix [of "map snap [n..<m]" q w "[snap m]"]
    by (auto split: search_result.splits)
qed

lemma search_page_no_match:
  "list_all (readable q) ps \<Longrightarrow> \<forall>p\<in>set ps. query_match q p \<noteq> Some True \<Longrightarrow>
   search_page q w ps =
     (if w = WaitArg then Retry
      else case find (\<lambda>k. is_blank (ps ! k)) [0..<length ps] of
             Some b \<Rightarrow> Blank b (url_arg w) | None \<Rightarrow> NewPage (url_arg w))"
proof -
  assume rd: "list_all (readable q) ps" and nm: "\<forall>p\<in>set ps. query_match q p \<noteq> Some True"
  then have "find (\<lambda>k. query_match q (ps ! k) = Some True) [0..<length ps] = None"
    by (simp add: find_upt_None)
  with rd show ?thesis
    unfolding search_page_unfold
    by (auto simp: filter_Nil_find filter_Cons_find split: list.splits option.splits)
qed

text \<open>The empty string query matches every readable page: \<open>getPage('')\<close> returns the first one.\<close>

lemma search_page_empty_query:
  "ps \<noteq> [] \<Longrightarrow> list_all (readable (QStr [])) ps \<Longrightarrow> search_page (QStr []) w ps = Found 0"
proof -
  assume ne: "ps \<noteq> []" and rd: "list_all (readable (QStr [])) ps"
  have "index_of s [] = 0" for s by (cases s) (simp_all add: index_of_def)
  with ne rd have "query_match (QStr []) (ps ! 0) = Some True"
    by (cases ps) (auto simp: readable_def split: option.splits)
  with ne have "find (\<lambda>k. query_match (QStr []) (ps ! k) = Some True) [0..<length ps] = Some 0"
    by (simp only: find_upt_Some) simp
  with rd show ?thesis
    by (simp add: search_page_unfold del: query_match.simps)
qed

section \<open>Properties of getPage\<close>

text \<open>
  C31. With \<open>urlOrWait = true\<close> the search only ever resolves with a page that
  matches the query in the snapshot it inspected: it never reuses a blank page
  and never opens a new one.
\<close>

theorem get_page_wait_only_found:
  "get_page_run q WaitArg pss = Some (ps, r) \<Longrightarrow>
   ps \<in> set pss \<and> (\<exists>i. r = Found i \<and> i < length ps \<and> query_match q (ps ! i) = Some True)"
  using get_page_run_Some [of q WaitArg pss ps r] search_page_WaitArg [of q ps]
        search_page_Found [of q WaitArg ps]
  by fastforce

definition page_blank :: page where
  "page_blank = \<lparr>title = Some [], url = Some ''about:blank''\<rparr>"

definition page_game :: page where
  "page_game = \<lparr>title = Some ''Alien Worlds'', url = Some ''https://play.alienworlds.io''\<rparr>"

definition page_loading :: page where
  "page_loading = \<lparr>title = None, url = Some ''https://play.alienworlds.io''\<rparr>"

lemma index_of_game:
  "index_of ''Alien Worlds'' ''Worlds'' = 6"
  by (simp add: index_of_def)

lemma index_of_blank_worlds:
  "index_of [] ''Worlds'' = -1 \<and> index_of ''about:blank'' ''Worlds'' = -1"
  by (simp add: index_of_def)

lemma get_page_wait_only_found_witness:
  "get_page_run (QStr ''Worlds'') WaitArg [[page_loading], [page_blank], [page_blank, page_game]] =
     Some ([page_blank, page_game], Found 1) \<and>
   [page_blank, page_game] \<in> set [[page_loading], [page_blank], [page_blank, page_game]] \<and>
   (\<exists>i. Found 1 = Found i \<and> i < length [page_blank, page_game] \<and>
        query_match (QStr ''Worlds'') ([page_blank, page_game] ! i) = Some True)"
proof -
  have run: "get_page_run (QStr ''Worlds'') WaitArg [[page_loading], [page_blank], [page_blank, page_game]] =
     Some ([page_blank, page_game], Found 1)"
    by (simp add: search_page_unfold readable_def page_blank_def page_game_def page_loading_def
                  index_of_game index_of_blank_worlds is_blank_def)
  show ?thesis
    using run get_page_wait_only_found [OF run] by simp
qed

text \<open>
  C32. With \<open>urlOrWait = true\<close> the search keeps polling until a snapshot
  shows a matching page: if at some attempt every page is readable and one
  matches, the loop has resolved by that attempt, with a match.
\<close>

theorem get_page_wait_finds_match:
  assumes rd: "list_all (readable q) ps" and m: "\<exists>p\<in>set ps. query_match q p = Some True"
  shows "\<exists>ps' i. get_page_run q WaitArg (pre @ ps # post) = Some (ps', Found i)"
proof -
  have "search_page q WaitArg ps \<noteq> Retry"
    using rd m by (auto simp: search_page_Retry_iff)
  then have "get_page_run q WaitArg (ps # post) \<noteq> None"
    by (auto split: search_result.splits)
  then obtain res where run: "get_page_run q WaitArg (pre @ ps # post) = Some res"
    by (cases "get_page_run q WaitArg pre") (auto simp: get_page_run_append)
  obtain ps' r where res: "res = (ps', r)" by (cases res)
  have "search_page q WaitArg ps' = r \<and> r \<noteq> Retry"
    using get_page_run_Some [of q WaitArg "pre @ ps # post" ps' r] run res by simp
  then show ?thesis
    using search_page_WaitArg [of q ps'] run res by auto
qed

lemma readable_samples:
  "readable (QStr ''Worlds'') page_blank \<and> readable (QStr ''Worlds'') page_game \<and>
   \<not> readable (QStr ''Worlds'') page_loading \<and>
   query_match (QStr ''Worlds'') page_game = Some True \<and>
   query_match (QStr ''Worlds'') page_blank = Some False"
  by (simp add: readable_def page_blank_def page_game_def page_loading_def
                index_of_game index_of_blank_worlds)

lemma get_page_wait_finds_match_witness:
  "\<exists>ps' i. get_page_run (QStr ''Worlds'') WaitArg
             ([[page_loading], [page_blank]] @ [page_blank, page_game] # []) = Some (ps', Found i)"
  using get_page_wait_finds_match [of "QStr ''Worlds''" "[page_blank, page_game]"
                                      "[[page_loading], [page_blank]]" "[]"]
        readable_samples
  by simp

text \<open>
  C33. A resolved search picks the first matching page in \<open>browser.pages()\<close>
  order: every earlier page was read and did not match.
\<close>

theorem search_page_first_match:
  "search_page q w ps = Found i \<Longrightarrow>
   i < length ps \<and> query_match q (ps ! i) = Some True \<and>
   (\<forall>j<i. query_match q (ps ! j) = Some False)"
  using search_page_Found [of q w ps i] readable_matchE [of q]
  by (auto simp: list_all_length)

lemma search_page_first_match_witness:
  "search_page (QStr ''Worlds'') NoArg [page_blank, page_game, page_game] = Found 1 \<and>
   1 < length [page_blank, page_game, page_game] \<and>
   query_match (QStr ''Worlds'') ([page_blank, page_game, page_game] ! 1) = Some True \<and>
   query_match (QStr ''Worlds'') ([page_blank, page_game, page_game] ! 0) = Some False"
proof -
  have s: "search_page (QStr ''Worlds'') NoArg [page_blank, page_game, page_game] = Found 1"
    by (simp add: search_page_unfold readable_def page_blank_def page_game_def
                  index_of_game index_of_blank_worlds is_blank_def)
  show ?thesis
    using s search_page_first_match [OF s] by (simp del: nth_Cons_0)
qed

text \<open>
  C34. Transient failures are retried: if reading any open page throws (its
  title, its location, or the query function rejects), the attempt schedules a
  retry instead of resolving or propagating the error.
\<close>

theorem search_page_transient_retry:
  "p \<in> set ps \<Longrightarrow> \<not> readable q p \<Longrightarrow> search_page q w ps = Retry"
  by (auto simp: search_page_Retry_iff list_all_iff)

lemma search_page_transient_retry_witness:
  "search_page (QStr ''Worlds'') NoArg [page_game, page_loading] = Retry"
  using search_page_transient_retry [of page_loading "[page_game, page_loading]"
                                        "QStr ''Worlds''" NoArg]
        readable_samples
  by simp

text \<open>
  C35. Without \<open>urlOrWait = true\<close>, a readable snapshot with no match resolves at
  once: with the first blank page if there is one, otherwise with a new page,
  navigated to the URL argument (the empty string meaning no navigation).
\<close>

theorem search_page_fallback:
  "w \<noteq> WaitArg \<Longrightarrow> list_all (readable q) ps \<Longrightarrow>
   \<forall>p\<in>set ps. query_match q p \<noteq> Some True \<Longrightarrow>
   (\<exists>b. search_page q w ps = Blank b (url_arg w) \<and> b < length ps \<and> is_blank (ps ! b) \<and>
        (\<forall>j<b. \<not> is_blank (ps ! j))) \<or>
   (search_page q w ps = NewPage (url_arg w) \<and> (\<forall>p\<in>set ps. \<not> is_blank p))"
  by (auto simp: search_page_no_match find_upt_Some find_upt_None in_set_conv_nth
           split: option.splits)

definition page_other :: page where
  "page_other = \<lparr>title = Some ''Wax Wallet'', url = Some ''https://wallet.wax.io''\<rparr>"

lemma search_page_fallback_witness:
  "UrlArg ''https://play.alienworlds.io'' \<noteq> WaitArg \<and>
   search_page (QStr ''Worlds'') (UrlArg ''https://play.alienworlds.io'') [page_other, page_blank] =
     Blank 1 ''https://play.alienworlds.io''"
proof -
  have o: "readable (QStr ''Worlds'') page_other \<and>
           query_match (QStr ''Worlds'') page_other = Some False \<and> \<not> is_blank page_other"
    by (simp add: readable_def page_other_def index_of_def is_blank_def)
  have "is_blank page_blank" by (simp add: is_blank_def page_blank_def)
  then show ?thesis
    using search_page_fallback [of "UrlArg ''https://play.alienworlds.io''" "QStr ''Worlds''"
                                   "[page_other, page_blank]"] o readable_samples
    by (auto simp: url_arg_def less_Suc_eq)
qed

lemma index_of_sublist:
  "-1 < index_of s q \<longleftrightarrow> sublist q s"
proof -
  have pre: "starts_with xs ys \<longleftrightarrow> prefix xs ys" for xs ys :: string
    by (induction xs ys rule: starts_with.induct) auto
  have "-1 < index_of_from q s i \<longleftrightarrow> sublist q s" for i
    by (induction q s i rule: index_of_from.induct) (auto simp: pre sublist_Cons_right)
  then show ?thesis by (simp add: index_of_def)
qed

lemma query_match_QStr:
  "query_match (QStr q) p =
     (case (title p, url p) of (Some t, Some u) \<Rightarrow> Some (sublist q t \<or> sublist q u) | _ \<Rightarrow> None)"
  by (simp add: index_of_sublist split: option.splits)

text \<open>
  C36. A string query finds the first open page whose title or location
  contains the query string: when every page can be read, the search resolves
  with page \<open>i\<close> exactly when the query occurs in its title or its URL and in
  neither the title nor the URL of any earlier page.
\<close>

theorem search_page_string_query:
  assumes "list_all (readable (QStr q)) ps"
  shows "search_page (QStr q) w ps = Found i \<longleftrightarrow>
    i < length ps \<and> (sublist q (the (title (ps ! i))) \<or> sublist q (the (url (ps ! i)))) \<and>
    (\<forall>j<i. \<not> sublist q (the (title (ps ! j))) \<and> \<not> sublist q (the (url (ps ! j))))"
proof -
  let ?P = "\<lambda>k. sublist q (the (title (ps ! k))) \<or> sublist q (the (url (ps ! k)))"
  have m: "query_match (QStr q) (ps ! k) = Some True \<longleftrightarrow> ?P k" if k: "k < length ps" for k
  proof -
    obtain t u where "title (ps ! k) = Some t" "url (ps ! k) = Some u"
      using assms k by (auto simp: list_all_length readable_def)
    then show ?thesis by (simp add: index_of_sublist)
  qed
  have "search_page (QStr q) w ps = Found i \<longleftrightarrow>
        find (\<lambda>k. query_match (QStr q) (ps ! k) = Some True) [0..<length ps] = Some i"
    using assms by (auto simp: search_page_unfold split: option.splits list.splits)
  also have "find (\<lambda>k. query_match (QStr q) (ps ! k) = Some True) [0..<length ps] =
             find ?P [0..<length ps]"
    by (rule find_cong) (simp_all add: m del: query_match.simps)
  finally show ?thesis by (simp only: find_upt_Some de_Morgan_disj)
qed

lemma search_page_string_query_witness:
  "search_page (QStr ''Worlds'') NoArg [page_blank, page_game] = Found 1 \<and>
   (sublist ''Worlds'' ''Alien Worlds'' \<or> sublist ''Worlds'' ''https://play.alienworlds.io'')"
proof -
  have s: "search_page (QStr ''Worlds'') NoArg [page_blank, page_game] = Found 1"
    by (simp add: search_page_unfold readable_def page_blank_def page_game_def
                  index_of_game index_of_blank_worlds is_blank_def)
  have "list_all (readable (QStr ''Worlds'')) [page_blank, page_game]"
    using readable_samples by simp
  from search_page_string_query [OF this, of NoArg 1] s show ?thesis
    by (simp add: page_game_def)
qed

text \<open>
  C12. Termination of the unbounded search: if at some attempt \<open>k\<close> every open
  page is readable and either \<open>urlOrWait\<close> is not \<open>true\<close> or a page
  matches, the retry loop of \<open>getPage\<close> returns, at attempt \<open>k\<close> at the
  latest, with a page (never with a retry).
\<close>

theorem get_page_loop_terminates:
  assumes "n \<le> k" "list_all (readable q) (snap k)"
    "w \<noteq> WaitArg \<or> (\<exists>p\<in>set (snap k). query_match q p = Some True)"
  shows "\<exists>m r. get_page_loop snap q w n = Some (m, r) \<and> m \<le> k \<and> r \<noteq> Retry"
proof -
  have "search_page q w (snap k) \<noteq> Retry"
    using assms(2,3) by (auto simp: search_page_Retry_iff)
  then obtain m r where ret: "get_page_loop snap q w n = Some (m, r)" "m \<le> k"
    using get_page_loop_returns [OF assms(1)] by blast
  then show ?thesis
    using get_page_loop_Some [OF ret(1)] by blast
qed

definition snap_sample :: "nat \<Rightarrow> page list" where
  "snap_sample i = (if i < 2 then [page_loading] else [page_blank, page_game])"

lemma get_page_loop_terminates_witness:
  "\<exists>m r. get_page_loop snap_sample (QStr ''Worlds'') WaitArg 0 = Some (m, r) \<and> m \<le> 2 \<and> r \<noteq> Retry"
  using get_page_loop_terminates [of 0 2 "QStr ''Worlds''" snap_sample WaitArg] readable_samples
  by (simp add: snap_sample_def)

end
