(* ===== verification/MiningSteps.thy ===== *)
theory MiningSteps
  imports MiningTask PageProvider
begin

text \<open>
  The mining run after \<open>stepPrepare\<close>, \<open>src/src/tasks/Mining.ts\<close> lines
  52--57 and 128--371: the task object's private fields, the two response
  listeners that \<open>stepMine\<close> registers (\<open>watchBalance\<close>, \<open>watchTransaction\<close>),
  \<open>stepMine\<close> itself, and \<open>stepConfirm\<close> with its two timer loops
  (\<open>updateCooldown\<close>, \<open>confirmMining\<close>). The confirm phase is a run over
  events: a network response seen by the listeners, a firing of the
  \<open>updateCooldown\<close> timer (with what the page shows), a firing of the
  \<open>confirmMining\<close> timer (with the clock and \<open>Math.random()\<close>). The API
  URLs and the account are parameters (\<open>utils/constant\<close> is not under
  \<open>src/\<close>); each response is handled atomically by both listeners in
  registration order. \<open>String(v)\<close>, needed only when a stored counter is a
  string, array or object, is a parameter \<open>tostr\<close>.
\<close>

section \<open>Task fields and responses\<close>

record mining_obj =
  mstage :: mining_stage
  mining_success :: bool
  balance_initialed :: bool
  balance :: rat
  balance_change :: rat
  listening :: bool

definition mining_obj_init :: mining_obj where
  "mining_obj_init = \<lparr>mstage = StageNone, mining_success = False, balance_initialed = False,
                      balance = 0, balance_change = 0, listening = False\<rparr>"

text \<open>
  A response as the listeners read it: \<open>resp.url()\<close>, \<open>resp.ok()\<close>,
  \<open>JSON.parse(req.postData())\<close> (\<open>None\<close> when it throws), and
  \<open>parseFloat(dat.rows[0].balance)\<close> (\<open>None\<close> when \<open>resp.json()\<close> or the
  access throws, or the number is NaN: both return without a change). A
  throwing \<open>JSON.parse\<close> rejects the listener's promise, which nobody
  handles; for the task's state this is the same as returning. Each response
  is handled as one step, across the listener's \<open>await resp.json()\<close>.
\<close>

record response =
  resp_url :: string
  resp_ok :: bool
  post_data :: "jsval option"
  resp_balance :: "rat option"

record mining_env =
  api_rows :: string
  api_push :: string
  account :: string

section \<open>The listeners of stepMine\<close>

definition watch_balance :: "mining_env \<Rightarrow> response \<Rightarrow> mining_obj \<Rightarrow> mining_obj" where
  "watch_balance env resp m =
     (if index_of (resp_url resp) (api_rows env) = -1 then m
      else if \<not> resp_ok resp then m
      else case post_data resp of
        None \<Rightarrow> m
      | Some pd \<Rightarrow>
          (if js_get_prop ''scope'' pd \<noteq> JStr (account env)
              \<or> js_get_prop ''table'' pd \<noteq> JStr ''accounts''
              \<or> js_get_prop ''code'' pd \<noteq> JStr ''alien.worlds'' then m
           else case resp_balance resp of
             None \<Rightarrow> m
           | Some tlm \<Rightarrow>
               (if balance_initialed m
                then (let change = tlm - balance m in
                      if change > 0 then m\<lparr>balance := tlm, balance_change := change\<rparr> else m)
                else m\<lparr>balance := tlm, balance_initialed := True\<rparr>)))"

definition watch_transaction :: "mining_env \<Rightarrow> response \<Rightarrow> mining_obj \<Rightarrow> mining_obj" where
  "watch_transaction env resp m =
     (if index_of (resp_url resp) (api_push env) = -1 then m
      else m\<lparr>mstage := StageComplete, mining_success := resp_ok resp\<rparr>)"

definition on_response :: "mining_env \<Rightarrow> response \<Rightarrow> mining_obj \<Rightarrow> mining_obj" where
  "on_response env resp m =
     (if listening m then watch_transaction env resp (watch_balance env resp m) else m)"

text \<open>\<open>stepMine\<close>: register both listeners, click the mine button, go to \<open>claim\<close>.\<close>

definition step_mine :: "mining_obj \<Rightarrow> mining_obj \<times> (jsval, time) action" where
  "step_mine m = (m\<lparr>listening := True\<rparr>, NextStep ''claim'')"

section \<open>stepConfirm\<close>

text \<open>\<open>Math.round\<close> rounds halves up.\<close>

definition js_round :: "rat \<Rightarrow> int" where
  "js_round x = \<lfloor>x + 1/2\<rfloor>"

definition reward_of :: "mining_obj \<Rightarrow> rat" where
  "reward_of m = of_int (js_round (balance_change m * 10000)) / 10000"

text \<open>\<open>v + n\<close> for a stored property \<open>v\<close> and a number \<open>n\<close>.\<close>

fun js_plus_num :: "(jsval \<Rightarrow> string) \<Rightarrow> jsval \<Rightarrow> rat \<Rightarrow> jsval" where
  "js_plus_num tostr (JNum a) n = JNum (a + n)"
| "js_plus_num tostr JNull n = JNum n"
| "js_plus_num tostr (JBool b) n = JNum (of_bool b + n)"
| "js_plus_num tostr JUndefined n = JNonFinite"
| "js_plus_num tostr JNonFinite n = JNonFinite"
| "js_plus_num tostr v n = JStr (tostr v @ tostr (JNum n))"

datatype cooldown_outcome = CooldownSet int | CooldownReload | CooldownRetry

text \<open>
  One run of \<open>updateCooldown\<close>: \<open>None\<close> for the page probe is a query that
  threw (caught, retried after 1 s); the text is that of the cooldown element.
\<close>

definition update_cooldown :: "mining_obj \<Rightarrow> page_probe option \<Rightarrow> string option \<Rightarrow> cooldown_outcome" where
  "update_cooldown m probe txt =
     (case probe of
        None \<Rightarrow> CooldownRetry
      | Some p \<Rightarrow>
          (if mstage m = StageComplete \<and> \<not> mining_success m \<and> btn_mine p then CooldownReload
           else if txt_cooldown p
           then (case txt of
                   None \<Rightarrow> CooldownRetry
                 | Some t \<Rightarrow> (case get_cooldown t of
                               Some cd \<Rightarrow> if cd \<noteq> 0 then CooldownSet cd else CooldownRetry
                             | None \<Rightarrow> CooldownRetry))
           else CooldownRetry))"

datatype confirm_outcome =
    ConfirmWait int
  | ConfirmDone "(jsval, time) action" store mining_obj
  | ConfirmThrows error

definition mining_result :: "time \<Rightarrow> rat \<Rightarrow> rat \<Rightarrow> jsval" where
  "mining_result aw tot reward =
     JObj [(''nextAttemptAt'', JNum (of_int aw)), (''total'', JNum tot), (''reward'', JNum reward)]"

definition mining_record :: "(jsval \<Rightarrow> string) \<Rightarrow> jsval \<Rightarrow> rat \<Rightarrow> rat \<Rightarrow> jsval" where
  "mining_record tostr conf tot reward =
     JObj [(''total'', JNum tot),
           (''rewards'', js_plus_num tostr (js_get_prop ''rewards'' conf) reward),
           (''counter'', js_plus_num tostr (js_get_prop ''counter'' conf) 1)]"

text \<open>
  One run of \<open>confirmMining\<close> with the closure's \<open>cooldown\<close>: it waits
  (re-arming after 1 s, returning the updated \<open>cooldown\<close>) until the
  transaction listener has fired and a cooldown is known; a failed
  transaction forces one hour.
\<close>

definition confirm_mining ::
  "(jsval \<Rightarrow> string) \<Rightarrow> string \<Rightarrow> mining_obj \<Rightarrow> int \<Rightarrow> store \<Rightarrow> time \<Rightarrow> rat \<Rightarrow> confirm_outcome" where
  "confirm_mining tostr mining_key m cooldown d now r =
     (if mstage m = StageComplete then
        (let cd = (if \<not> mining_success m then 3600000 else cooldown) in
         if cd \<noteq> 0 then
           (let reward = reward_of m;
                aw = \<lfloor>get_awake_time now (of_int cd) 180000 r\<rfloor>
            in case get_data d mining_key of
                 Inl e \<Rightarrow> ConfirmThrows e
               | Inr conf \<Rightarrow>
                   (case set_data d mining_key (mining_record tostr conf (balance m) reward) of
                      Inl e \<Rightarrow> ConfirmThrows e
                    | Inr d' \<Rightarrow>
                        ConfirmDone (Complete Completed ''Success'' (Some (mining_result aw (balance m) reward)) (Some aw))
                          d' (m\<lparr>listening := False, mstage := StageCooldown\<rparr>)))
         else ConfirmWait cd)
      else ConfirmWait cooldown)"

section \<open>The confirm phase as a run\<close>

datatype confirm_event =
    Resp response
  | CooldownTick "page_probe option" "string option"
  | PageLoaded
  | ConfirmTick time rat

record confirm_state =
  cobj :: mining_obj
  cooldown :: int
  cd_polling :: bool
  cd_reloading :: bool
  cstore :: store
  cdone :: "(jsval, time) action option"

definition confirm_init :: "mining_obj \<Rightarrow> store \<Rightarrow> confirm_state" where
  "confirm_init m d =
     \<lparr>cobj = m, cooldown = 0, cd_polling = True, cd_reloading = False, cstore = d, cdone = None\<rparr>"

text \<open>
  \<open>updateCooldown\<close> stops while the page reloads after a failed transaction;
  the one-shot \<open>DOMContentLoaded\<close> handler \<open>_r\<close> runs it again (\<open>PageLoaded\<close>).
\<close>

fun confirm_step ::
  "mining_env \<Rightarrow> (jsval \<Rightarrow> string) \<Rightarrow> string \<Rightarrow> confirm_event \<Rightarrow> confirm_state \<Rightarrow> error + confirm_state" where
  "confirm_step env tostr k (Resp resp) s = Inr (s\<lparr>cobj := on_response env resp (cobj s)\<rparr>)"
| "confirm_step env tostr k (CooldownTick p txt) s =
     (if cd_polling s \<and> \<not> cd_reloading s then
        (case update_cooldown (cobj s) p txt of
           CooldownSet cd \<Rightarrow> Inr (s\<lparr>cooldown := cd, cd_polling := False\<rparr>)
         | CooldownReload \<Rightarrow> Inr (s\<lparr>cd_reloading := True\<rparr>)
         | CooldownRetry \<Rightarrow> Inr s)
      else Inr s)"
| "confirm_step env tostr k PageLoaded s =
     (if cd_reloading s then Inr (s\<lparr>cd_reloading := False\<rparr>) else Inr s)"
| "confirm_step env tostr k (ConfirmTick now r) s =
     (if cdone s = None then
        (case confirm_mining tostr k (cobj s) (cooldown s) (cstore s) now r of
           ConfirmWait cd \<Rightarrow> Inr (s\<lparr>cooldown := cd\<rparr>)
         | ConfirmDone a d' m' \<Rightarrow> Inr (s\<lparr>cobj := m', cstore := d', cdone := Some a\<rparr>)
         | ConfirmThrows e \<Rightarrow> Inl e)
      else Inr s)"

fun confirm_run ::
  "mining_env \<Rightarrow> (jsval \<Rightarrow> string) \<Rightarrow> string \<Rightarrow> confirm_event list \<Rightarrow> confirm_state \<Rightarrow> error + confirm_state" where
  "confirm_run env tostr k [] s = Inr s"
| "confirm_run env tostr k (e # es) s =
     (case confirm_step env tostr k e s of Inl err \<Rightarrow> Inl err | Inr s' \<Rightarrow> confirm_run env tostr k es s')"

section \<open>Lemmas\<close>

lemma watch_balance_fields [simp]:
  "mstage (watch_balance env resp m) = mstage m"
  "mining_success (watch_balance env resp m) = mining_success m"
  "listening (watch_balance env resp m) = listening m"
  by (simp_all add: watch_balance_def Let_def split: option.splits)

lemma watch_transaction_balance [simp]:
  "balance (watch_transaction env resp m) = balance m"
  "balance_change (watch_transaction env resp m) = balance_change m"
  "balance_initialed (watch_transaction env resp m) = balance_initialed m"
  "listening (watch_transaction env resp m) = listening m"
  by (simp_all add: watch_transaction_def)

lemma watch_balance_mono:
  "(balance_initialed m \<longrightarrow> balance_initialed (watch_balance env resp m) \<and>
      balance m \<le> balance (watch_balance env resp m)) \<and>
   (0 \<le> balance_change m \<longrightarrow> 0 \<le> balance_change (watch_balance env resp m))"
  by (auto simp: watch_balance_def Let_def split: option.splits)

lemma on_response_mono:
  "(balance_initialed m \<longrightarrow> balance_initialed (on_response env resp m) \<and>
      balance m \<le> balance (on_response env resp m)) \<and>
   (0 \<le> balance_change m \<longrightarrow> 0 \<le> balance_change (on_response env resp m))"
  using watch_balance_mono [of m env resp] by (simp add: on_response_def)

text \<open>
  A balance below the kept one is ignored: after TLM is spent the kept balance
  stays at its old value, and a later reward that does not lift the balance
  above it is recorded as no change at all.
\<close>

lemma watch_balance_ignores_decrease:
  "balance_initialed m \<Longrightarrow> resp_balance resp = Some tlm \<Longrightarrow> tlm \<le> balance m \<Longrightarrow>
   watch_balance env resp m = m"
  by (auto simp: watch_balance_def Let_def split: option.splits)

lemma on_response_stage:
  "index_of (resp_url resp) (api_push env) = -1 \<Longrightarrow> mstage (on_response env resp m) = mstage m"
  by (simp add: on_response_def watch_transaction_def)

lemma set_data_Inr:
  "v \<noteq> JUndefined \<Longrightarrow> set_data d key v = Inr (d(uniform_key key \<mapsto> json_value_copy v))"
  by (simp add: set_data_def json_copy_def)

lemma mining_record_defined [simp]:
  "mining_record tostr conf tot reward \<noteq> JUndefined"
  by (simp add: mining_record_def)

lemma confirm_mining_wait:
  "mstage m \<noteq> StageComplete \<Longrightarrow> confirm_mining tostr k m cd d now r = ConfirmWait cd"
  by (simp add: confirm_mining_def)

lemma confirm_mining_Done:
  "confirm_mining tostr k m cd d now r = ConfirmDone a d' m' \<Longrightarrow>
   mstage m = StageComplete \<and> m' = m\<lparr>listening := False, mstage := StageCooldown\<rparr> \<and>
   (\<exists>conf. get_data d k = Inr conf \<and>
      d' = d(uniform_key k \<mapsto> json_value_copy (mining_record tostr conf (balance m) (reward_of m)))) \<and>
   (\<exists>aw. a = Complete Completed ''Success'' (Some (mining_result aw (balance m) (reward_of m))) (Some aw))"
  by (auto simp: confirm_mining_def Let_def set_data_Inr split: if_splits sum.splits)

lemma confirm_step_cooldown_only:
  "confirm_step env tostr k e s = Inr s' \<Longrightarrow> e = CooldownTick p tx \<or> e = PageLoaded \<Longrightarrow>
   cobj s' = cobj s \<and> cdone s' = cdone s \<and> cstore s' = cstore s"
  by (auto split: if_splits cooldown_outcome.splits)

lemma confirm_step_mono:
  assumes st: "confirm_step env tostr k e s = Inr s'"
  shows "(balance_initialed (cobj s) \<longrightarrow> balance_initialed (cobj s') \<and> balance (cobj s) \<le> balance (cobj s')) \<and>
   (0 \<le> balance_change (cobj s) \<longrightarrow> 0 \<le> balance_change (cobj s'))"
proof (cases e)
  case (Resp resp)
  then show ?thesis
    using st on_response_mono [of "cobj s" env resp] by auto
next
  case (CooldownTick p tx)
  then show ?thesis
    using confirm_step_cooldown_only [OF st] by simp
next
  case PageLoaded
  then show ?thesis
    using confirm_step_cooldown_only [OF st] by simp
next
  case (ConfirmTick now r)
  then show ?thesis
    using st confirm_mining_Done [of tostr k "cobj s" "cooldown s" "cstore s" now r]
    by (auto split: if_splits confirm_outcome.splits)
qed

lemma confirm_run_Cons_Inr:
  "confirm_run env tostr k (e # es) s = Inr s' \<Longrightarrow>
   \<exists>s1. confirm_step env tostr k e s = Inr s1 \<and> confirm_run env tostr k es s1 = Inr s'"
  by (auto split: sum.splits)

text \<open>What a confirm run completes with: \<open>complete(Completed, 'Success', result, awakeTime)\<close>.\<close>

lemma confirm_run_done:
  "confirm_run env tostr k evs s = Inr s' \<Longrightarrow> cdone s = None \<Longrightarrow> cdone s' = Some a \<Longrightarrow>
   \<exists>res aw. a = Complete Completed ''Success'' (Some res) (Some aw)"
proof (induction evs arbitrary: s)
  case Nil
  then show ?case by simp
next
  case (Cons e es)
  obtain s1 where s1: "confirm_step env tostr k e s = Inr s1" and run: "confirm_run env tostr k es s1 = Inr s'"
    using confirm_run_Cons_Inr [OF Cons.prems(1)] by blast
  show ?case
  proof (cases "cdone s1")
    case None
    then show ?thesis using Cons.IH [OF run _ Cons.prems(3)] by blast
  next
    case (Some b)
    have keep: "confirm_run env tostr k es' s2 = Inr s3 \<Longrightarrow> cdone s2 = Some b \<Longrightarrow> cdone s3 = Some b"
      for es' s2 s3
    proof (induction es' arbitrary: s2)
      case (Cons e' es'')
      obtain s4 where "confirm_step env tostr k e' s2 = Inr s4" "confirm_run env tostr k es'' s4 = Inr s3"
        using confirm_run_Cons_Inr [OF Cons.prems(1)] by blast
      moreover have "cdone s4 = Some b"
        using calculation(1) Cons.prems(2) by (cases e') (auto split: if_splits cooldown_outcome.splits)
      ultimately show ?case using Cons.IH by blast
    qed simp
    have "b = a" using keep [OF run Some] Cons.prems(3) by simp
    moreover have "\<exists>res aw. b = Complete Completed ''Success'' (Some res) (Some aw)"
    proof (cases e)
      case (ConfirmTick now r)
      with s1 Some Cons.prems(2) obtain d' m' where
          "confirm_mining tostr k (cobj s) (cooldown s) (cstore s) now r = ConfirmDone b d' m'"
        by (auto split: confirm_outcome.splits)
      then show ?thesis using confirm_mining_Done by blast
    qed (use s1 Some Cons.prems(2) in \<open>auto split: if_splits cooldown_outcome.splits\<close>)
    ultimately show ?thesis by blast
  qed
qed

lemma reward_of_nonneg:
  "0 \<le> balance_change m \<Longrightarrow> 0 \<le> reward_of m"
  by (simp add: reward_of_def js_round_def)

lemma confirm_run_no_push:
  "confirm_run env tostr k evs s = Inr s' \<Longrightarrow> cdone s = None \<Longrightarrow> mstage (cobj s) \<noteq> StageComplete \<Longrightarrow>
   (\<forall>resp. Resp resp \<in> set evs \<longrightarrow> index_of (resp_url resp) (api_push env) = -1) \<Longrightarrow>
   cdone s' = None \<and> mstage (cobj s') \<noteq> StageComplete"
proof (induction evs arbitrary: s)
  case Nil
  then show ?case by simp
next
  case (Cons e es)
  obtain s1 where s1: "confirm_step env tostr k e s = Inr s1" and run: "confirm_run env tostr k es s1 = Inr s'"
    using confirm_run_Cons_Inr [OF Cons.prems(1)] by blast
  have "cdone s1 = None \<and> mstage (cobj s1) \<noteq> StageComplete"
  proof (cases e)
    case (Resp resp)
    then show ?thesis
      using s1 Cons.prems(2-4) on_response_stage [of resp env "cobj s"] by auto
  next
    case (CooldownTick p tx)
    then show ?thesis
      using confirm_step_cooldown_only [OF s1] Cons.prems(2,3) by simp
  next
    case PageLoaded
    then show ?thesis
      using confirm_step_cooldown_only [OF s1] Cons.prems(2,3) by simp
  next
    case (ConfirmTick now r)
    then show ?thesis
      using s1 Cons.prems(2,3) confirm_mining_wait [of "cobj s" tostr k "cooldown s" "cstore s" now r]
      by auto
  qed
  then show ?case
    using Cons.IH [OF run] Cons.prems(4) by auto
qed

lemma get_data_mining_record:
  "get_data (d(uniform_key k \<mapsto> json_value_copy (mining_record tostr conf t rw))) k =
   Inr (json_value_copy (mining_record tostr conf t rw))"
  by (simp add: get_data_def json_copy_def json_value_copy_idem mining_record_def)

section \<open>Properties of the mining run\<close>

text \<open>
  C37. Once the balance listener has read a first balance, the balance it
  keeps never decreases and the recorded change stays non-negative, whatever
  responses and timer firings follow; so the reward a confirmation reports is
  never negative.
\<close>

theorem confirm_run_balance_mono:
  "confirm_run env tostr k evs s = Inr s' \<Longrightarrow> balance_initialed (cobj s) \<Longrightarrow>
   0 \<le> balance_change (cobj s) \<Longrightarrow>
   balance_initialed (cobj s') \<and> balance (cobj s) \<le> balance (cobj s') \<and>
   0 \<le> balance_change (cobj s') \<and> 0 \<le> reward_of (cobj s')"
proof (induction evs arbitrary: s)
  case Nil
  then show ?case by (simp add: reward_of_nonneg)
next
  case (Cons e es)
  obtain s1 where s1: "confirm_step env tostr k e s = Inr s1" and run: "confirm_run env tostr k es s1 = Inr s'"
    using confirm_run_Cons_Inr [OF Cons.prems(1)] by blast
  have "balance_initialed (cobj s1) \<and> balance (cobj s) \<le> balance (cobj s1) \<and> 0 \<le> balance_change (cobj s1)"
    using confirm_step_mono [OF s1] Cons.prems(2,3) by simp
  then show ?case
    using Cons.IH [OF run] by auto
qed

definition env_sample :: mining_env where
  "env_sample = \<lparr>api_rows = ''get_table_rows'', api_push = ''push_transaction'', account = ''abc.wam''\<rparr>"

definition resp_rows :: "rat \<Rightarrow> response" where
  "resp_rows b = \<lparr>resp_url = ''/v1/chain/get_table_rows'', resp_ok = True,
                  post_data = Some (JObj [(''code'', JStr ''alien.worlds''), (''scope'', JStr ''abc.wam''),
                                          (''table'', JStr ''accounts'')]),
                  resp_balance = Some b\<rparr>"

definition resp_push :: "bool \<Rightarrow> response" where
  "resp_push ok = \<lparr>resp_url = ''/v1/chain/push_transaction'', resp_ok = ok, post_data = None,
                   resp_balance = None\<rparr>"

lemma index_of_samples [simp]:
  "index_of ''/v1/chain/get_table_rows'' ''get_table_rows'' = 10"
  "index_of ''/v1/chain/get_table_rows'' ''push_transaction'' = -1"
  "index_of ''/v1/chain/push_transaction'' ''get_table_rows'' = -1"
  "index_of ''/v1/chain/push_transaction'' ''push_transaction'' = 10"
  by (simp_all add: index_of_def)

definition obj_sample :: mining_obj where
  "obj_sample = mining_obj_init\<lparr>balance_initialed := True, balance := 100, listening := True\<rparr>"

lemma confirm_run_balance_mono_witness:
  "confirm_run env_sample (\<lambda>_. []) ''mining'' [Resp (resp_rows 99), Resp (resp_rows (203/2))]
     (confirm_init obj_sample Map.empty) =
     Inr (confirm_init (obj_sample\<lparr>balance := 203/2, balance_change := 3/2\<rparr>) Map.empty) \<and>
   balance (obj_sample\<lparr>balance := 203/2, balance_change := 3/2\<rparr>) = 203/2 \<and>
   reward_of (obj_sample\<lparr>balance := 203/2, balance_change := 3/2\<rparr>) = 3/2"
proof -
  have run: "confirm_run env_sample (\<lambda>_. []) ''mining'' [Resp (resp_rows 99), Resp (resp_rows (203/2))]
     (confirm_init obj_sample Map.empty) =
     Inr (confirm_init (obj_sample\<lparr>balance := 203/2, balance_change := 3/2\<rparr>) Map.empty)"
    by (simp add: confirm_init_def on_response_def watch_balance_def watch_transaction_def
                  env_sample_def resp_rows_def obj_sample_def mining_obj_init_def js_get_prop_def)
  have "reward_of (obj_sample\<lparr>balance := 203/2, balance_change := 3/2\<rparr>) = 3/2"
    by (simp add: reward_of_def js_round_def obj_sample_def floor_eq_iff)
  then show ?thesis
    using run confirm_run_balance_mono [OF run]
    by (simp add: confirm_init_def obj_sample_def mining_obj_init_def)
qed

text \<open>
  C38. \<open>stepConfirm\<close> completes the task only after the transaction listener has
  seen a response from the push-transaction API: a confirm phase that starts
  before the transaction cannot finish without one.
\<close>

theorem confirm_requires_transaction:
  "confirm_run env tostr k evs s = Inr s' \<Longrightarrow> cdone s = None \<Longrightarrow> mstage (cobj s) \<noteq> StageComplete \<Longrightarrow>
   cdone s' \<noteq> None \<Longrightarrow> \<exists>resp. Resp resp \<in> set evs \<and> index_of (resp_url resp) (api_push env) \<noteq> -1"
  using confirm_run_no_push [of env tostr k evs s s'] by force

lemma uniform_key_mining [simp]:
  "uniform_key ''mining'' = ''mining''"
  by code_simp

definition store_sample :: store where
  "store_sample = Map.empty(''mining'' \<mapsto> JObj [(''counter'', JNum 0)])"

lemma confirm_requires_transaction_witness:
  "\<exists>s'. confirm_run env_sample (\<lambda>_. []) ''mining'' [Resp (resp_push False), ConfirmTick 1000 (1/2)]
          (confirm_init obj_sample store_sample) = Inr s' \<and> cdone s' \<noteq> None \<and>
        (\<exists>resp. Resp resp \<in> set [Resp (resp_push False), ConfirmTick 1000 (1/2)] \<and>
                index_of (resp_url resp) (api_push env_sample) \<noteq> -1)"
proof -
  have "\<exists>s'. confirm_run env_sample (\<lambda>_. []) ''mining'' [Resp (resp_push False), ConfirmTick 1000 (1/2)]
          (confirm_init obj_sample store_sample) = Inr s' \<and> cdone s' \<noteq> None"
    by (simp add: confirm_init_def on_response_def watch_balance_def watch_transaction_def
                  env_sample_def resp_push_def obj_sample_def mining_obj_init_def confirm_mining_def
                  store_sample_def get_data_def json_copy_def set_data_Inr Let_def
             del: uniform_key.simps)
  then obtain s' where run: "confirm_run env_sample (\<lambda>_. []) ''mining'' [Resp (resp_push False), ConfirmTick 1000 (1/2)]
          (confirm_init obj_sample store_sample) = Inr s'" and fin: "cdone s' \<noteq> None"
    by blast
  have "cdone (confirm_init obj_sample store_sample) = None \<and>
        mstage (cobj (confirm_init obj_sample store_sample)) \<noteq> StageComplete"
    by (simp add: confirm_init_def obj_sample_def mining_obj_init_def)
  then show ?thesis
    using run fin confirm_requires_transaction [OF run] by blast
qed

text \<open>
  C39. When the push-transaction response reports a failure (out of
  resources), the next \<open>confirmMining\<close> completes the task at once with a wake
  time one hour plus 45 to 180 seconds ahead, records the run in the store
  and removes the listeners; the task state is still Completed/'Success'.
\<close>

theorem confirm_failed_waits_an_hour:
  assumes "mstage m = StageComplete" "\<not> mining_success m" "get_data d k = Inr conf" "0 \<le> r" "r < 1"
  shows "\<exists>aw. confirm_mining tostr k m cd d now r =
           ConfirmDone (Complete Completed ''Success'' (Some (mining_result aw (balance m) (reward_of m))) (Some aw))
             (d(uniform_key k \<mapsto> json_value_copy (mining_record tostr conf (balance m) (reward_of m))))
             (m\<lparr>listening := False, mstage := StageCooldown\<rparr>) \<and>
         now + 3645000 \<le> aw \<and> aw < now + 3780000"
  using assms get_awake_time_default_floor [OF assms(4,5), of now 3600000]
  by (simp add: confirm_mining_def Let_def set_data_Inr)

lemma confirm_failed_waits_an_hour_witness:
  "\<exists>aw. confirm_mining (\<lambda>_. []) ''mining'' (obj_sample\<lparr>mstage := StageComplete\<rparr>) 0 store_sample 1000 (1/2) =
          ConfirmDone (Complete Completed ''Success''
                         (Some (mining_result aw 100 (reward_of (obj_sample\<lparr>mstage := StageComplete\<rparr>)))) (Some aw))
            (store_sample(''mining'' \<mapsto> json_value_copy (mining_record (\<lambda>_. []) (JObj [(''counter'', JNum 0)]) 100
                            (reward_of (obj_sample\<lparr>mstage := StageComplete\<rparr>)))))
            (obj_sample\<lparr>mstage := StageComplete, listening := False, mstage := StageCooldown\<rparr>) \<and>
        1000 + 3645000 \<le> aw \<and> aw < 1000 + 3780000"
proof -
  have g: "get_data store_sample ''mining'' = Inr (JObj [(''counter'', JNum 0)])"
    by (simp add: store_sample_def get_data_def json_copy_def del: uniform_key.simps)
  have ob: "mstage (obj_sample\<lparr>mstage := StageComplete\<rparr>) = StageComplete \<and>
           \<not> mining_success (obj_sample\<lparr>mstage := StageComplete\<rparr>) \<and>
           balance (obj_sample\<lparr>mstage := StageComplete\<rparr>) = 100"
    by (simp add: obj_sample_def mining_obj_init_def)
  show ?thesis
    using confirm_failed_waits_an_hour [of "obj_sample\<lparr>mstage := StageComplete\<rparr>" store_sample "''mining''"
            "JObj [(''counter'', JNum 0)]" "1/2" "\<lambda>_. []" 0 1000] g ob
    by (simp del: uniform_key.simps)
qed

text \<open>
  C40. The rewards total loses the first reward: \<open>Mining.initial\<close> writes only
  \<open>counter\<close>, so the first confirmation computes \<open>undefined + reward\<close> (NaN,
  stored as \<open>null\<close> by the JSON copy) and the second \<open>null + reward\<close>; after
  two confirmations the stored \<open>rewards\<close> is the second reward alone, while
  \<open>counter\<close> counts both runs.
\<close>

theorem confirm_rewards_lose_first:
  assumes conf: "get_data d k = Inr conf" "js_get_prop ''rewards'' conf = JUndefined"
      "js_get_prop ''counter'' conf = JNum c"
    and run1: "confirm_mining tostr k m1 cd1 d now1 r1 = ConfirmDone a1 d1 m1'"
    and run2: "confirm_mining tostr k m2 cd2 d1 now2 r2 = ConfirmDone a2 d2 m2'"
  shows "\<exists>v. get_data d2 k = Inr v \<and> js_get_prop ''rewards'' v = JNum (reward_of m2) \<and>
             js_get_prop ''counter'' v = JNum (c + 2)"
proof -
  let ?v1 = "json_value_copy (mining_record tostr conf (balance m1) (reward_of m1))"
  have d1: "d1 = d(uniform_key k \<mapsto> ?v1)"
    using confirm_mining_Done [OF run1] conf(1) by auto
  have v1: "js_get_prop ''rewards'' ?v1 = JNull \<and> js_get_prop ''counter'' ?v1 = JNum (c + 1)"
    using conf(2,3) by (simp add: mining_record_def js_get_prop_def)
  have g1: "get_data d1 k = Inr ?v1"
    unfolding d1 by (rule get_data_mining_record)
  let ?v2 = "json_value_copy (mining_record tostr ?v1 (balance m2) (reward_of m2))"
  have d2: "d2 = d1(uniform_key k \<mapsto> ?v2)"
    using confirm_mining_Done [OF run2] g1 by auto
  have "get_data d2 k = Inr ?v2"
    unfolding d2 by (rule get_data_mining_record)
  moreover have "js_get_prop ''rewards'' ?v2 = JNum (reward_of m2) \<and>
                 js_get_prop ''counter'' ?v2 = JNum (c + 2)"
    using v1 by (simp add: mining_record_def js_get_prop_def)
  ultimately show ?thesis by blast
qed

definition obj_mined :: "rat \<Rightarrow> mining_obj" where
  "obj_mined ch = obj_sample\<lparr>mstage := StageComplete, mining_success := True, balance_change := ch\<rparr>"

lemma confirm_rewards_lose_first_witness:
  "\<exists>a1 d1 m1' a2 d2 m2'.
     confirm_mining (\<lambda>_. []) ''mining'' (obj_mined (1/2)) 60000 store_sample 1000 (1/2) = ConfirmDone a1 d1 m1' \<and>
     confirm_mining (\<lambda>_. []) ''mining'' (obj_mined (1/4)) 60000 d1 5000000 (1/2) = ConfirmDone a2 d2 m2' \<and>
     (\<exists>v. get_data d2 ''mining'' = Inr v \<and> js_get_prop ''rewards'' v = JNum (1/4) \<and>
          js_get_prop ''counter'' v = JNum 2)"
proof -
  have g: "get_data store_sample ''mining'' = Inr (JObj [(''counter'', JNum 0)])"
    by (simp add: store_sample_def get_data_def json_copy_def del: uniform_key.simps)
  have r2: "reward_of (obj_mined (1/4)) = 1/4"
    by (simp add: reward_of_def js_round_def obj_mined_def floor_eq_iff)
  have "\<exists>a1 d1 m1' a2 d2 m2'.
     confirm_mining (\<lambda>_. []) ''mining'' (obj_mined (1/2)) 60000 store_sample 1000 (1/2) = ConfirmDone a1 d1 m1' \<and>
     confirm_mining (\<lambda>_. []) ''mining'' (obj_mined (1/4)) 60000 d1 5000000 (1/2) = ConfirmDone a2 d2 m2'"
    using g by (simp add: confirm_mining_def Let_def set_data_Inr obj_mined_def
                          get_data_mining_record [where k = "''mining''", unfolded uniform_key_mining]
                     del: uniform_key.simps)
  then obtain a1 d1 m1' a2 d2 m2' where
      c1: "confirm_mining (\<lambda>_. []) ''mining'' (obj_mined (1/2)) 60000 store_sample 1000 (1/2) = ConfirmDone a1 d1 m1'"
    and c2: "confirm_mining (\<lambda>_. []) ''mining'' (obj_mined (1/4)) 60000 d1 5000000 (1/2) = ConfirmDone a2 d2 m2'"
    by blast
  have "js_get_prop ''rewards'' (JObj [(''counter'', JNum 0)]) = JUndefined \<and>
        js_get_prop ''counter'' (JObj [(''counter'', JNum 0)]) = JNum 0"
    by (simp add: js_get_prop_def)
  then show ?thesis
    using c1 c2 confirm_rewards_lose_first [OF g _ _ c1 c2] r2 by auto
qed

end
