(* ===== verification/MiningClaim.thy ===== *)
theory MiningClaim
  imports MiningTask
begin

text \<open>
  \<open>Mining.stepClaim\<close>, \<open>src/src/tasks/Mining.ts\<close> lines 217--282, as a run
  over the callbacks it arms. A run of \<open>stepClaim\<close> waits up to five minutes
  for the claim button; on success it registers the popup handler
  \<open>doApprove\<close> and clicks, on a timeout it unregisters the handler and runs
  again after 3 s. Each popup gets a close handler \<open>onApproved\<close> (which
  unregisters \<open>doApprove\<close>) and a loop \<open>clickApproveButton\<close>: a click on the
  approve button that calls \<open>nextStep('comfirm')\<close> on success and, on a
  failure, tries again after 3 s while the popup is open and stops once it is
  closed. The guard \<open>if (!btnApprove)\<close> tests the unawaited promise
  \<open>page.$(...)\<close>, which is always truthy, so only the click can fail.
\<close>

record claim_state =
  claim_pending :: bool
  popup_handler :: bool
  popup_watch :: bool
  approve_loops :: nat
  next_confirm :: nat

definition claim_init :: claim_state where
  "claim_init = \<lparr>claim_pending = True, popup_handler = False, popup_watch = False,
                 approve_loops = 0, next_confirm = 0\<rparr>"

text \<open>
  Events: a run of \<open>stepClaim\<close> (whether the claim button appeared and the
  click succeeded), a popup opening, one run of \<open>clickApproveButton\<close>
  (whether the click succeeded, and whether the popup is closed when it
  failed), and the popup closing.
\<close>

datatype claim_event = ClaimRun bool | PopupOpen | ApproveTry bool bool | PopupClose

fun claim_step :: "claim_event \<Rightarrow> claim_state \<Rightarrow> claim_state" where
  "claim_step (ClaimRun ok) s =
     (if claim_pending s then
        (if ok then s\<lparr>claim_pending := False, popup_handler := True\<rparr>
         else s\<lparr>popup_handler := False\<rparr>)
      else s)"
| "claim_step PopupOpen s =
     (if popup_handler s then s\<lparr>popup_watch := True, approve_loops := Suc (approve_loops s)\<rparr> else s)"
| "claim_step (ApproveTry clicked shut) s =
     (if approve_loops s = 0 then s
      else if clicked then s\<lparr>approve_loops := approve_loops s - 1, next_confirm := Suc (next_confirm s)\<rparr>
      else if \<not> shut then s
      else s\<lparr>approve_loops := approve_loops s - 1\<rparr>)"
| "claim_step PopupClose s =
     (if popup_watch s then s\<lparr>popup_watch := False, popup_handler := False\<rparr> else s)"

definition claim_run :: "claim_event list \<Rightarrow> claim_state \<Rightarrow> claim_state" where
  "claim_run evs s = fold claim_step evs s"

text \<open>
  The actions the claim step has taken: one \<open>nextStep('comfirm')\<close> per
  successful approve click.
\<close>

definition claim_actions :: "claim_state \<Rightarrow> ('r, 'w) action list" where
  "claim_actions s = replicate (next_confirm s) (NextStep ''comfirm'')"

text \<open>
  A state in which nothing is armed any more: no \<open>stepClaim\<close> run pending, no
  popup or close handler, no approve loop. No callback can change it.
\<close>

definition claim_dead :: "claim_state \<Rightarrow> bool" where
  "claim_dead s \<longleftrightarrow> \<not> claim_pending s \<and> \<not> popup_handler s \<and> \<not> popup_watch s \<and> approve_loops s = 0"

section \<open>Lemmas\<close>

lemma claim_step_dead:
  "claim_dead s \<Longrightarrow> claim_step e s = s"
  by (cases e) (auto simp: claim_dead_def)

lemma claim_run_dead:
  "claim_dead s \<Longrightarrow> claim_run evs s = s"
  by (induction evs) (simp_all add: claim_run_def claim_step_dead)

lemma claim_step_confirm_mono:
  "next_confirm s \<le> next_confirm (claim_step e s)"
  by (cases e) auto

lemma claim_run_append:
  "claim_run (xs @ ys) s = claim_run ys (claim_run xs s)"
  by (simp add: claim_run_def)

lemma claim_confirm_needs_click:
  "next_confirm s < next_confirm (claim_run evs s) \<Longrightarrow> \<exists>sh. ApproveTry True sh \<in> set evs"
proof (induction evs arbitrary: s)
  case Nil
  then show ?case by (simp add: claim_run_def)
next
  case (Cons e es)
  show ?case
  proof (cases "\<exists>sh. e = ApproveTry True sh")
    case True
    then show ?thesis by auto
  next
    case False
    then have "next_confirm (claim_step e s) = next_confirm s"
      by (cases e) auto
    with Cons.prems have "next_confirm (claim_step e s) < next_confirm (claim_run es (claim_step e s))"
      by (simp add: claim_run_def)
    then show ?thesis
      using Cons.IH by fastforce
  qed
qed

section \<open>The claim step can hang\<close>

definition early_close :: "claim_event list" where
  "early_close = [ClaimRun True, PopupOpen, ApproveTry False True, PopupClose]"

text \<open>
  C18. If the approve popup is closed before its button could be clicked,
  \<open>stepClaim\<close> is left with nothing armed: no later callback (another popup,
  another approve attempt) can call \<open>nextStep('comfirm')\<close>, so the task never
  settles and the scheduler, which has no timeout, stays Busy for good.
\<close>

theorem claim_hangs_after_early_close:
  "claim_dead (claim_run early_close claim_init) \<and> next_confirm (claim_run early_close claim_init) = 0 \<and>
   (\<forall>evs. claim_run evs (claim_run early_close claim_init) = claim_run early_close claim_init)"
proof -
  have d: "claim_dead (claim_run early_close claim_init)"
    by (simp add: early_close_def claim_run_def claim_init_def claim_dead_def)
  moreover have "next_confirm (claim_run early_close claim_init) = 0"
    by (simp add: early_close_def claim_run_def claim_init_def)
  ultimately show ?thesis
    using claim_run_dead [OF d] by blast
qed

end
