(* ===== verification/LegacyMining.thy ===== *)
theory LegacyMining
  imports Utils
begin

text \<open>
  The legacy mining task \<open>src/src/tasks/mining/Mining.ts\<close>: four steps
  \<open>mine\<close>, \<open>claim\<close>, \<open>apprive\<close> and \<open>comfirm\<close> (the source's spellings),
  registered in that order with \<open>mine\<close> initial. Each step looks at the page
  (how many elements match a selector), either \<open>tick\<close>s itself or clicks and
  moves on; the confirm step ends the task with \<open>success(Completed)\<close> once
  the cooldown text shows. The click delays use \<open>random\<close> of
  \<open>utils.ts\<close>, with \<open>Math.random()\<close> as the parameter \<open>r\<close>. Its base
  class \<open>../../Task\<close> is not in the repository; a run here is the sequence of
  steps the actions select, one observation of the page per step.
\<close>

definition legacy_steps :: "string list" where
  "legacy_steps = [''mine'', ''claim'', ''apprive'', ''comfirm'']"

text \<open>What \<open>page.$$(selector).length\<close> returns on the task's page.\<close>

record legacy_page =
  mine_btns :: nat
  claim_btns :: nat
  cooldown_btns :: nat
  cooldown_txts :: nat

record approve_page =
  approve_btns :: nat
  page_closed :: bool

record legacy_obs =
  main_page :: legacy_page
  browser_pages :: "approve_page list"

datatype legacy_outcome =
    LTick string
  | LClickNext "rat option" string
  | LSuccess

definition legacy_step_mine :: "legacy_page \<Rightarrow> rat \<Rightarrow> legacy_outcome" where
  "legacy_step_mine p r =
     (if mine_btns p = 0 then LTick ''mine'' else LClickNext (Some (50 + random 200 0 r)) ''claim'')"

definition legacy_step_claim :: "legacy_page \<Rightarrow> rat \<Rightarrow> legacy_outcome" where
  "legacy_step_claim p r =
     (if claim_btns p = 0 then LTick ''claim'' else LClickNext (Some (1500 + random 5000 0 r)) ''apprive'')"

text \<open>
  \<open>stepApprove\<close>: the first open page with an approve button; it is clicked
  unless closed (a failing click is swallowed), and the task moves on.
\<close>

definition legacy_step_approve :: "approve_page list \<Rightarrow> rat \<Rightarrow> legacy_outcome" where
  "legacy_step_approve pages r =
     (case find (\<lambda>pg. approve_btns pg \<noteq> 0) pages of
        None \<Rightarrow> LTick ''apprive''
      | Some pg \<Rightarrow>
          LClickNext (if page_closed pg then None else Some (500 + random 2000 0 r)) ''comfirm'')"

definition legacy_step_confirm :: "legacy_page \<Rightarrow> legacy_outcome" where
  "legacy_step_confirm p =
     (if cooldown_btns p = 0 then LTick ''comfirm''
      else if cooldown_txts p \<noteq> 0 then LSuccess
      else LTick ''comfirm'')"

definition legacy_step :: "string \<Rightarrow> legacy_obs \<Rightarrow> rat \<Rightarrow> legacy_outcome option" where
  "legacy_step st ob r =
     (if st = ''mine'' then Some (legacy_step_mine (main_page ob) r)
      else if st = ''claim'' then Some (legacy_step_claim (main_page ob) r)
      else if st = ''apprive'' then Some (legacy_step_approve (browser_pages ob) r)
      else if st = ''comfirm'' then Some (legacy_step_confirm (main_page ob))
      else None)"

definition legacy_target :: "legacy_outcome \<Rightarrow> string option" where
  "legacy_target a = (case a of LTick s \<Rightarrow> Some s | LClickNext _ s \<Rightarrow> Some s | LSuccess \<Rightarrow> None)"

text \<open>
  A run from step \<open>st\<close>: the steps executed and whether the task ended with
  \<open>success\<close>. The observation list is the fuel: each entry is one execution
  of a step.
\<close>

fun legacy_run :: "(legacy_obs \<times> rat) list \<Rightarrow> string \<Rightarrow> string list \<times> bool" where
  "legacy_run [] st = ([], False)"
| "legacy_run ((ob, r) # obs) st =
     (case legacy_step st ob r of
        None \<Rightarrow> ([], False)
      | Some LSuccess \<Rightarrow> ([st], True)
      | Some a \<Rightarrow>
          (case legacy_target a of
             None \<Rightarrow> ([st], False)
           | Some st' \<Rightarrow> (let (tr, d) = legacy_run obs st' in (st # tr, d))))"

definition legacy_rank :: "string \<Rightarrow> nat" where
  "legacy_rank s = (if s = ''mine'' then 0 else if s = ''claim'' then 1 else if s = ''apprive'' then 2 else 3)"

section \<open>Lemmas\<close>

lemma legacy_rank_steps [simp]:
  "legacy_rank ''mine'' = 0" "legacy_rank ''claim'' = 1"
  "legacy_rank ''apprive'' = 2" "legacy_rank ''comfirm'' = 3"
  by (simp_all add: legacy_rank_def)

lemma legacy_step_cases:
  "legacy_step st ob r = Some a \<Longrightarrow>
   (st = ''mine'' \<and> a = legacy_step_mine (main_page ob) r) \<or>
   (st = ''claim'' \<and> a = legacy_step_claim (main_page ob) r) \<or>
   (st = ''apprive'' \<and> a = legacy_step_approve (browser_pages ob) r) \<or>
   (st = ''comfirm'' \<and> a = legacy_step_confirm (main_page ob))"
  unfolding legacy_step_def by (simp split: if_splits)

lemma legacy_step_outcomes:
  "legacy_step_mine p r = LTick ''mine'' \<or> (\<exists>d. legacy_step_mine p r = LClickNext d ''claim'')"
  "legacy_step_claim p r = LTick ''claim'' \<or> (\<exists>d. legacy_step_claim p r = LClickNext d ''apprive'')"
  "legacy_step_approve pgs r = LTick ''apprive'' \<or>
   (\<exists>d. legacy_step_approve pgs r = LClickNext d ''comfirm'')"
  "legacy_step_confirm p = LTick ''comfirm'' \<or> legacy_step_confirm p = LSuccess"
  by (simp_all add: legacy_step_mine_def legacy_step_claim_def legacy_step_approve_def
                    legacy_step_confirm_def split: option.splits)

lemma legacy_step_rank:
  assumes "legacy_step st ob r = Some a" "legacy_target a = Some s"
  shows "s \<in> set legacy_steps \<and> (legacy_rank s = legacy_rank st \<or> legacy_rank s = Suc (legacy_rank st))"
  using legacy_step_cases [OF assms(1)] assms(2)
    legacy_step_outcomes(1) [of "main_page ob" r] legacy_step_outcomes(2) [of "main_page ob" r]
    legacy_step_outcomes(3) [of "browser_pages ob" r] legacy_step_outcomes(4) [of "main_page ob"]
  by (elim disjE) (auto simp: legacy_target_def legacy_steps_def)

lemma legacy_step_success:
  "legacy_step st ob r = Some LSuccess \<Longrightarrow> st = ''comfirm''"
  using legacy_step_outcomes(1) [of "main_page ob" r] legacy_step_outcomes(2) [of "main_page ob" r]
    legacy_step_outcomes(3) [of "browser_pages ob" r]
  by (auto dest: legacy_step_cases)

lemma legacy_click_delays:
  assumes "0 \<le> r" "r < 1"
  shows "legacy_step_mine p r = LClickNext (Some dl) s \<Longrightarrow> 50 \<le> dl \<and> dl < 250"
    and "legacy_step_claim p r = LClickNext (Some dl) s \<Longrightarrow> 1500 \<le> dl \<and> dl < 6500"
    and "legacy_step_approve pgs r = LClickNext (Some dl) s \<Longrightarrow> 500 \<le> dl \<and> dl < 2500"
  using random_bounds [OF assms, of 0 200] random_bounds [OF assms, of 0 5000]
        random_bounds [OF assms, of 0 2000]
  by (auto simp: legacy_step_mine_def legacy_step_claim_def legacy_step_approve_def
           split: if_splits option.splits)

lemma legacy_run_Cons_done:
  "legacy_run ((ob, r) # obs) st = (tr, True) \<Longrightarrow>
   (legacy_step st ob r = Some LSuccess \<and> tr = [st]) \<or>
   (\<exists>a st' tr'. legacy_step st ob r = Some a \<and> legacy_target a = Some st' \<and>
      legacy_run obs st' = (tr', True) \<and> tr = st # tr')"
  by (auto split: option.splits legacy_outcome.splits prod.splits simp: legacy_target_def)

lemma legacy_run_ordered:
  "legacy_run obs st = (tr, True) \<Longrightarrow>
   sorted (map legacy_rank tr) \<and> set (map legacy_rank tr) = {legacy_rank st..3}"
proof (induction obs arbitrary: st tr)
  case Nil
  then show ?case by simp
next
  case (Cons obr obs)
  obtain ob r where obr: "obr = (ob, r)" by (cases obr)
  consider (fin) "legacy_step st ob r = Some LSuccess" "tr = [st]"
    | (step) a st' tr' where "legacy_step st ob r = Some a" "legacy_target a = Some st'"
        "legacy_run obs st' = (tr', True)" "tr = st # tr'"
    using legacy_run_Cons_done [of ob r obs st tr] Cons.prems obr by blast
  then show ?case
  proof cases
    case fin
    then show ?thesis
      using legacy_step_success [of st ob r] by (simp add: legacy_rank_def)
  next
    case step
    have ih: "sorted (map legacy_rank tr') \<and> set (map legacy_rank tr') = {legacy_rank st'..3}"
      using Cons.IH [OF step(3)] .
    have "legacy_rank st' = legacy_rank st \<or> legacy_rank st' = Suc (legacy_rank st)"
      using legacy_step_rank [OF step(1,2)] by blast
    moreover have "legacy_rank st \<le> 3" by (simp add: legacy_rank_def)
    ultimately show ?thesis
      using ih unfolding step(4) by auto
  qed
qed

end
