(* ===== verification/Spec2Isabelle.thy ===== *)
theory Spec2Isabelle
  imports Scheduler DataStore Utils Task MiningTask PageProvider MiningSteps MiningClaim
    LegacyMining
begin

text \<open>
  \<^bold>\<open>A verification development for the task scheduler of zivyuan/aw-bot.\<close>

  \<^bold>\<open>The program.\<close> \<open>src/src/Minion.ts\<close> holds the scheduler, class \<open>Minion\<close>:
  a pool of task entries (\<open>TaskObject\<close>: a task class, a \<open>life\<close> budget with 0
  meaning unlimited, an \<open>awakeTime\<close>), a round-robin cursor \<open>_pollingIndex\<close>, an
  Idle/Busy flag with the running instance \<open>_currentTask\<close>, a pool-wide gate
  \<open>_nextTaskTimer\<close> and a 500 ms polling timer. Each firing of the timer runs
  \<open>_polling\<close>, which starts at most one awake entry; the settlement of the
  task's promise (\<open>then\<close>, \<open>catch\<close>, \<open>finally\<close>) stores the wake time, spends
  the life budget, moves the cursor and reopens the scheduler. The same class
  is the data store of the tasks (\<open>getData\<close>, \<open>setData\<close>, \<open>uniformKey\<close>, the
  account information written by the constructor) and their page provider
  (\<open>getPage\<close>). Tasks follow the \<open>BaseTask\<close> contract (not under \<open>src/\<close>);
  \<open>src/src/tasks/Mining.ts\<close> is the mining task, whose first step reads the
  page's stage and cooldown, and \<open>src/src/utils/utils.ts\<close> computes wake times.

  \<^bold>\<open>Theories.\<close>
  \<^item> \<open>Prelude\<close>: JavaScript numbers used as indices (\<open>js_index\<close>: a natural
    number or NaN), \<open>%\<close>, \<open>Array.splice(k, 1)\<close>, the exceptions
    (\<open>error\<close>), and the lemma collections \<open>model_defs\<close> and \<open>js_simps\<close>.
  \<^item> \<open>Scheduler\<close> (\<open>Minion.ts\<close> lines 17--185): the record \<open>minion\<close>, one
    definition per operation (\<open>add_task\<close>, \<open>start\<close>, \<open>stop\<close>, \<open>polling\<close>
    with \<open>scan_pool\<close>, \<open>then_block\<close>, \<open>finally_block\<close>, \<open>settle\<close>,
    \<open>schedule_polling\<close>), the step function \<open>minion_step\<close> over events
    (\<open>AddTask\<close>, \<open>Start\<close>, \<open>Stop\<close>, \<open>Timer now\<close>, \<open>TimerThrows now e\<close>,
    \<open>Settle outcome now\<close>), runs \<open>minion_run\<close> and the inductive
    \<open>reachable\<close>. The polling timer is one-shot: a firing (\<open>timer_fire\<close>)
    disarms it and \<open>_polling\<close> re-arms it on every path that returns. The
    synchronous construction and \<open>prepare()\<close> of the picked task are the
    parameter \<open>perr\<close> of \<open>polling\<close> (\<open>TimerThrows\<close> when they throw). The closure's
    \<open>pickedTask\<close> object is its slot \<open>picked_slot\<close>: only \<open>addTask\<close>
    changes the pool while a task runs, and it appends. Claims C1--C11.
  \<^item> \<open>DataStore\<close> (\<open>Minion.ts\<close> lines 70--76, 284--298): JavaScript values
    \<open>jsval\<close>, the copy \<open>JSON.parse(JSON.stringify(_))\<close> as \<open>json_copy\<close> on
    values, \<open>uniform_key\<close> (a \<open>function\<close> with a length measure),
    \<open>get_data\<close>, \<open>set_data\<close> and the constructor \<open>minion_data_init\<close>.
    \<open>store_typed\<close> (every stored value is one \<open>JSON.parse\<close> can return,
    \<open>json_clean\<close>) with \<open>set_data_run\<close>, a sequence of writes.
    Claims C13--C16, C19, C20.
  \<^item> \<open>Utils\<close> (\<open>utils.ts\<close>): \<open>random\<close> and \<open>get_awake_time\<close>
    over rationals, with \<open>Math.random()\<close> and the clock as parameters, and
    \<open>sleep\<close> as the timer it arms. C21 (the clamp of \<open>rnd\<close> and the bounds).
  \<^item> \<open>Task\<close>: the \<open>BaseTask\<close> contract, modelled from spec section 4.2
    since its file is not under \<open>src/\<close>: step registration, the actions
    \<open>Tick\<close>, \<open>NextStep\<close>, \<open>Complete\<close>, the lifecycle, and
    \<open>task_settlement\<close>, the interface to the scheduler's \<open>task_outcome\<close>,
    \<open>action_target\<close>, the step an action names,
    with its lifecycle lemmas (reachable tasks stay well formed, terminal states
    absorb, only \<open>complete\<close> leaves Running).
  \<^item> \<open>MiningTask\<close> (\<open>Mining.ts\<close> lines 24--126, 373--380): the
    constructor's step registration, stage detection, \<open>parseInt\<close>,
    \<open>split(':')\<close>, \<open>getCooldown\<close>, \<open>stepPrepare\<close>, \<open>Mining.initial\<close>
    and \<open>prepare\<close>; \<open>step_prepare\<close> returns a \<open>'r prepare_outcome\<close>, an
    action on a task of any result type, a 3 s retry, or an exception.
    C23--C28.
  \<^item> \<open>MiningSteps\<close> (\<open>Mining.ts\<close> lines 52--57, 128--215, 284--371): the
    task's private fields (\<open>mining_obj\<close>), the response listeners
    \<open>watch_balance\<close> and \<open>watch_transaction\<close> (\<open>on_response\<close> runs both
    while they are registered), \<open>step_mine\<close>, \<open>update_cooldown\<close>,
    \<open>confirm_mining\<close> with the record it writes (\<open>mining_record\<close>, with
    JavaScript's \<open>+\<close> on stored values as \<open>js_plus_num\<close>), and the
    confirm phase as a run \<open>confirm_run\<close> over responses and the firings
    of the two 1 s timers. C37--C40.
  \<^item> \<open>MiningClaim\<close> (\<open>Mining.ts\<close> lines 217--282): \<open>stepClaim\<close> as a run
    \<open>claim_run\<close> over the callbacks it arms (its own 3 s retries, the popup
    handler \<open>doApprove\<close>, the approve loop \<open>clickApproveButton\<close>, the close
    handler \<open>onApproved\<close>), counting the calls of \<open>nextStep('comfirm')\<close>;
    \<open>claim_actions\<close> lists those calls as task actions. C18.
  \<^item> \<open>LegacyMining\<close> (\<open>src/src/tasks/mining/Mining.ts\<close>): the older
    four-step task (\<open>mine\<close>, \<open>claim\<close>, \<open>apprive\<close>, \<open>comfirm\<close>), one
    definition per step over what the page shows, and \<open>legacy_run\<close> over
    one observation per executed step. Its lemmas: every action names a
    registered step, click delays lie in their \<open>random\<close> ranges, and a run
    that succeeds from \<open>mine\<close> visits the four steps in order
    (\<open>legacy_run_ordered\<close>). It carries no claim: its base class
    \<open>../../Task\<close> is not in the repository, so the file is not part of the
    running program.
  \<^item> \<open>PageProvider\<close> (\<open>Minion.ts\<close> lines 200--282): \<open>getPage\<close>. A page
    is its title and location, each of which may throw while it navigates
    (\<open>page\<close> with \<open>string option\<close> fields); the three kinds of query
    (\<open>QStr\<close> with \<open>indexOf\<close> as \<open>index_of\<close>, \<open>QRegex\<close> as a predicate,
    \<open>QFunc\<close> that may reject); one attempt of \<open>searchPage\<close> over a snapshot
    of \<open>browser.pages()\<close> (\<open>scan_pages\<close>, \<open>search_page\<close>, with the
    reference reading \<open>scan_ref\<close> by \<open>find\<close> and \<open>filter\<close>), and the retry
    loop \<open>get_page_run\<close> over the snapshots of successive attempts, and the
    same loop unbounded, \<open>get_page_loop\<close>, a \<open>partial_function (option)\<close>
    over a stream of snapshots. C12, C31--C36.
  \<^item> This theory: properties across components, C17, C22, C29, C30: the
    actions of a successful mining run's steps move the task through
    \<open>mine\<close>, \<open>claim\<close> and \<open>comfirm\<close> to Completed with a wake time (C17);
    every step its handlers name is a registered one (C22);
    a mining run that finds the cooldown completes with a wake time that keeps
    its entry from being restarted early (C29), or, when the cooldown cannot
    be read, without one (C30).

  \<^bold>\<open>What the lemmas show.\<close> The invariant \<open>minion_inv\<close> (flags agree, the
  picked slot is in range, the cursor is in range or NaN) holds in every
  reachable state, by rule induction over \<open>reachable\<close> with one preservation
  lemma per operation. On top of it: mutual exclusion (C1, C5), round-robin
  fairness over any number of cycles (C2), the life budget at the cursor (C3),
  the picked slot holds the started entry (C6), the wake time (C4, C9), the
  polling loop's liveness while a task runs (C10: each firing consumes the
  one-shot timer and the busy branch re-arms it), and the error path (C11: a
  poll throws exactly on a NaN cursor or when building the picked task
  throws, and then the timer is not re-armed). Modelling showed defects,
  proved as theorems: the \<open>finally\<close> handler splices the pool at the cursor
  instead of at the picked entry (C7); exhausting the last entry leaves the
  cursor at NaN so that the next poll after an \<open>addTask\<close> throws and the
  loop stops (C8); and an exception of \<open>prepare()\<close> (which \<open>Mining.prepare\<close>
  raises on the constructor's store, C28) stops the loop the same way (C11). For the store: the write/read round trip modulo key normalisation
  (C13), the JSON copy (C14: identity on JSON values, its results are clean
  fixpoints, it throws exactly on \<open>undefined\<close>), the error on a
  missing key (C15), the falsy default (C16), frame
  (C19) and the typing of the store: every write keeps only JSON values
  (C20). \<open>getAwakeTime\<close> raises any \<open>rnd\<close> below 180000 to 180000,
  against the 36000 minimum of its JSDoc (C21). For the mining task: the
  cooldown parser on \<open>hh:mm:ss\<close>, on two fields and
  on too many fields (C23--C25), the wake time of the cooldown branch (C26),
  and \<open>initial\<close>/\<open>prepare\<close> on the store the constructor leaves (C27, C28).
  For the page provider: waiting never falls back to a blank or new page
  (C31) and resolves once a readable snapshot shows a match (C32); the first
  match is chosen (C33); transient read failures are retried (C34); without
  waiting the search resolves at once with the first blank page or a new one
  (C35); a string query picks the first page whose title or URL contains it
  (C36, through \<open>indexOf\<close> as the substring relation \<open>sublist\<close>).
  For the rest of the mining run: the balance the listener keeps never
  decreases and the reported reward is never negative (C37); the run
  completes only after a push-transaction response (C38); a failed
  transaction completes at once with a wake time one hour ahead (C39); and the
  stored rewards total loses the first reward (C40, a defect). For
  \<open>stepClaim\<close>: a popup closed before its approve button could be clicked
  leaves nothing armed, so the task never settles and the scheduler stays Busy
  (C18, a defect); \<open>nextStep('comfirm')\<close> is only ever called after a
  successful approve click (lemma \<open>claim_confirm_needs_click\<close>).

  \<^bold>\<open>Bounds and fuel.\<close> No model needs fuel so far: the scan is a structural
  recursion over \<open>[0..<length pool]\<close>, runs are lists of events, and
  \<open>uniform_key\<close> terminates by the length of the key. Timer firings are
  events, so a task that never settles is a run with no \<open>Settle\<close> event (C10)
  rather than a divergent function. The \<open>getPage\<close> loop may wait forever, so
  its fuel is the list of snapshots its attempts observe: \<open>get_page_run\<close>
  returns \<open>None\<close> when the list runs out, and C32 shows that the first
  snapshot with a readable match is enough. Without fuel, \<open>get_page_loop\<close>
  is a \<open>partial_function (option)\<close> whose \<open>None\<close> is a search that never
  resolves; C12 proves it returns (\<open>Some\<close>) once an attempt sees a readable
  snapshot that resolves, and \<open>get_page_loop_run\<close> shows it refines the
  fuel model: the snapshots up to the resolving attempt are enough fuel.

  \<^bold>\<open>Not modelled.\<close> The Minion fields \<open>browser\<close> (set by
  \<open>prepare(browser)\<close>) and \<open>_userAgent\<close> (set by the constructor) are
  handles the model never reads; the browser effects the steps perform
  (clicks, selector waits, \<open>page.reload()\<close>, navigation) are abstracted to
  what they return. The logger, \<open>config\<close>, the constants, the user-agent choice and
  puppeteer itself (\<open>setUserAgent\<close>, \<open>bringToFront\<close>,
  \<open>goto\<close>, the timeouts of the chosen page) are outside \<open>src/\<close> or pure I/O; the constants are
  parameters (\<open>DATA_ACCOUNT_INFO\<close>, \<open>DATA_KEY_MINING\<close>) and
  \<open>config.minion.taskInterval\<close> is the field \<open>task_interval\<close>.
  \<open>task.prepare()\<close>'s result is not consulted by \<open>_polling\<close>, as in the code;
  whether it (or the constructor) throws is the parameter of the poll, not
  computed from the task. \<open>_polling\<close> reads the clock once for the log line
  and once for the scan; the model uses one reading \<open>now\<close> for both.
  \<open>_currentTask.destroy()\<close> in \<open>finally\<close> only releases the task object.
  In \<open>watchBalance\<close>, a request body that \<open>JSON.parse\<close> cannot read ends
  the listener call; the code's rejected promise is unhandled, the model
  returns the object unchanged; each response is handled as one step, across
  its \<open>await resp.json()\<close>. Characters are 8-bit (\<open>char\<close>), so the
  whitespace of \<open>trim\<close> and \<open>parseInt\<close> covers tab to carriage return,
  space and no-break space (160); the Unicode spaces above 255 are outside
  the model. \<open>JNonFinite\<close> stands for NaN and both infinities, and is truthy
  in \<open>js_falsy\<close>; this is never observed, since the JSON copy turns it
  into \<open>null\<close> before the \<open>|| {}\<close> test.
\<close>

section \<open>Properties across components\<close>

text \<open>
  C29. A mining run whose first step finds the tools cooling down completes
  Canceled; its settlement stores a wake time at least 45 s past the end of
  the cooldown on the pool entry, and no poll up to that time restarts it
  (whether or not building a task in that poll throws).
\<close>

theorem mining_cooldown_defers_entry:
  assumes "reachable s" "picked_slot s = Some p" "life (task_pool s ! p) \<noteq> 1"
    "tstate t = Running"
    "step_prepare d k (Some probe) (Some txt) now r = PrepareAction a"
    "get_data d k = Inr md" "\<not> btn_mine probe" "\<not> btn_claim probe" "txt_cooldown probe"
    "get_cooldown txt = Some cd" "0 \<le> now + cd" "0 \<le> r" "r < 1"
  shows "\<exists>w. task_settlement (apply_action t a) = Some (Resolved (Some w)) \<and>
             now + cd + 45000 \<le> w \<and>
             awake_time (task_pool (settle (Resolved (Some w)) t' s) ! p) = w \<and>
             (\<forall>t'' e s''. t'' \<le> w \<longrightarrow> polling t'' e (settle (Resolved (Some w)) t' s) = Inr s'' \<longrightarrow>
                 picked_slot s'' \<noteq> Some p)"
proof -
  define w where "w = \<lfloor>get_awake_time now (of_int cd) 180000 r\<rfloor>"
  have a: "a = Complete Canceled ''Cooldown'' None (Some w)"
    using assms(5-10) by (simp add: step_prepare_def get_current_stage_def w_def)
  have lo: "now + cd + 45000 \<le> w"
    using get_awake_time_default_floor [OF assms(12,13), of now cd] by (simp add: w_def)
  have settle_t: "task_settlement (apply_action t a) = Some (Resolved (Some w))"
    using a assms(4) by (simp add: task_settlement_def terminal_def)
  have inv: "minion_inv s" using assms(1) by (rule reachable_minion_inv)
  then have pl: "p < length (task_pool s)" using assms(2) by (simp add: minion_inv_def)
  have w0: "w \<noteq> 0" using lo assms(11) by linarith
  let ?s' = "settle (Resolved (Some w)) t' s"
  have aw: "awake_time (task_pool ?s' ! p) = w"
    using assms(2,3) pl w0 by (simp add: settle_unfold)
  have none: "picked_slot ?s' = None" using assms(2) by (simp add: settle_def)
  have never: "picked_slot s'' \<noteq> Some p" if "t'' \<le> w" "polling t'' e ?s' = Inr s''" for t'' e s''
  proof
    assume "picked_slot s'' = Some p"
    with polling_Inr_cases [OF that(2)] none have "awake_time (task_pool ?s' ! p) < t''"
      by (auto simp: schedule_polling_def)
    with aw that(1) show False by simp
  qed
  show ?thesis using settle_t lo aw never by blast
qed

lemma mining_cooldown_defers_entry_witness:
  "\<exists>w. task_settlement (apply_action (\<lparr>step_names = [''prepare''], current_step = ''prepare'',
          tstate = Running, message = [], result = None, awake = None\<rparr> :: (unit, time) task)
          (Complete Canceled ''Cooldown'' None (Some 713500))) = Some (Resolved (Some w)) \<and>
       1000 + 600000 + 45000 \<le> w \<and>
       awake_time (task_pool (settle (Resolved (Some w)) 20
         (\<lparr>task_pool = [\<lparr>cls = ''Mining'', life = 0, awake_time = 0\<rparr>], polling_index = Idx 0,
           state = Busy, current_task = Some ''Mining'', picked_slot = Some 0, next_task_timer = 0,
           polling_armed = True, task_interval = 0\<rparr> :: string minion)) ! 0) = w \<and>
       (\<forall>t'' e s''. t'' \<le> w \<longrightarrow> polling t'' e (settle (Resolved (Some w)) 20
         (\<lparr>task_pool = [\<lparr>cls = ''Mining'', life = 0, awake_time = 0\<rparr>], polling_index = Idx 0,
           state = Busy, current_task = Some ''Mining'', picked_slot = Some 0, next_task_timer = 0,
           polling_armed = True, task_interval = 0\<rparr> :: string minion)) = Inr s'' \<longrightarrow>
         picked_slot s'' \<noteq> Some 0)"
proof -
  let ?s = "\<lparr>task_pool = [\<lparr>cls = ''Mining'', life = 0, awake_time = 0\<rparr>], polling_index = Idx 0,
           state = Busy, current_task = Some ''Mining'', picked_slot = Some 0, next_task_timer = 0,
           polling_armed = True, task_interval = 0\<rparr> :: string minion"
  let ?d = "Map.empty(''mining'' \<mapsto> JObj [])"
  let ?probe = "\<lparr>btn_mine = False, btn_claim = False, txt_cooldown = True\<rparr>"
  have run: "minion_run (minion_init 0) [AddTask ''Mining'' 0, Start, Timer 10] = Inr ?s"
    by (simp add: model_defs)
  have r: "reachable ?s" by (rule reachable_run [OF reachable.init run])
  have cd: "get_cooldown ''00:10:00'' = Some 600000" by code_simp
  have gd: "get_data ?d ''mining'' = Inr (JObj [])"
    by (simp add: get_data_def json_copy_def is_word_char_def)
  have sp: "step_prepare ?d ''mining'' (Some ?probe) (Some ''00:10:00'') 1000 (1/2) =
            PrepareAction (Complete Canceled ''Cooldown'' None (Some 713500))"
    using cd gd by (simp add: step_prepare_def get_current_stage_def get_awake_time_def random_def)
  show ?thesis
    by (rule mining_cooldown_defers_entry [OF r _ _ _ sp gd _ _ _ cd]) simp_all
qed

text \<open>
  C30. When the cooldown text cannot be read as a number (NaN), the run
  completes Canceled without a wake time, so the entry keeps the wake time it
  had when it was picked, which lies in the past: the task becomes eligible
  again as soon as the inter-task gate reopens, although the page said the
  tools were cooling down.
\<close>

theorem mining_unreadable_cooldown_keeps_awake:
  assumes "reachable s" "picked_slot s = Some p" "life (task_pool s ! p) \<noteq> 1" "tstate t = Running"
    "step_prepare d k (Some probe) (Some txt) now r = PrepareAction a"
    "get_data d k = Inr md" "\<not> btn_mine probe" "\<not> btn_claim probe" "txt_cooldown probe"
    "get_cooldown txt = None"
  shows "task_settlement (apply_action t a) = Some (Resolved None) \<and>
         awake_time (task_pool (settle (Resolved None) t' s) ! p) = awake_time (task_pool s ! p)"
proof -
  have a: "a = Complete Canceled ''Cooldown'' None None"
    using assms(5-10) by (simp add: step_prepare_def get_current_stage_def)
  have "p < length (task_pool s)"
    using reachable_minion_inv [OF assms(1)] assms(2) by (simp add: minion_inv_def)
  with a assms(2-4) show ?thesis
    by (simp add: task_settlement_def terminal_def settle_def finally_block_def Let_def)
qed

lemma mining_unreadable_cooldown_keeps_awake_witness:
  "task_settlement (apply_action (\<lparr>step_names = [''prepare''], current_step = ''prepare'',
          tstate = Running, message = [], result = None, awake = None\<rparr> :: (unit, time) task)
          (Complete Canceled ''Cooldown'' None None)) = Some (Resolved None) \<and>
   awake_time (task_pool (settle (Resolved None) 20
         (\<lparr>task_pool = [\<lparr>cls = ''Mining'', life = 0, awake_time = 0\<rparr>], polling_index = Idx 0,
           state = Busy, current_task = Some ''Mining'', picked_slot = Some 0, next_task_timer = 0,
           polling_armed = True, task_interval = 0\<rparr> :: string minion)) ! 0) = 0"
proof -
  let ?s = "\<lparr>task_pool = [\<lparr>cls = ''Mining'', life = 0, awake_time = 0\<rparr>], polling_index = Idx 0,
           state = Busy, current_task = Some ''Mining'', picked_slot = Some 0, next_task_timer = 0,
           polling_armed = True, task_interval = 0\<rparr> :: string minion"
  let ?d = "Map.empty(''mining'' \<mapsto> JObj [])"
  let ?probe = "\<lparr>btn_mine = False, btn_claim = False, txt_cooldown = True\<rparr>"
  have run: "minion_run (minion_init 0) [AddTask ''Mining'' 0, Start, Timer 10] = Inr ?s"
    by (simp add: model_defs)
  have r: "reachable ?s" by (rule reachable_run [OF reachable.init run])
  have cd: "get_cooldown ''1:2:3:4'' = None" by code_simp
  have gd: "get_data ?d ''mining'' = Inr (JObj [])"
    by (simp add: get_data_def json_copy_def is_word_char_def)
  have sp: "step_prepare ?d ''mining'' (Some ?probe) (Some ''1:2:3:4'') 1000 (1/2) =
            PrepareAction (Complete Canceled ''Cooldown'' None None)"
    using cd gd by (simp add: step_prepare_def get_current_stage_def)
  have "task_settlement (apply_action (\<lparr>step_names = [''prepare''], current_step = ''prepare'',
          tstate = Running, message = [], result = None, awake = None\<rparr> :: (unit, time) task)
          (Complete Canceled ''Cooldown'' None None)) = Some (Resolved None) \<and>
        awake_time (task_pool (settle (Resolved None) 20 ?s) ! 0) = awake_time (task_pool ?s ! 0)"
    by (rule mining_unreadable_cooldown_keeps_awake [OF r _ _ _ sp gd _ _ _ cd]) simp_all
  then show ?thesis by simp
qed

text \<open>
  C17. A successful mining run, step by step: from the started task, the
  action of \<open>stepPrepare\<close> when the mine button shows moves the task to
  \<open>mine\<close>, the action of \<open>stepMine\<close> to \<open>claim\<close>, the \<open>nextStep('comfirm')\<close>
  calls of a claim step that got at least one approve click to \<open>comfirm\<close>
  (the task still running), and the completion of a confirm run leaves it
  Completed with message 'Success' and a settlement that carries a wake time.
\<close>

theorem mining_success_run:
  assumes prep: "step_prepare d k (Some probe) cdt now r = PrepareAction a1" "btn_mine probe"
    and mine: "step_mine m0 = (m1, a2)"
    and claim: "0 < next_confirm (claim_run cevs claim_init)"
    and conf: "confirm_run env tostr k' evs (confirm_init m1 d1) = Inr s" "cdone s = Some a4"
  shows "let t1 = apply_action (task_start (mining_new :: (jsval, time) task)) a1;
             t2 = apply_action t1 a2;
             t3 = fold (\<lambda>a t. apply_action t a) (claim_actions (claim_run cevs claim_init)) t2;
             t4 = apply_action t3 a4
         in current_step t1 = ''mine'' \<and> current_step t2 = ''claim'' \<and>
            current_step t3 = ''comfirm'' \<and> tstate t3 = Running \<and>
            tstate t4 = Completed \<and> message t4 = ''Success'' \<and>
            (\<exists>aw. task_settlement t4 = Some (Resolved (Some aw)))"
proof -
  have a1: "a1 = NextStep ''mine''"
    using step_prepare_action [OF prep(1)] prep(2) by (auto simp: get_current_stage_def)
  have a2: "a2 = NextStep ''claim''" using mine by (simp add: step_mine_def)
  obtain res aw where a4: "a4 = Complete Completed ''Success'' (Some res) (Some aw)"
    using confirm_run_done [OF conf(1) _ conf(2)] by (auto simp: confirm_init_def)
  let ?t1 = "apply_action (task_start (mining_new :: (jsval, time) task)) a1"
  let ?t2 = "apply_action ?t1 a2"
  let ?t3 = "fold (\<lambda>a t. apply_action t a) (claim_actions (claim_run cevs claim_init)) ?t2"
  have t2: "tstate ?t2 = Running" "step_names ?t2 = [''prepare'', ''mine'', ''claim'', ''comfirm'']"
    "current_step ?t1 = ''mine''" "current_step ?t2 = ''claim''"
    by (simp_all add: a1 a2 task_start_def mining_new_fields)
  have t3: "?t3 = ?t2\<lparr>current_step := ''comfirm''\<rparr>"
    unfolding claim_actions_def using t2(1,2) claim by (intro fold_next_step) simp_all
  show ?thesis
    using t2 t3 by (simp add: a4 task_settlement_def terminal_def Let_def)
qed

lemma mining_success_run_witness:
  "let t1 = apply_action (task_start (mining_new :: (jsval, time) task)) (NextStep ''mine'');
       t2 = apply_action t1 (NextStep ''claim'');
       t3 = fold (\<lambda>a t. apply_action t a)
              (claim_actions (claim_run [ClaimRun True, PopupOpen, ApproveTry True False] claim_init)) t2;
       t4 = apply_action t3 (Complete Completed ''Success'' (Some (mining_result 3645000 100 0)) (Some 3645000))
   in current_step t1 = ''mine'' \<and> current_step t2 = ''claim'' \<and>
      current_step t3 = ''comfirm'' \<and> tstate t3 = Running \<and>
      tstate t4 = Completed \<and> message t4 = ''Success'' \<and>
      (\<exists>aw. task_settlement t4 = Some (Resolved (Some aw)))"
proof -
  let ?d = "Map.empty(''mining'' \<mapsto> JObj [])"
  let ?probe = "\<lparr>btn_mine = True, btn_claim = False, txt_cooldown = False\<rparr>"
  have gd: "get_data ?d ''mining'' = Inr (JObj [])"
    by (simp add: get_data_def json_copy_def is_word_char_def)
  have sp: "step_prepare ?d ''mining'' (Some ?probe) None 1000 (1/2) = PrepareAction (NextStep ''mine'')"
    using gd by (simp add: step_prepare_def get_current_stage_def)
  have mine: "step_mine (obj_mined 0) = ((obj_mined 0)\<lparr>listening := True\<rparr>, NextStep ''claim'')"
    by (simp add: step_mine_def)
  have cl: "0 < next_confirm (claim_run [ClaimRun True, PopupOpen, ApproveTry True False] claim_init)"
    by (simp add: claim_run_def claim_init_def)
  have half: "\<lfloor>(1/2 :: rat)\<rfloor> = 0" by (simp add: floor_eq_iff)
  have "\<exists>s. confirm_run env_sample (\<lambda>_. []) ''mining'' [Resp (resp_push False), ConfirmTick 0 0]
               (confirm_init ((obj_mined 0)\<lparr>listening := True\<rparr>) store_sample) = Inr s \<and>
             cdone s = Some (Complete Completed ''Success'' (Some (mining_result 3645000 100 0)) (Some 3645000))"
    by (simp add: confirm_init_def on_response_def watch_balance_def watch_transaction_def
                  env_sample_def resp_push_def obj_mined_def obj_sample_def mining_obj_init_def
                  confirm_mining_def store_sample_def get_data_def json_copy_def set_data_Inr Let_def
                  get_awake_time_def random_def reward_of_def js_round_def half
             del: uniform_key.simps)
  then obtain s where run: "confirm_run env_sample (\<lambda>_. []) ''mining'' [Resp (resp_push False), ConfirmTick 0 0]
               (confirm_init ((obj_mined 0)\<lparr>listening := True\<rparr>) store_sample) = Inr s"
      and fin: "cdone s = Some (Complete Completed ''Success'' (Some (mining_result 3645000 100 0)) (Some 3645000))"
    by blast
  show ?thesis
    by (rule mining_success_run [OF sp _ mine cl run fin]) simp
qed

text \<open>
  C22. Every step the mining task's handlers name is one its constructor
  registered: the action of \<open>stepPrepare\<close>, the action of \<open>stepMine\<close> and the
  \<open>nextStep('comfirm')\<close> calls of the claim step name only \<open>prepare\<close>,
  \<open>mine\<close>, \<open>claim\<close> and \<open>comfirm\<close> (the code spells the confirm step
  \<open>comfirm\<close> both where it registers it and where it moves to it).
\<close>

theorem mining_step_targets_registered:
  assumes "step_prepare d k probe cdt now r = PrepareAction a1"
  shows "set (List.map_filter action_target (a1 # snd (step_mine m0) # claim_actions cs)) \<subseteq>
         set (step_names (mining_new :: (jsval, time) task))"
  using step_prepare_action [OF assms]
  by (auto simp: map_filter_def action_target_def step_mine_def claim_actions_def mining_new_fields)

lemma mining_step_targets_registered_witness:
  "set (List.map_filter action_target
     (NextStep ''mine'' # snd (step_mine mining_obj_init) #
      claim_actions (claim_run [ClaimRun True, PopupOpen, ApproveTry True False] claim_init))) \<subseteq>
   set (step_names (mining_new :: (jsval, time) task))"
proof -
  let ?d = "Map.empty(''mining'' \<mapsto> JObj [])"
  let ?probe = "\<lparr>btn_mine = True, btn_claim = False, txt_cooldown = False\<rparr>"
  have gd: "get_data ?d ''mining'' = Inr (JObj [])"
    by (simp add: get_data_def json_copy_def is_word_char_def)
  have sp: "step_prepare ?d ''mining'' (Some ?probe) None 1000 (1/2) = PrepareAction (NextStep ''mine'')"
    using gd by (simp add: step_prepare_def get_current_stage_def)
  show ?thesis by (rule mining_step_targets_registered [OF sp])
qed

end
